(* ===== verification/Tracer_Prelude.thy ===== *)
theory Tracer_Prelude
  imports Main "HOL-Library.Word" "HOL-Library.Multiset" "HOL-Library.AList"
begin

text \<open>
  Shared vocabulary of the development: machine integers, the errors the C++ code can raise,
  the result type of operations that may throw, an address-indexed store for objects that are
  reached through a \<open>std::shared_ptr\<close>, and the generic lemmas on words, options, lists and
  association lists that the component theories rely on.
\<close>

section \<open>Machine integers\<close>

text \<open>
  \<open>jlong\<close>, \<open>int64_t\<close>, \<open>long long\<close> and \<open>uint64_t\<close> are 64-bit words; signed readings go
  through \<^const>\<open>sint\<close> and unsigned ones through \<^const>\<open>unat\<close>. Signed arithmetic on
  \<open>std::atomic\<close> integers wraps in C++; plain signed arithmetic is modelled with the same
  wrap-around, and the lemmas below state when no wrap-around happens.
\<close>

type_synonym u8 = "8 word"
type_synonym u16 = "16 word"
type_synonym i32 = "32 word"
type_synonym i64 = "64 word"
type_synonym u64 = "64 word"
type_synonym jlong = "64 word"
type_synonym pthread_t = "64 word"
type_synonym jmethodID = "64 word"

named_theorems word_range \<open>exactness of 64-bit signed arithmetic in the absence of overflow\<close>
named_theorems heap_simps \<open>reading, writing and allocating in an object store\<close>
named_theorems result_simps \<open>unfolding of operations that may throw\<close>

lemma sint_minus_exact [word_range]:
  fixes a b :: i64
  assumes "- (2 ^ 63) \<le> sint a - sint b" and "sint a - sint b < 2 ^ 63"
  shows "sint (a - b) = sint a - sint b"
  using assms by (simp add: sint_word_ariths signed_take_bit_int_eq_self)

lemma sint_plus_exact [word_range]:
  fixes a b :: i64
  assumes "- (2 ^ 63) \<le> sint a + sint b" and "sint a + sint b < 2 ^ 63"
  shows "sint (a + b) = sint a + sint b"
  using assms by (simp add: sint_word_ariths signed_take_bit_int_eq_self)

lemma sint_times_exact [word_range]:
  fixes a b :: i64
  assumes "- (2 ^ 63) \<le> sint a * sint b" and "sint a * sint b < 2 ^ 63"
  shows "sint (a * b) = sint a * sint b"
  using assms by (simp add: sint_word_ariths signed_take_bit_int_eq_self)

lemma sint_i64_bounds:
  fixes a :: i64
  shows "- (2 ^ 63) \<le> sint a" and "sint a < 2 ^ 63"
  using sint_range_size [of a] by (simp_all add: word_size)

lemma sint_minus_nonneg [word_range]:
  fixes a b :: i64
  assumes "0 \<le> sint a" and "0 \<le> sint b"
  shows "sint (a - b) = sint a - sint b"
  using assms sint_i64_bounds [of a] sint_i64_bounds [of b] by (intro sint_minus_exact) auto

lemma sint_word_of_nat_small:
  assumes "n < 2 ^ 31"
  shows "sint (word_of_nat n :: i32) = int n"
  using assms by (simp add: signed_of_nat signed_take_bit_int_eq_self)

lemma unat_plus_exact [word_range]:
  fixes a b :: u64
  assumes "unat a + unat b < 2 ^ 64"
  shows "unat (a + b) = unat a + unat b"
  using assms by (simp add: unat_word_ariths)

lemma unat_minus_exact [word_range]:
  fixes a b :: u64
  assumes "b \<le> a"
  shows "unat (a - b) = unat a - unat b"
  using assms by (rule unat_sub)

section \<open>Errors and results\<close>

text \<open>
  The exceptions the code raises itself or lets escape from the standard library, and the two
  kinds of failure that C++ does not turn into an exception: reading through a null pointer and
  any other undefined behaviour (named by the operation that causes it).
\<close>

datatype error =
    Runtime_error string
  | Out_of_range string
  | Invalid_argument string
  | Length_error string
  | Null_dereference string
  | Undefined_behaviour string

type_synonym 'a result = "error + 'a"

definition rbind :: "'a result \<Rightarrow> ('a \<Rightarrow> 'b result) \<Rightarrow> 'b result" where
  "rbind r f = (case r of Inl e \<Rightarrow> Inl e | Inr x \<Rightarrow> f x)"

lemma rbind_Inl [simp, result_simps]: "rbind (Inl e) f = Inl e"
  by (simp add: rbind_def)

lemma rbind_Inr [simp, result_simps]: "rbind (Inr x) f = f x"
  by (simp add: rbind_def)

lemma rbind_eq_Inr: "rbind r f = Inr y \<longleftrightarrow> (\<exists>x. r = Inr x \<and> f x = Inr y)"
  by (cases r) auto

lemma rbind_eq_Inl: "rbind r f = Inl e \<longleftrightarrow> r = Inl e \<or> (\<exists>x. r = Inr x \<and> f x = Inl e)"
  by (cases r) auto

text \<open>
  An operation on a state that may throw: the state it leaves behind is part of the outcome also
  when it throws, since C++ does not undo what was done before the exception.
\<close>

type_synonym ('s, 'a) action = "'s \<Rightarrow> 'a result \<times> 's"

definition abind :: "'a result \<times> 's \<Rightarrow> ('a \<Rightarrow> ('s, 'b) action) \<Rightarrow> 'b result \<times> 's" where
  "abind r f = (case r of (Inl e, s) \<Rightarrow> (Inl e, s) | (Inr x, s) \<Rightarrow> f x s)"

lemma abind_simps [simp, result_simps]:
  "abind (Inl e, s) f = (Inl e, s)" "abind (Inr x, s) f = f x s"
  by (simp_all add: abind_def)

lemma abind_cong [fundef_cong]:
  assumes "r = r'" and "\<And>x s. r' = (Inr x, s) \<Longrightarrow> f x s = f' x s"
  shows "abind r f = abind r' f'"
  using assms by (auto simp: abind_def split: prod.splits sum.splits)

lemma abind_eq_Inr:
  "abind r f = (Inr y, s') \<longleftrightarrow> (\<exists>x s. r = (Inr x, s) \<and> f x s = (Inr y, s'))"
  by (cases r; cases "fst r") auto

section \<open>Object store\<close>

text \<open>
  An object that is reached through several \<open>std::shared_ptr\<close>s lives in a cell of a store; a
  pointer is the address of the cell, and \<^const>\<open>None\<close> is the null pointer. Cells are never
  reused: an object that is no longer referenced is simply never read again.
\<close>

record 'a heap =
  next_addr :: nat
  cells :: "nat \<Rightarrow> 'a option"

type_synonym addr = nat
type_synonym ptr = "nat option"

definition heap_empty :: "'a heap" where
  "heap_empty = \<lparr>next_addr = 0, cells = Map.empty\<rparr>"

definition heap_alloc :: "'a \<Rightarrow> 'a heap \<Rightarrow> addr \<times> 'a heap" where
  "heap_alloc x h =
     (next_addr h, h\<lparr>next_addr := Suc (next_addr h), cells := (cells h)(next_addr h \<mapsto> x)\<rparr>)"

definition heap_update :: "addr \<Rightarrow> ('a \<Rightarrow> 'a) \<Rightarrow> 'a heap \<Rightarrow> 'a heap" where
  "heap_update a f h = h\<lparr>cells := (cells h)(a := map_option f (cells h a))\<rparr>"

definition heap_ok :: "'a heap \<Rightarrow> bool" where
  "heap_ok h \<longleftrightarrow> (\<forall>a. (cells h a \<noteq> None) = (a < next_addr h))"

lemma heap_ok_empty [simp, intro]: "heap_ok heap_empty"
  by (simp add: heap_ok_def heap_empty_def)

lemma heap_ok_alloc [simp, intro]: "heap_ok h \<Longrightarrow> heap_ok (snd (heap_alloc x h))"
  by (auto simp: heap_ok_def heap_alloc_def less_Suc_eq)

lemma heap_ok_update [simp]: "heap_ok (heap_update a f h) = heap_ok h"
  by (auto simp: heap_ok_def heap_update_def)

lemma cells_alloc [heap_simps]:
  "cells (snd (heap_alloc x h)) a = (if a = next_addr h then Some x else cells h a)"
  by (simp add: heap_alloc_def)

lemma fst_alloc [heap_simps]: "fst (heap_alloc x h) = next_addr h"
  by (simp add: heap_alloc_def)

lemma next_addr_alloc [heap_simps]: "next_addr (snd (heap_alloc x h)) = Suc (next_addr h)"
  by (simp add: heap_alloc_def)

lemma cells_update [heap_simps]:
  "cells (heap_update a f h) b = (if b = a then map_option f (cells h a) else cells h b)"
  by (simp add: heap_update_def)

lemma next_addr_update [simp, heap_simps]: "next_addr (heap_update a f h) = next_addr h"
  by (simp add: heap_update_def)

lemma heap_update_twice:
  assumes "\<And>x. g (f x) = x"
  shows "heap_update a g (heap_update a f h) = h"
proof -
  have "map_option g (map_option f p) = p" for p
    using assms by (cases p) simp_all
  then show ?thesis by (simp add: heap_update_def)
qed

lemma heap_ok_fresh: "heap_ok h \<Longrightarrow> cells h (next_addr h) = None"
  by (auto simp: heap_ok_def)

lemma heap_ok_cell: "heap_ok h \<Longrightarrow> a < next_addr h \<Longrightarrow> \<exists>x. cells h a = Some x"
  by (auto simp: heap_ok_def)

text \<open>
  Stores are ordered by the addresses they have handed out: \<open>h \<le> h'\<close> when every object of \<open>h\<close> is
  still there in \<open>h'\<close>, possibly with other contents.
\<close>

instantiation heap_ext :: (type, type) preorder
begin

definition less_eq_heap_ext :: "('a, 'b) heap_scheme \<Rightarrow> ('a, 'b) heap_scheme \<Rightarrow> bool" where
  "h \<le> h' \<longleftrightarrow> next_addr h \<le> next_addr h'"

definition less_heap_ext :: "('a, 'b) heap_scheme \<Rightarrow> ('a, 'b) heap_scheme \<Rightarrow> bool" where
  "h < h' \<longleftrightarrow> next_addr h < next_addr h'"

instance
  by standard (auto simp: less_eq_heap_ext_def less_heap_ext_def)

end

lemma heap_le_alloc [simp]: "h \<le> snd (heap_alloc x h)"
  by (simp add: less_eq_heap_ext_def heap_simps)

lemma heap_le_update [simp]: "h \<le> heap_update a f h"
  by (simp add: less_eq_heap_ext_def)

lemma heap_le_address: "h \<le> h' \<Longrightarrow> a < next_addr h \<Longrightarrow> a < next_addr h'"
  by (simp add: less_eq_heap_ext_def)

section \<open>Association lists and lists\<close>

text \<open>
  \<open>std::unordered_map\<close> is an association list with distinct keys: its order stands for the
  unspecified iteration order of the container, and nothing in the development depends on it
  except through \<^const>\<open>map_of\<close> and the set of keys.
\<close>

lemma map_of_AList_update [simp]: "map_of (AList.update k v al) = (map_of al)(k \<mapsto> v)"
  by (rule update_conv')

lemma map_of_AList_delete [simp]: "map_of (AList.delete k al) = (map_of al)(k := None)"
  by (rule delete_conv')

lemma map_of_none_iff: "map_of al k = None \<longleftrightarrow> k \<notin> fst ` set al"
  by (rule map_of_eq_None_iff)

lemma fold_snoc: "fold (\<lambda>x ys. ys @ [f x]) xs ys = ys @ map f xs"
  by (induction xs arbitrary: ys) auto

lemma find_prefix:
  assumes "find P xs = Some x"
  shows "\<exists>ys zs. xs = ys @ x # zs \<and> P x \<and> (\<forall>y\<in>set ys. \<not> P y)"
  using assms
proof (induction xs)
  case Nil
  then show ?case by simp
next
  case (Cons y xs)
  show ?case
  proof (cases "P y")
    case True
    then show ?thesis using Cons.prems by (intro exI [of _ "[]"] exI [of _ xs]) simp
  next
    case False
    then obtain ys zs where "xs = ys @ x # zs" "P x" "\<forall>y\<in>set ys. \<not> P y"
      using Cons by auto
    then show ?thesis using False by (intro exI [of _ "y # ys"] exI [of _ zs]) simp
  qed
qed

section \<open>Decimal numerals\<close>

text \<open>\<open>std::to_string\<close> on integers.\<close>

fun nat_to_string :: "nat \<Rightarrow> string" where
  "nat_to_string n =
     (if n < 10 then [char_of (48 + n)] else nat_to_string (n div 10) @ [char_of (48 + n mod 10)])"

declare nat_to_string.simps [simp del]

definition to_string :: "int \<Rightarrow> string" where
  "to_string i = (if i < 0 then ''-'' @ nat_to_string (nat (- i)) else nat_to_string (nat i))"

definition decimal_digit :: "char \<Rightarrow> bool" where
  "decimal_digit c \<longleftrightarrow> 48 \<le> (of_char c :: nat) \<and> (of_char c :: nat) \<le> 57"

lemma of_char_digit: "d < 10 \<Longrightarrow> (of_char (char_of (48 + d) :: char) :: nat) = 48 + d"
  by (simp add: of_char_of)

lemma nat_to_string_digits: "\<forall>c\<in>set (nat_to_string n). decimal_digit c"
proof (induction n rule: nat_to_string.induct)
  case (1 n)
  have d: "decimal_digit (char_of (48 + k))" if "k < 10" for k :: nat
    unfolding decimal_digit_def of_char_digit [OF that] using that by simp
  show ?case
  proof (cases "n < 10")
    case True
    with d show ?thesis by (subst nat_to_string.simps) simp
  next
    case False
    with 1 d show ?thesis by (subst nat_to_string.simps) (auto simp del: char_of_def)
  qed
qed

lemma nat_to_string_nonempty [simp]: "nat_to_string n \<noteq> []"
  by (subst nat_to_string.simps) simp

end
