(* ===== verification/Trace_Time.thy ===== *)
theory Trace_Time
  imports Tracer_Prelude "HOL-Library.Signed_Division"
begin

text \<open>
  \<open>trace/traceTime.hpp\<close> and \<open>trace/traceTime.cpp\<close>: the time stamps of the tracer. A
  \<open>TraceTime\<close> is a struct around one \<open>std::atomic_llong\<close>; it is modelled by the 64-bit word
  it holds, and its operators read that word as a signed number.
\<close>

section \<open>Operators of TraceTime\<close>

type_synonym trace_time = i64

text \<open>Copying reads the atomic variable and stores the value in the copy, \<open>get\<close> and \<open>set\<close> read and
  write it.\<close>

definition tt_get :: "trace_time \<Rightarrow> i64" where
  "tt_get t = t"

definition tt_set :: "i64 \<Rightarrow> trace_time \<Rightarrow> trace_time" where
  "tt_set new_value t = new_value"

definition tt_copy :: "trace_time \<Rightarrow> trace_time" where
  "tt_copy t = tt_set (tt_get t) 0"

declare tt_get_def [simp] tt_set_def [simp] tt_copy_def [simp]

definition tt_minus :: "trace_time \<Rightarrow> trace_time \<Rightarrow> trace_time" where
  "tt_minus a b = a - b"

definition tt_ge :: "trace_time \<Rightarrow> trace_time \<Rightarrow> bool" where
  "tt_ge a b \<longleftrightarrow> sint a \<ge> sint b"

definition tt_gt :: "trace_time \<Rightarrow> trace_time \<Rightarrow> bool" where
  "tt_gt a b \<longleftrightarrow> sint a > sint b"

definition tt_le :: "trace_time \<Rightarrow> trace_time \<Rightarrow> bool" where
  "tt_le a b \<longleftrightarrow> sint a \<le> sint b"

definition tt_lt :: "trace_time \<Rightarrow> trace_time \<Rightarrow> bool" where
  "tt_lt a b \<longleftrightarrow> sint a < sint b"

definition tt_eq :: "trace_time \<Rightarrow> trace_time \<Rightarrow> bool" where
  "tt_eq a b \<longleftrightarrow> a = b"

definition tt_assign :: "trace_time \<Rightarrow> trace_time \<Rightarrow> trace_time" where
  "tt_assign old new = new"

definition tt_add_assign :: "trace_time \<Rightarrow> trace_time \<Rightarrow> trace_time" where
  "tt_add_assign old d = old + d"

lemmas tt_defs = tt_minus_def tt_ge_def tt_gt_def tt_le_def tt_lt_def tt_eq_def tt_assign_def
  tt_add_assign_def

section \<open>Clock readings\<close>

text \<open>
  \<open>std::chrono::steady_clock::now()\<close> is an input: the number of nanoseconds it reads. The
  conversion to milliseconds is \<open>duration_cast\<close>, which rounds towards zero.
\<close>

definition duration_cast_down :: "int \<Rightarrow> i64 \<Rightarrow> i64" where
  "duration_cast_down factor t = word_of_int (sint t sdiv factor)"

definition duration_cast_up :: "int \<Rightarrow> i64 \<Rightarrow> i64" where
  "duration_cast_up factor t = t * word_of_int factor"

definition currentTimeMs :: "i64 \<Rightarrow> trace_time" where
  "currentTimeMs now_ns = duration_cast_down 1000000 now_ns"

definition currentTimeNs :: "i64 \<Rightarrow> trace_time" where
  "currentTimeNs now_ns = now_ns"

section \<open>Lemmas\<close>

lemma tt_minus_nonneg:
  assumes "0 \<le> sint a" and "0 \<le> sint b"
  shows "sint (tt_minus a b) = sint a - sint b"
  using assms by (simp add: tt_minus_def sint_minus_nonneg)

lemma tt_order_total:
  "tt_ge a b = tt_le b a" "tt_gt a b = tt_lt b a" "tt_lt a b = (\<not> tt_ge a b)"
  by (auto simp: tt_defs)

lemma tt_eq_iff_le: "tt_eq a b = (tt_le a b \<and> tt_le b a)"
  by (auto simp: tt_defs intro: signed_word_eqI)

lemma sint_duration_cast_down:
  assumes "1 < factor"
  shows "sint (duration_cast_down factor t) = sint t sdiv factor"
proof -
  have b: "\<bar>sint t sdiv factor\<bar> \<le> \<bar>sint t\<bar> div factor"
    using assms by (auto simp: signed_divide_int_def abs_mult sgn_if pos_imp_zdiv_nonneg_iff)
  have "\<bar>sint t\<bar> div factor \<le> \<bar>sint t\<bar> div 2"
    using assms by (intro zdiv_mono2) auto
  moreover have "\<bar>sint t\<bar> div 2 \<le> 2 ^ 63 div 2"
    using sint_i64_bounds [of t] by (intro zdiv_mono1) auto
  ultimately have "\<bar>sint t sdiv factor\<bar> \<le> 2 ^ 62"
    using b by simp
  then show ?thesis
    by (simp add: duration_cast_down_def sint_sbintrunc' signed_take_bit_int_eq_self)
qed

end
