(* ===== verification/Container_Interfaces.thy ===== *)
theory Container_Interfaces
  imports Tracer_Prelude
begin

text \<open>
  What the tracer relies on when it uses its concurrent containers, as three interfaces. The
  trace storage uses a list as a first-in first-out work queue (\<open>fifo_queue\<close>), uses maps from
  identifiers to objects in which the first insertion wins (\<open>keyed_store\<close>), and lets a
  background thread empty both kinds of container in two phases (\<open>two_phase_clean\<close>). The
  theories of the containers interpret the locales on their operations.
\<close>

section \<open>Work queues\<close>

locale fifo_queue =
  fixes view :: "'q \<Rightarrow> 'a list"
    and enq :: "'a \<Rightarrow> 'q \<Rightarrow> 'q"
    and deq :: "'q \<Rightarrow> ('a option \<times> 'q) result"
  assumes view_enq: "view (enq x q) = view q @ [x]"
    and deq_empty: "view q = [] \<Longrightarrow> deq q = Inr (None, q)"
    and deq_nonempty: "view q = x # xs \<Longrightarrow> \<exists>q'. deq q = Inr (Some x, q') \<and> view q' = xs"
begin

lemma view_enqs: "view (fold enq xs q) = view q @ xs"
  by (induction xs arbitrary: q) (simp_all add: view_enq)

lemma deq_total: "\<exists>r. deq q = Inr r"
  using deq_empty [of q] deq_nonempty [of q] by (cases "view q") auto

lemma deq_SomeD: "deq q = Inr (Some x, q') \<Longrightarrow> view q = x # view q'"
  using deq_empty [of q] deq_nonempty [of q] by (cases "view q") auto

lemma deq_NoneD: "deq q = Inr (None, q') \<Longrightarrow> view q = [] \<and> q' = q"
  using deq_empty [of q] deq_nonempty [of q] by (cases "view q") auto

primrec deqs :: "nat \<Rightarrow> 'q \<Rightarrow> ('a option list \<times> 'q) result" where
  "deqs 0 q = Inr ([], q)"
| "deqs (Suc n) q =
     rbind (deq q) (\<lambda>(x, q'). rbind (deqs n q') (\<lambda>(xs, q''). Inr (x # xs, q'')))"

lemma deqs_fifo:
  "\<exists>q'. deqs n q = Inr (map Some (take n (view q)) @ replicate (n - length (view q)) None, q')
     \<and> view q' = drop n (view q)"
proof (induction n arbitrary: q)
  case 0
  show ?case by simp
next
  case (Suc n)
  show ?case
  proof (cases "view q")
    case Nil
    with Suc [of q] show ?thesis by (auto simp: deq_empty)
  next
    case (Cons x xs)
    then obtain q1 where "deq q = Inr (Some x, q1)" "view q1 = xs"
      using deq_nonempty by blast
    with Suc [of q1] Cons show ?thesis by auto
  qed
qed

end

section \<open>Maps in which the first insertion wins\<close>

locale keyed_store =
  fixes lookup :: "'m \<Rightarrow> 'k \<Rightarrow> 'v option"
    and ins :: "'k \<Rightarrow> 'v \<Rightarrow> 'm \<Rightarrow> bool \<times> 'm"
    and del :: "'k \<Rightarrow> 'm \<Rightarrow> bool \<times> 'm"
    and invar :: "'m \<Rightarrow> bool"
  assumes ins_flag: "invar m \<Longrightarrow> fst (ins k v m) = (lookup m k = None)"
    and ins_lookup: "invar m \<Longrightarrow>
      lookup (snd (ins k v m)) = (if lookup m k = None then (lookup m)(k \<mapsto> v) else lookup m)"
    and del_flag: "invar m \<Longrightarrow> fst (del k m) = (lookup m k \<noteq> None)"
    and del_lookup: "invar m \<Longrightarrow> lookup (snd (del k m)) = (lookup m)(k := None)"
    and invar_ins: "invar m \<Longrightarrow> invar (snd (ins k v m))"
    and invar_del: "invar m \<Longrightarrow> invar (snd (del k m))"
begin

lemma ins_contains: "invar m \<Longrightarrow> lookup (snd (ins k v m)) k \<noteq> None"
  by (simp add: ins_lookup)

lemma first_insert_wins:
  "invar m \<Longrightarrow> lookup (snd (ins k w (snd (ins k v m)))) = lookup (snd (ins k v m))"
  by (simp add: ins_lookup invar_ins)

lemma second_insert_refused: "invar m \<Longrightarrow> \<not> fst (ins k w (snd (ins k v m)))"
  by (simp add: ins_flag invar_ins ins_contains)

lemma del_then_insert:
  "invar m \<Longrightarrow>
     fst (ins k v (snd (del k m))) \<and> lookup (snd (ins k v (snd (del k m)))) = (lookup m)(k \<mapsto> v)"
  by (simp add: ins_flag ins_lookup del_lookup invar_del)

lemma insert_then_del:
  "invar m \<Longrightarrow> lookup m k = None \<Longrightarrow> lookup (snd (del k (snd (ins k v m)))) = lookup m"
  by (auto simp: ins_lookup del_lookup invar_ins)

end

section \<open>Two-phase cleaning\<close>

text \<open>
  \<open>mark\<close> condemns what is in the container; \<open>sweep\<close>, run one period later, removes what is
  condemned. \<open>kept c ys\<close> says that the container carries a mark and that exactly \<open>ys\<close> is not
  condemned by it; \<open>addable\<close> is what the container needs of an element that is added, and
  \<open>markable\<close> what it needs to record the mark.
\<close>

locale two_phase_clean =
  fixes contents :: "'c \<Rightarrow> 'e list"
    and kept :: "'c \<Rightarrow> 'e list \<Rightarrow> bool"
    and add :: "'e \<Rightarrow> 'c \<Rightarrow> 'c"
    and mark :: "'c \<Rightarrow> 'c"
    and sweep :: "'c \<Rightarrow> 'c result"
    and addable :: "'e \<Rightarrow> 'c \<Rightarrow> bool"
    and markable :: "'c \<Rightarrow> bool"
  assumes contents_mark: "contents (mark c) = contents c"
    and kept_mark: "markable c \<Longrightarrow> kept (mark c) []"
    and contents_add: "addable e c \<Longrightarrow> contents (add e c) = contents c @ [e]"
    and kept_add: "addable e c \<Longrightarrow> kept c ys \<Longrightarrow> kept (add e c) (ys @ [e])"
    and sweep_kept: "kept c ys \<Longrightarrow> \<exists>c'. sweep c = Inr c' \<and> contents c' = ys"
begin

fun addables :: "'e list \<Rightarrow> 'c \<Rightarrow> bool" where
  "addables [] c = True"
| "addables (e # es) c = (addable e c \<and> addables es (add e c))"

lemma kept_adds:
  "addables es c \<Longrightarrow> kept c ys \<Longrightarrow> kept (fold add es c) (ys @ es)"
proof (induction es arbitrary: c ys)
  case Nil
  then show ?case by simp
next
  case (Cons e es)
  then have "kept (add e c) (ys @ [e])" using kept_add by simp
  with Cons show ?case by fastforce
qed

lemma contents_before_sweep:
  "addables es (mark c) \<Longrightarrow> contents (fold add es (mark c)) = contents c @ es"
proof -
  have "addables es d \<Longrightarrow> contents (fold add es d) = contents d @ es" for d
    by (induction es arbitrary: d) (simp_all add: contents_add)
  then show "addables es (mark c) \<Longrightarrow> ?thesis" by (simp add: contents_mark)
qed

lemma cleaner_round:
  assumes "markable c" and "addables es (mark c)"
  shows "\<exists>c'. sweep (fold add es (mark c)) = Inr c' \<and> contents c' = es"
  using sweep_kept [OF kept_adds [OF assms(2) kept_mark [OF assms(1)]]] by simp

fun rounds :: "'e list list \<Rightarrow> 'c \<Rightarrow> 'c result" where
  "rounds [] c = Inr c"
| "rounds (es # ess) c = rbind (sweep (fold add es (mark c))) (rounds ess)"

fun rounds_ok :: "'e list list \<Rightarrow> 'c \<Rightarrow> bool" where
  "rounds_ok [] c = True"
| "rounds_ok (es # ess) c =
     (markable c \<and> addables es (mark c)
      \<and> (\<forall>c'. sweep (fold add es (mark c)) = Inr c' \<longrightarrow> rounds_ok ess c'))"

lemma rounds_keep_last:
  "rounds_ok (ess @ [es]) c \<Longrightarrow> \<exists>c'. rounds (ess @ [es]) c = Inr c' \<and> contents c' = es"
proof (induction ess arbitrary: c)
  case Nil
  then obtain c' where "sweep (fold add es (mark c)) = Inr c'" "contents c' = es"
    using cleaner_round by auto
  then show ?case by simp
next
  case (Cons fs ess)
  then obtain c1 where "sweep (fold add fs (mark c)) = Inr c1"
    using cleaner_round by force
  with Cons show ?case by simp
qed

end

end
