(* ===== verification/Concurrent_List.thy ===== *)
theory Concurrent_List
  imports Container_Interfaces
begin

text \<open>
  \<open>concurrentCollections/concurrentList.h\<close>: a doubly linked list behind a shared mutex, with a
  two-phase cleaning protocol (\<open>mark_for_clean\<close> remembers how long the list is, \<open>clean\<close>
  later removes that many elements from the front). The theory has the operations, the FIFO
  interface the trace storage relies on, and the interleaving of the two critical sections of
  \<open>pop_front\<close> by several threads.
\<close>

section \<open>State and operations\<close>

text \<open>
  The mutex does not occur in the state: every critical section is one atomic state
  transformation. An operation with two critical sections is built from two of them.
\<close>

record 'a concurrent_list =
  cl_list :: "'a list"
  cl_clean_until :: i32

definition cl_new :: "'a concurrent_list" where
  "cl_new = \<lparr>cl_list = [], cl_clean_until = 0\<rparr>"

definition cl_push_back :: "'a \<Rightarrow> 'a concurrent_list \<Rightarrow> 'a concurrent_list" where
  "cl_push_back v l = l\<lparr>cl_list := cl_list l @ [v]\<rparr>"

definition cl_push_front :: "'a \<Rightarrow> 'a concurrent_list \<Rightarrow> 'a concurrent_list" where
  "cl_push_front v l = l\<lparr>cl_list := v # cl_list l\<rparr>"

definition cl_empty :: "'a concurrent_list \<Rightarrow> bool" where
  "cl_empty l \<longleftrightarrow> cl_list l = []"

definition cl_snapshot :: "'a concurrent_list \<Rightarrow> 'a list" where
  "cl_snapshot l = cl_list l"

text \<open>
  The writing critical section of \<open>pop_front\<close>: \<open>front()\<close> and \<open>pop_front()\<close> of
  \<open>std::list\<close>, which are undefined on an empty list.
\<close>

definition cl_pop_front_locked :: "'a concurrent_list \<Rightarrow> ('a \<times> 'a concurrent_list) result" where
  "cl_pop_front_locked l =
     (case cl_list l of
        [] \<Rightarrow> Inl (Undefined_behaviour ''list::front'')
      | v # vs \<Rightarrow> Inr (v, l\<lparr>cl_list := vs\<rparr>))"

text \<open>
  \<open>pop_front\<close> run without interference: \<^const>\<open>None\<close> is the \<open>nullptr\<close> it returns on an
  empty list.
\<close>

definition cl_pop_front :: "'a concurrent_list \<Rightarrow> ('a option \<times> 'a concurrent_list) result" where
  "cl_pop_front l =
     (if cl_empty l then Inr (None, l)
      else rbind (cl_pop_front_locked l) (\<lambda>(v, l'). Inr (Some v, l')))"

definition cl_pop_back_locked :: "'a concurrent_list \<Rightarrow> 'a concurrent_list result" where
  "cl_pop_back_locked l =
     (if cl_list l = [] then Inl (Undefined_behaviour ''list::pop_back'')
      else Inr (l\<lparr>cl_list := butlast (cl_list l)\<rparr>))"

definition cl_pop_back :: "'a concurrent_list \<Rightarrow> 'a concurrent_list result" where
  "cl_pop_back l = (if cl_empty l then Inr l else cl_pop_back_locked l)"

definition cl_back :: "'a concurrent_list \<Rightarrow> 'a result" where
  "cl_back l =
     (if cl_list l = [] then Inl (Undefined_behaviour ''list::back'') else Inr (last (cl_list l)))"

definition cl_size :: "'a concurrent_list \<Rightarrow> nat" where
  "cl_size l = length (cl_list l)"

text \<open>
  The callbacks of \<open>forEach\<close> and \<open>forEachFiltered\<close> act on state outside the list: they are
  state transformers, folded over the elements from front to back.
\<close>

definition cl_forEach :: "('a \<Rightarrow> 's \<Rightarrow> 's) \<Rightarrow> 'a concurrent_list \<Rightarrow> 's \<Rightarrow> 's" where
  "cl_forEach f l s = fold f (cl_list l) s"

definition cl_forEachFiltered ::
  "('a \<Rightarrow> bool) \<Rightarrow> ('a \<Rightarrow> 's \<Rightarrow> 's) \<Rightarrow> 'a concurrent_list \<Rightarrow> 's \<Rightarrow> 's" where
  "cl_forEachFiltered p f l s = fold (\<lambda>x t. if p x then f x t else t) (cl_list l) s"

fun cl_find_loop :: "('a \<Rightarrow> bool) \<Rightarrow> 'a list \<Rightarrow> 'a option" where
  "cl_find_loop p [] = None"
| "cl_find_loop p (x # xs) = (if p x then Some x else cl_find_loop p xs)"

definition cl_find :: "('a \<Rightarrow> bool) \<Rightarrow> 'a concurrent_list \<Rightarrow> 'a option" where
  "cl_find p l = cl_find_loop p (cl_list l)"

text \<open>\<open>clean_until_\<close> is an \<open>atomic_int\<close>: storing \<open>size()\<close> narrows it to 32 bits.\<close>

definition cl_mark_for_clean :: "'a concurrent_list \<Rightarrow> 'a concurrent_list" where
  "cl_mark_for_clean l = l\<lparr>cl_clean_until := word_of_nat (length (cl_list l))\<rparr>"

fun cl_clean_loop :: "nat \<Rightarrow> 'a list \<Rightarrow> 'a list result" where
  "cl_clean_loop 0 xs = Inr xs"
| "cl_clean_loop (Suc n) [] = Inl (Undefined_behaviour ''list::pop_front'')"
| "cl_clean_loop (Suc n) (x # xs) = cl_clean_loop n xs"

definition cl_clean :: "'a concurrent_list \<Rightarrow> 'a concurrent_list result" where
  "cl_clean l =
     rbind (cl_clean_loop (nat (sint (cl_clean_until l))) (cl_list l))
       (\<lambda>xs. Inr (l\<lparr>cl_list := xs\<rparr>))"

lemmas cl_defs = cl_new_def cl_push_back_def cl_push_front_def cl_empty_def cl_snapshot_def
  cl_pop_front_locked_def cl_pop_front_def cl_pop_back_locked_def cl_pop_back_def cl_back_def
  cl_size_def cl_forEach_def cl_forEachFiltered_def cl_find_def cl_mark_for_clean_def cl_clean_def

section \<open>Sequential behaviour\<close>

lemma cl_pop_front_cases:
  "cl_pop_front l =
     (case cl_list l of [] \<Rightarrow> Inr (None, l) | v # vs \<Rightarrow> Inr (Some v, l\<lparr>cl_list := vs\<rparr>))"
  by (auto simp: cl_pop_front_def cl_empty_def cl_pop_front_locked_def split: list.splits)

lemma cl_pop_front_total: "\<exists>r. cl_pop_front l = Inr r"
  by (simp add: cl_pop_front_cases split: list.splits)

lemma cl_pop_back_total: "cl_pop_back l = Inr (l\<lparr>cl_list := butlast (cl_list l)\<rparr>)"
  by (auto simp: cl_pop_back_def cl_pop_back_locked_def cl_empty_def)

lemma cl_find_loop_eq: "cl_find_loop p xs = find p xs"
  by (induction xs) auto

lemma cl_find_eq: "cl_find p l = find p (cl_list l)"
  by (simp add: cl_find_def cl_find_loop_eq)

lemma cl_forEachFiltered_eq: "cl_forEachFiltered p f l s = fold f (filter p (cl_list l)) s"
  by (simp add: cl_forEachFiltered_def fold_filter) (rule fold_cong, auto)

lemma cl_clean_loop_ok: "n \<le> length xs \<Longrightarrow> cl_clean_loop n xs = Inr (drop n xs)"
  by (induction n xs rule: cl_clean_loop.induct) auto

lemma cl_clean_loop_ub:
  "length xs < n \<Longrightarrow> cl_clean_loop n xs = Inl (Undefined_behaviour ''list::pop_front'')"
  by (induction n xs rule: cl_clean_loop.induct) auto

lemma cl_list_push_backs: "cl_list (fold cl_push_back xs l) = cl_list l @ xs"
  by (induction xs arbitrary: l) (auto simp: cl_push_back_def)

lemma cl_clean_until_push_backs: "cl_clean_until (fold cl_push_back xs l) = cl_clean_until l"
  by (induction xs arbitrary: l) (auto simp: cl_push_back_def)

section \<open>Interfaces\<close>

interpretation cl_fifo: fifo_queue cl_list cl_push_back cl_pop_front
  by unfold_locales (auto simp: cl_push_back_def cl_pop_front_cases)

text \<open>
  The list keeps what lies behind the first \<open>clean_until_\<close> elements, provided that it still has
  that many; recording the mark needs a length that fits the 32-bit counter.
\<close>

definition cl_kept :: "'a concurrent_list \<Rightarrow> 'a list \<Rightarrow> bool" where
  "cl_kept l ys \<longleftrightarrow>
     nat (sint (cl_clean_until l)) \<le> length (cl_list l)
     \<and> ys = drop (nat (sint (cl_clean_until l))) (cl_list l)"

definition cl_markable :: "'a concurrent_list \<Rightarrow> bool" where
  "cl_markable l \<longleftrightarrow> length (cl_list l) < 2 ^ 31"

lemma cl_clean_ok:
  assumes "nat (sint (cl_clean_until l)) \<le> length (cl_list l)"
  shows "cl_clean l = Inr (l\<lparr>cl_list := drop (nat (sint (cl_clean_until l))) (cl_list l)\<rparr>)"
  using assms by (simp add: cl_clean_def cl_clean_loop_ok)

interpretation cl_cleaner:
  two_phase_clean cl_list cl_kept cl_push_back cl_mark_for_clean cl_clean "\<lambda>_ _. True" cl_markable
proof unfold_locales
  fix l :: "'a concurrent_list"
  assume "cl_markable l"
  then show "cl_kept (cl_mark_for_clean l) []"
    by (simp add: cl_kept_def cl_markable_def cl_mark_for_clean_def sint_word_of_nat_small)
qed (auto simp: cl_kept_def cl_mark_for_clean_def cl_push_back_def cl_clean_ok)

lemma cl_addables [simp]: "cl_cleaner.addables es l"
  by (induction es arbitrary: l) simp_all

lemma cl_clean_round:
  assumes "length (cl_list l) < 2 ^ 31"
  shows "\<exists>l'. cl_clean (fold cl_push_back xs (cl_mark_for_clean l)) = Inr l' \<and> cl_list l' = xs"
  using assms by (intro cl_cleaner.cleaner_round) (simp_all add: cl_markable_def)

section \<open>Interleaved use of pop\_front\<close>

text \<open>
  \<open>pop_front\<close> decides under a reader lock whether the list is empty and removes the first
  element in a second, exclusive critical section. In between other threads may run. A system
  state has the list, the control state of every thread, the values pushed and popped so far and
  a flag for undefined behaviour; the set \<open>C\<close> holds the threads that call \<open>pop_front\<close>.
\<close>

datatype pop_pc = Pop_idle | Pop_checked

record 'a pop_sys =
  ps_list :: "'a concurrent_list"
  ps_pc :: "nat \<Rightarrow> pop_pc"
  ps_pushed :: "'a list"
  ps_popped :: "'a list"
  ps_ub :: bool

definition pop_init :: "'a pop_sys" where
  "pop_init =
     \<lparr>ps_list = cl_new, ps_pc = (\<lambda>_. Pop_idle), ps_pushed = [], ps_popped = [], ps_ub = False\<rparr>"

inductive pop_step :: "nat set \<Rightarrow> 'a pop_sys \<Rightarrow> 'a pop_sys \<Rightarrow> bool" for C where
  push: "\<lbrakk>ps_pc s t = Pop_idle\<rbrakk> \<Longrightarrow>
     pop_step C s (s\<lparr>ps_list := cl_push_back v (ps_list s), ps_pushed := ps_pushed s @ [v]\<rparr>)"
| check_empty: "\<lbrakk>t \<in> C; ps_pc s t = Pop_idle; cl_empty (ps_list s)\<rbrakk> \<Longrightarrow> pop_step C s s"
| check_nonempty: "\<lbrakk>t \<in> C; ps_pc s t = Pop_idle; \<not> cl_empty (ps_list s)\<rbrakk> \<Longrightarrow>
     pop_step C s (s\<lparr>ps_pc := (ps_pc s)(t := Pop_checked)\<rparr>)"
| commit: "\<lbrakk>ps_pc s t = Pop_checked; cl_pop_front_locked (ps_list s) = Inr (v, l)\<rbrakk> \<Longrightarrow>
     pop_step C s
       (s\<lparr>ps_list := l, ps_pc := (ps_pc s)(t := Pop_idle), ps_popped := ps_popped s @ [v]\<rparr>)"
| commit_ub: "\<lbrakk>ps_pc s t = Pop_checked; cl_pop_front_locked (ps_list s) = Inl e\<rbrakk> \<Longrightarrow>
     pop_step C s (s\<lparr>ps_ub := True\<rparr>)"

inductive pop_reachable :: "nat set \<Rightarrow> 'a pop_sys \<Rightarrow> bool" for C where
  init: "pop_reachable C pop_init"
| step: "\<lbrakk>pop_reachable C s; pop_step C s s'\<rbrakk> \<Longrightarrow> pop_reachable C s'"

lemma cl_pop_front_locked_Inr:
  "cl_pop_front_locked l = Inr (v, l') \<longleftrightarrow> cl_list l = v # cl_list l' \<and> l' = l\<lparr>cl_list := cl_list l'\<rparr>"
  by (cases l; cases l') (auto simp: cl_pop_front_locked_def split: list.splits)

lemma cl_pop_front_locked_Inl:
  "(\<exists>e. cl_pop_front_locked l = Inl e) \<longleftrightarrow> cl_list l = []"
  by (auto simp: cl_pop_front_locked_def split: list.splits)

definition single_consumer_inv :: "nat \<Rightarrow> 'a pop_sys \<Rightarrow> bool" where
  "single_consumer_inv c s \<longleftrightarrow>
     \<not> ps_ub s \<and> (\<forall>t. ps_pc s t = Pop_checked \<longrightarrow> t = c \<and> cl_list (ps_list s) \<noteq> [])"

lemma single_consumer_inv_step:
  assumes "pop_step {c} s s'" and "single_consumer_inv c s"
  shows "single_consumer_inv c s'"
  using assms
  by (induction rule: pop_step.induct)
    (auto simp: single_consumer_inv_def cl_push_back_def cl_empty_def cl_pop_front_locked_def
       split: list.splits if_splits)

lemma single_consumer_reachable: "pop_reachable {c} s \<Longrightarrow> single_consumer_inv c s"
proof (induction rule: pop_reachable.induct)
  case init
  show ?case by (simp add: single_consumer_inv_def pop_init_def)
next
  case (step s s')
  then show ?case by (blast intro: single_consumer_inv_step)
qed

lemma pop_step_conserves:
  assumes "pop_step C s s'" and "ps_popped s @ cl_list (ps_list s) = ps_pushed s"
  shows "ps_popped s' @ cl_list (ps_list s') = ps_pushed s'"
  using assms
  by (induction rule: pop_step.induct)
    (auto simp: cl_push_back_def cl_pop_front_locked_def split: list.splits)

lemma pop_reachable_conserves:
  "pop_reachable C s \<Longrightarrow> ps_popped s @ cl_list (ps_list s) = ps_pushed s"
proof (induction rule: pop_reachable.induct)
  case init
  show ?case by (simp add: pop_init_def cl_new_def)
next
  case (step s s')
  then show ?case by (blast intro: pop_step_conserves)
qed

section \<open>Properties\<close>

text \<open>
  C22. When one thread calls \<open>pop_front\<close>, no interleaving with any number of threads that call
  \<open>push_back\<close> reaches the undefined behaviour of reading the front of an empty list. This is how
  the tracer uses the list of raw samples: only the profiler thread takes samples out.
\<close>

theorem pop_front_single_consumer_safe:
  assumes "pop_reachable {c} s"
  shows "\<not> ps_ub s"
  using single_consumer_reachable [OF assms] by (simp add: single_consumer_inv_def)

theorem pop_front_single_consumer_safe_witness:
  "\<not> ps_ub (pop_init\<lparr>ps_list := cl_push_back (7::nat) cl_new, ps_pushed := [7]\<rparr>)"
proof -
  have "pop_reachable {0} (pop_init\<lparr>ps_list := cl_push_back (7::nat) (ps_list pop_init),
      ps_pushed := ps_pushed pop_init @ [7]\<rparr>)"
    by (rule pop_reachable.step [OF pop_reachable.init pop_step.push [of _ 0]])
      (simp add: pop_init_def)
  from pop_front_single_consumer_safe [OF this] show ?thesis by (simp add: pop_init_def)
qed



text \<open>
  C27. Two threads that call \<open>pop_front\<close> can reach undefined behaviour: both see the one element
  of the list in their first critical section, one removes it, the other reads the front of the
  empty list.
\<close>

theorem pop_front_two_consumers_ub: "\<exists>s :: nat pop_sys. pop_reachable {0, 1} s \<and> ps_ub s"
proof -
  define l where "l = cl_push_back (7::nat) cl_new"
  define s1 where "s1 = pop_init\<lparr>ps_list := l, ps_pushed := [7::nat]\<rparr>"
  define s2 where "s2 = s1\<lparr>ps_pc := (ps_pc s1)(0 := Pop_checked)\<rparr>"
  define s3 where "s3 = s2\<lparr>ps_pc := (ps_pc s2)(1 := Pop_checked)\<rparr>"
  define s4 where "s4 = s3\<lparr>ps_list := cl_new, ps_pc := (ps_pc s3)(0 := Pop_idle), ps_popped := [7]\<rparr>"
  note d = l_def s1_def s2_def s3_def s4_def pop_init_def cl_defs
  have "pop_step {0, 1} pop_init s1"
    using pop_step.push [of pop_init 0 "{0, 1}" 7] by (simp add: d)
  moreover have "pop_step {0, 1} s1 s2"
    unfolding s2_def by (rule pop_step.check_nonempty) (simp_all add: d)
  moreover have "pop_step {0, 1} s2 s3"
    unfolding s3_def by (rule pop_step.check_nonempty) (simp_all add: d)
  moreover have "pop_step {0, 1} s3 s4"
    using pop_step.commit [of s3 0 7 cl_new "{0, 1}"] by (simp add: d)
  moreover have "pop_step {0, 1} s4 (s4\<lparr>ps_ub := True\<rparr>)"
    by (rule pop_step.commit_ub [of _ 1]) (simp_all add: d)
  ultimately have "pop_reachable {0, 1} (s4\<lparr>ps_ub := True\<rparr>)"
    using pop_reachable.init pop_reachable.step by metis
  then show ?thesis by (intro exI [of _ "s4\<lparr>ps_ub := True\<rparr>"]) (simp add: s4_def)
qed

end
