(* ===== verification/Concurrent_Map.thy ===== *)
theory Concurrent_Map
  imports Container_Interfaces
begin

text \<open>
  \<open>concurrentCollections/concurrentMap.h\<close>: a hash map behind a shared mutex, with a list of keys
  that the next cleaning removes. The theory has the operations, the locks they take, the two
  interfaces the trace storage relies on, and the lemmas on lookups that the storage theory uses.
\<close>

section \<open>State and operations\<close>

record ('k, 'v) concurrent_map =
  cm_map :: "('k \<times> 'v) list"
  cm_clean_list :: "'k list"

definition cm_new :: "('k, 'v) concurrent_map" where
  "cm_new = \<lparr>cm_map = [], cm_clean_list = []\<rparr>"

definition cm_contains :: "'k \<Rightarrow> ('k, 'v) concurrent_map \<Rightarrow> bool" where
  "cm_contains k m \<longleftrightarrow> map_of (cm_map m) k \<noteq> None"

text \<open>\<open>unordered_map::insert\<close> leaves an existing entry alone; \<open>.second\<close> says whether it inserted.\<close>

definition cm_insert ::
  "'k \<Rightarrow> 'v \<Rightarrow> ('k, 'v) concurrent_map \<Rightarrow> bool \<times> ('k, 'v) concurrent_map" where
  "cm_insert k v m =
     (if cm_contains k m then (False, m)
      else (True, m\<lparr>cm_map := AList.update k v (cm_map m)\<rparr>))"

text \<open>
  \<open>get\<close> is \<open>map_[key]\<close>: a missing key is first bound to a value-initialised \<open>V\<close>, which is the
  parameter \<open>d\<close>.
\<close>

definition cm_get ::
  "'v \<Rightarrow> 'k \<Rightarrow> ('k, 'v) concurrent_map \<Rightarrow> 'v \<times> ('k, 'v) concurrent_map" where
  "cm_get d k m =
     (case map_of (cm_map m) k of
        Some v \<Rightarrow> (v, m)
      | None \<Rightarrow> (d, m\<lparr>cm_map := AList.update k d (cm_map m)\<rparr>))"

definition cm_at :: "'k \<Rightarrow> ('k, 'v) concurrent_map \<Rightarrow> 'v result" where
  "cm_at k m =
     (case map_of (cm_map m) k of
        Some v \<Rightarrow> Inr v
      | None \<Rightarrow> Inl (Out_of_range ''unordered_map::at''))"

definition cm_empty :: "('k, 'v) concurrent_map \<Rightarrow> bool" where
  "cm_empty m \<longleftrightarrow> cm_map m = []"

definition cm_cleanListEmpty :: "('k, 'v) concurrent_map \<Rightarrow> bool" where
  "cm_cleanListEmpty m \<longleftrightarrow> cm_clean_list m = []"

definition cm_find :: "'k \<Rightarrow> ('k, 'v) concurrent_map \<Rightarrow> 'v option" where
  "cm_find k m = map_of (cm_map m) k"

definition cm_erase :: "'k \<Rightarrow> ('k, 'v) concurrent_map \<Rightarrow> bool \<times> ('k, 'v) concurrent_map" where
  "cm_erase k m =
     (if cm_contains k m then (True, m\<lparr>cm_map := AList.delete k (cm_map m)\<rparr>) else (False, m))"

definition cm_mark_current_values_for_clean ::
  "('k, 'v) concurrent_map \<Rightarrow> ('k, 'v) concurrent_map" where
  "cm_mark_current_values_for_clean m =
     m\<lparr>cm_clean_list := fold (\<lambda>(key, value) ks. ks @ [key]) (cm_map m) (cm_clean_list m)\<rparr>"

function cm_clean_loop :: "'k list \<Rightarrow> ('k \<times> 'v) list \<Rightarrow> ('k \<times> 'v) list" where
  "cm_clean_loop cs al =
     (if cs = [] then al else cm_clean_loop (butlast cs) (AList.delete (last cs) al))"
  by pat_completeness auto
termination
  by (relation "measure (\<lambda>(cs, al). length cs)") auto

declare cm_clean_loop.simps [simp del]

definition cm_clean :: "('k, 'v) concurrent_map \<Rightarrow> ('k, 'v) concurrent_map" where
  "cm_clean m = m\<lparr>cm_map := cm_clean_loop (cm_clean_list m) (cm_map m), cm_clean_list := []\<rparr>"

lemmas cm_defs = cm_new_def cm_contains_def cm_insert_def cm_get_def cm_at_def cm_empty_def
  cm_cleanListEmpty_def cm_find_def cm_erase_def cm_mark_current_values_for_clean_def cm_clean_def

section \<open>The locks the operations take\<close>

datatype ('k, 'v) cm_op =
    Cm_insert 'k 'v
  | Cm_get 'k
  | Cm_at 'k
  | Cm_is_empty
  | Cm_cleanListEmpty
  | Cm_find 'k
  | Cm_has 'k
  | Cm_erase 'k
  | Cm_mark
  | Cm_sweep

datatype lock_mode = Unlocked | Shared | Exclusive

fun cm_lock :: "('k, 'v) cm_op \<Rightarrow> lock_mode" where
  "cm_lock (Cm_insert k v) = Exclusive"
| "cm_lock (Cm_get k) = Shared"
| "cm_lock (Cm_at k) = Shared"
| "cm_lock Cm_is_empty = Unlocked"
| "cm_lock Cm_cleanListEmpty = Unlocked"
| "cm_lock (Cm_find k) = Shared"
| "cm_lock (Cm_has k) = Shared"
| "cm_lock (Cm_erase k) = Exclusive"
| "cm_lock Cm_mark = Shared"
| "cm_lock Cm_sweep = Exclusive"

fun cm_exec :: "'v \<Rightarrow> ('k, 'v) cm_op \<Rightarrow> ('k, 'v) concurrent_map \<Rightarrow> ('k, 'v) concurrent_map" where
  "cm_exec d (Cm_insert k v) m = snd (cm_insert k v m)"
| "cm_exec d (Cm_get k) m = snd (cm_get d k m)"
| "cm_exec d (Cm_at k) m = m"
| "cm_exec d Cm_is_empty m = m"
| "cm_exec d Cm_cleanListEmpty m = m"
| "cm_exec d (Cm_find k) m = m"
| "cm_exec d (Cm_has k) m = m"
| "cm_exec d (Cm_erase k) m = snd (cm_erase k m)"
| "cm_exec d Cm_mark m = cm_mark_current_values_for_clean m"
| "cm_exec d Cm_sweep m = cm_clean m"

section \<open>Lookups after each operation\<close>

definition cm_ok :: "('k, 'v) concurrent_map \<Rightarrow> bool" where
  "cm_ok m \<longleftrightarrow> distinct (map fst (cm_map m))"

lemma cm_ok_new [simp, intro]: "cm_ok cm_new"
  by (simp add: cm_ok_def cm_new_def)

lemma cm_ok_insert [simp, intro]: "cm_ok m \<Longrightarrow> cm_ok (snd (cm_insert k v m))"
  by (simp add: cm_ok_def cm_insert_def distinct_update)

lemma cm_ok_get [simp, intro]: "cm_ok m \<Longrightarrow> cm_ok (snd (cm_get d k m))"
  by (simp add: cm_ok_def cm_get_def distinct_update split: option.splits)

lemma cm_ok_erase [simp, intro]: "cm_ok m \<Longrightarrow> cm_ok (snd (cm_erase k m))"
  by (simp add: cm_ok_def cm_erase_def distinct_delete)

lemma cm_find_new [simp]: "cm_find k cm_new = None"
  by (simp add: cm_find_def cm_new_def)

lemma cm_contains_find: "cm_contains k m \<longleftrightarrow> cm_find k m \<noteq> None"
  by (simp add: cm_contains_def cm_find_def)

lemma cm_find_insert:
  "cm_find j (snd (cm_insert k v m)) =
     (if j = k \<and> cm_find k m = None then Some v else cm_find j m)"
  by (auto simp: cm_find_def cm_insert_def cm_contains_def)

lemma cm_find_get:
  "cm_find j (snd (cm_get d k m)) = (if j = k \<and> cm_find k m = None then Some d else cm_find j m)"
  by (auto simp: cm_find_def cm_get_def split: option.splits)

lemma fst_cm_get: "fst (cm_get d k m) = (case cm_find k m of Some v \<Rightarrow> v | None \<Rightarrow> d)"
  by (simp add: cm_find_def cm_get_def split: option.splits)

lemma cm_get_present: "cm_find k m = Some v \<Longrightarrow> cm_get d k m = (v, m)"
  by (simp add: cm_find_def cm_get_def)

lemma cm_find_erase: "cm_find j (snd (cm_erase k m)) = (if j = k then None else cm_find j m)"
  by (auto simp: cm_find_def cm_erase_def cm_contains_def)

lemma cm_at_find: "cm_at k m = (case cm_find k m of Some v \<Rightarrow> Inr v
   | None \<Rightarrow> Inl (Out_of_range ''unordered_map::at''))"
  by (simp add: cm_at_def cm_find_def)

lemma cm_clean_loop_snoc [simp]:
  "cm_clean_loop (cs @ [c]) al = cm_clean_loop cs (AList.delete c al)"
  by (simp add: cm_clean_loop.simps [of "cs @ [c]"])

lemma cm_clean_loop_Nil [simp]: "cm_clean_loop [] al = al"
  by (simp add: cm_clean_loop.simps)

lemma AList_delete_as_filter: "AList.delete c al = filter (\<lambda>p. fst p \<noteq> c) al"
  by (induction al) auto

lemma cm_clean_loop_filter: "cm_clean_loop cs al = filter (\<lambda>p. fst p \<notin> set cs) al"
proof (induction cs arbitrary: al rule: rev_induct)
  case Nil
  show ?case by simp
next
  case (snoc c cs)
  then show ?case by (auto simp: AList_delete_as_filter intro: filter_cong)
qed

lemma map_of_filter_keys: "map_of (filter (\<lambda>p. fst p \<notin> A) al) k = (if k \<in> A then None else map_of al k)"
  by (induction al) auto

lemma cm_clean_list_mark:
  "cm_clean_list (cm_mark_current_values_for_clean m) = cm_clean_list m @ map fst (cm_map m)"
proof -
  have "fold (\<lambda>(key, value) ks. ks @ [key]) al ks = ks @ map fst al" for al :: "('a \<times> 'b) list" and ks
    by (induction al arbitrary: ks) auto
  then show ?thesis by (simp add: cm_mark_current_values_for_clean_def)
qed

lemma cm_map_mark [simp]: "cm_map (cm_mark_current_values_for_clean m) = cm_map m"
  by (simp add: cm_mark_current_values_for_clean_def)

lemma cm_find_mark [simp]: "cm_find k (cm_mark_current_values_for_clean m) = cm_find k m"
  by (simp add: cm_find_def)

lemma cm_ok_mark [simp]: "cm_ok (cm_mark_current_values_for_clean m) = cm_ok m"
  by (simp add: cm_ok_def)

lemma cm_ok_clean [simp, intro]: "cm_ok m \<Longrightarrow> cm_ok (cm_clean m)"
  by (simp add: cm_ok_def cm_clean_def cm_clean_loop_filter distinct_map_filter)

lemma cm_find_clean:
  "cm_find k (cm_clean m) = (if k \<in> set (cm_clean_list m) then None else cm_find k m)"
  by (simp add: cm_find_def cm_clean_def cm_clean_loop_filter map_of_filter_keys)

lemma cm_clean_list_clean [simp]: "cm_clean_list (cm_clean m) = []"
  by (simp add: cm_clean_def)

section \<open>Interfaces\<close>

interpretation cm_store: keyed_store "\<lambda>m k. cm_find k m" cm_insert cm_erase cm_ok
proof unfold_locales
  fix m :: "('k, 'v) concurrent_map" and k v
  show "fst (cm_insert k v m) = (cm_find k m = None)"
    by (simp add: cm_insert_def cm_contains_find)
  show "(\<lambda>j. cm_find j (snd (cm_insert k v m))) =
      (if cm_find k m = None then (\<lambda>j. cm_find j m)(k \<mapsto> v) else (\<lambda>j. cm_find j m))"
    by (auto simp: cm_find_insert)
  show "fst (cm_erase k m) = (cm_find k m \<noteq> None)"
    by (simp add: cm_erase_def cm_contains_find)
  show "(\<lambda>j. cm_find j (snd (cm_erase k m))) = (\<lambda>j. cm_find j m)(k := None)"
    by (auto simp: cm_find_erase)
qed auto

text \<open>
  What a cleaning keeps are the entries whose keys are not on the list; a new entry must have a
  key that is neither bound nor on the list.
\<close>

definition cm_kept :: "('k, 'v) concurrent_map \<Rightarrow> ('k \<times> 'v) list \<Rightarrow> bool" where
  "cm_kept m ys \<longleftrightarrow> ys = filter (\<lambda>p. fst p \<notin> set (cm_clean_list m)) (cm_map m)"

definition cm_add :: "'k \<times> 'v \<Rightarrow> ('k, 'v) concurrent_map \<Rightarrow> ('k, 'v) concurrent_map" where
  "cm_add p m = snd (cm_insert (fst p) (snd p) m)"

definition cm_addable :: "'k \<times> 'v \<Rightarrow> ('k, 'v) concurrent_map \<Rightarrow> bool" where
  "cm_addable p m \<longleftrightarrow> cm_find (fst p) m = None \<and> fst p \<notin> set (cm_clean_list m)"

lemma AList_update_fresh: "map_of al k = None \<Longrightarrow> AList.update k v al = al @ [(k, v)]"
  by (induction al) (auto split: if_splits)

lemma cm_map_add: "cm_addable p m \<Longrightarrow> cm_map (cm_add p m) = cm_map m @ [p]"
  by (simp add: cm_add_def cm_addable_def cm_insert_def cm_contains_find cm_find_def
      AList_update_fresh)

lemma cm_clean_list_add [simp]: "cm_clean_list (cm_add p m) = cm_clean_list m"
  by (simp add: cm_add_def cm_insert_def)

interpretation cm_cleaner:
  two_phase_clean cm_map cm_kept cm_add cm_mark_current_values_for_clean
    "\<lambda>m. Inr (cm_clean m)" cm_addable "\<lambda>_. True"
proof unfold_locales
  fix m :: "('k, 'v) concurrent_map" and p ys
  show "cm_kept (cm_mark_current_values_for_clean m) []"
    by (auto simp: cm_kept_def cm_clean_list_mark filter_empty_conv)
  show "cm_addable p m \<Longrightarrow> cm_kept m ys \<Longrightarrow> cm_kept (cm_add p m) (ys @ [p])"
    by (simp add: cm_kept_def cm_map_add) (simp add: cm_addable_def)
  show "cm_kept m ys \<Longrightarrow> \<exists>m'. Inr (cm_clean m) = (Inr m' :: ('k, 'v) concurrent_map result)
      \<and> cm_map m' = ys"
    by (simp add: cm_kept_def cm_clean_def cm_clean_loop_filter)
qed (simp_all add: cm_map_add)

section \<open>Properties\<close>

text \<open>
  What the operations change under the reader lock or without a lock: only \<open>get\<close> of a
  missing key (which inserts an entry) and \<open>mark_current_values_for_clean\<close> of a non-empty map
  (which appends to the list of keys to clean) modify the object without the writer lock.
\<close>

lemma cm_unlocked_writes:
  assumes "cm_lock op \<noteq> Exclusive" and "cm_exec d op m \<noteq> m"
  shows "(\<exists>k. op = Cm_get k \<and> \<not> cm_contains k m) \<or> (op = Cm_mark \<and> \<not> cm_empty m)"
  using assms
proof (cases op)
  case (Cm_get k)
  with assms show ?thesis by (cases "map_of (cm_map m) k") (auto simp: cm_get_def cm_contains_def)
next
  case Cm_mark
  with assms show ?thesis by (auto simp: cm_mark_current_values_for_clean_def cm_empty_def)
qed simp_all

text \<open>
  One round of cleaning on a map: entries present at the mark are removed, entries whose keys
  are inserted afterwards for the first time are kept, and the list of keys to clean is empty again.
\<close>

lemma cm_clean_keeps_new:
  assumes "distinct (map fst ps)" and "\<forall>p\<in>set ps. \<not> cm_contains (fst p) m \<and> fst p \<notin> set (cm_clean_list m)"
  shows "cm_map (cm_clean (fold cm_add ps (cm_mark_current_values_for_clean m))) = ps
    \<and> cm_clean_list (cm_clean (fold cm_add ps (cm_mark_current_values_for_clean m))) = []"
proof -
  have "cm_cleaner.addables ps m'"
    if "distinct (map fst ps)" "\<forall>p\<in>set ps. cm_find (fst p) m' = None \<and> fst p \<notin> set (cm_clean_list m')"
    for m' :: "('a, 'b) concurrent_map"
    using that
  proof (induction ps arbitrary: m')
    case Nil
    show ?case by simp
  next
    case (Cons p ps)
    have "cm_find (fst q) (cm_add p m') = None" if "q \<in> set ps" for q
      using Cons.prems that by (auto simp: cm_add_def cm_find_insert image_iff)
    moreover have "cm_addable p m'"
      using Cons.prems by (simp add: cm_addable_def)
    ultimately show ?case using Cons by simp
  qed
  moreover have "\<forall>p\<in>set ps. cm_find (fst p) m = None \<and>
      fst p \<notin> set (cm_clean_list (cm_mark_current_values_for_clean m))"
    using assms(2) by (auto simp: cm_clean_list_mark cm_contains_def cm_find_def map_of_none_iff)
  ultimately have "cm_cleaner.addables ps (cm_mark_current_values_for_clean m)"
    using assms(1) by simp
  from cm_cleaner.cleaner_round [OF _ this] show ?thesis by simp
qed

end
