(* ===== verification/Concurrent_Vector.thy ===== *)
theory Concurrent_Vector
  imports Tracer_Prelude
begin

text \<open>
  \<open>concurrentCollections/concurrentVector.h\<close>: a vector behind a shared mutex. The capacity is
  part of the state because \<open>reserve\<close> only ever changes it; how far \<open>push_back\<close> grows the
  capacity is up to the standard library and is left to the parameter \<open>grow\<close>.
\<close>

record 'a concurrent_vector =
  cv_vector :: "'a list"
  cv_capacity :: nat

definition cv_new :: "'a concurrent_vector" where
  "cv_new = \<lparr>cv_vector = [], cv_capacity = 0\<rparr>"

definition cv_push_back :: "(nat \<Rightarrow> nat) \<Rightarrow> 'a \<Rightarrow> 'a concurrent_vector \<Rightarrow> 'a concurrent_vector" where
  "cv_push_back grow v c =
     c\<lparr>cv_vector := cv_vector c @ [v],
       cv_capacity := (if length (cv_vector c) < cv_capacity c then cv_capacity c
                       else max (Suc (length (cv_vector c))) (grow (cv_capacity c)))\<rparr>"

text \<open>\<open>move_back\<close> leaves a moved-from value \<open>hollow v\<close> in the caller's variable.\<close>

definition cv_move_back ::
  "(nat \<Rightarrow> nat) \<Rightarrow> ('a \<Rightarrow> 'a) \<Rightarrow> 'a \<Rightarrow> 'a concurrent_vector \<Rightarrow> 'a \<times> 'a concurrent_vector" where
  "cv_move_back grow hollow v c = (hollow v, cv_push_back grow v c)"

definition cv_at :: "nat \<Rightarrow> 'a concurrent_vector \<Rightarrow> 'a result" where
  "cv_at i c =
     (if i < length (cv_vector c) then Inr (cv_vector c ! i)
      else Inl (Out_of_range ''vector::at''))"

definition cv_size :: "'a concurrent_vector \<Rightarrow> nat" where
  "cv_size c = length (cv_vector c)"

definition cv_for_each :: "('a \<Rightarrow> 's \<Rightarrow> 's) \<Rightarrow> 'a concurrent_vector \<Rightarrow> 's \<Rightarrow> 's" where
  "cv_for_each f c s = fold f (cv_vector c) s"

text \<open>
  \<open>read\<close> hands the callback a pointer to the vector itself: the callback may change both the
  vector and its own state, under the reader lock.
\<close>

definition cv_read ::
  "('a list \<Rightarrow> 's \<Rightarrow> 'a list \<times> 's) \<Rightarrow> 'a concurrent_vector \<Rightarrow> 's \<Rightarrow> 'a concurrent_vector \<times> 's" where
  "cv_read f c s = (let (xs, s') = f (cv_vector c) s in (c\<lparr>cv_vector := xs\<rparr>, s'))"

definition cv_reserve :: "nat \<Rightarrow> 'a concurrent_vector \<Rightarrow> 'a concurrent_vector" where
  "cv_reserve n c = c\<lparr>cv_capacity := max n (cv_capacity c)\<rparr>"

lemmas cv_defs = cv_new_def cv_push_back_def cv_move_back_def cv_at_def cv_size_def
  cv_for_each_def cv_read_def cv_reserve_def

definition cv_ok :: "'a concurrent_vector \<Rightarrow> bool" where
  "cv_ok c \<longleftrightarrow> length (cv_vector c) \<le> cv_capacity c"

lemma cv_ok_new: "cv_ok cv_new"
  by (simp add: cv_ok_def cv_new_def)

lemma cv_ok_push_back: "cv_ok c \<Longrightarrow> cv_ok (cv_push_back grow v c)"
  by (auto simp: cv_ok_def cv_push_back_def)

lemma cv_ok_reserve: "cv_ok c \<Longrightarrow> cv_ok (cv_reserve n c)"
  by (auto simp: cv_ok_def cv_reserve_def)

lemma cv_vector_push_backs: "cv_vector (fold (cv_push_back grow) xs c) = cv_vector c @ xs"
  by (induction xs arbitrary: c) (simp_all add: cv_push_back_def)

lemma cv_reserved_push_back:
  "cv_ok c \<Longrightarrow> cv_capacity c - length (cv_vector c) \<ge> length xs \<Longrightarrow>
     cv_capacity (fold (cv_push_back grow) xs c) = cv_capacity c"
proof (induction xs arbitrary: c)
  case Nil
  then show ?case by simp
next
  case (Cons x xs)
  then have "cv_capacity (cv_push_back grow x c) = cv_capacity c"
    and "length (cv_vector (cv_push_back grow x c)) = Suc (length (cv_vector c))"
    by (auto simp: cv_push_back_def)
  with Cons show ?case by (simp add: cv_ok_push_back)
qed

end
