(* ===== verification/Args_Parser.thy ===== *)
theory Args_Parser
  imports Trace_Time
begin

text \<open>
  \<open>utils/argsParser.cpp\<close>, \<open>utils/argsParser.hpp\<close> and \<open>profiler/model/args.hpp\<close>: the agent's
  option string. The parser works with positions in the string, as the code does; a second,
  position-free reading of an option string serves as its specification.
\<close>

section \<open>What the parser uses of the standard library\<close>

text \<open>\<open>string::find(c, pos)\<close>; \<^const>\<open>None\<close> is \<open>npos\<close>.\<close>

primrec index_of :: "char \<Rightarrow> string \<Rightarrow> nat option" where
  "index_of c [] = None"
| "index_of c (x # xs) = (if x = c then Some 0 else map_option Suc (index_of c xs))"

definition str_find :: "char \<Rightarrow> nat \<Rightarrow> string \<Rightarrow> nat option" where
  "str_find c pos s = map_option (\<lambda>i. pos + i) (index_of c (drop pos s))"

definition str_substr :: "nat \<Rightarrow> nat \<Rightarrow> string \<Rightarrow> string result" where
  "str_substr pos n s =
     (if pos \<le> length s then Inr (take n (drop pos s)) else Inl (Out_of_range ''string::substr''))"

text \<open>Subtraction of \<open>size_t\<close> values wraps around at 64 bits.\<close>

definition size_sub :: "nat \<Rightarrow> nat \<Rightarrow> nat" where
  "size_sub a b = nat ((int a - int b) mod 2 ^ 64)"

text \<open>
  \<open>std::stoi\<close>: leading white space, an optional sign, as many digits as there are; an exception
  when there is no digit and when the number does not fit an \<open>int\<close>.
\<close>

definition is_space :: "char \<Rightarrow> bool" where
  "is_space c \<longleftrightarrow> (of_char c :: nat) = 32 \<or> (9 \<le> (of_char c :: nat) \<and> (of_char c :: nat) \<le> 13)"

fun digits_value :: "int \<Rightarrow> string \<Rightarrow> int" where
  "digits_value acc [] = acc"
| "digits_value acc (c # cs) =
     (if decimal_digit c then digits_value (10 * acc + (int (of_char c) - 48)) cs else acc)"

definition stoi_unsigned :: "bool \<Rightarrow> string \<Rightarrow> int result" where
  "stoi_unsigned neg s =
     (case s of
        [] \<Rightarrow> Inl (Invalid_argument ''stoi'')
      | c # cs \<Rightarrow>
          if decimal_digit c
          then (let v = (if neg then - digits_value 0 s else digits_value 0 s)
                in if - (2 ^ 31) \<le> v \<and> v < 2 ^ 31 then Inr v else Inl (Out_of_range ''stoi''))
          else Inl (Invalid_argument ''stoi''))"

definition stoi :: "string \<Rightarrow> int result" where
  "stoi str =
     (let s = dropWhile is_space str in
      case s of
        [] \<Rightarrow> Inl (Invalid_argument ''stoi'')
      | c # cs \<Rightarrow>
          if c = CHR ''-'' then stoi_unsigned True cs
          else if c = CHR ''+'' then stoi_unsigned False cs
          else stoi_unsigned False s)"

section \<open>The parser\<close>

record profiler_options =
  class_name :: "string option"
  method_name :: "string option"
  profiling_period :: i64
  threshold :: i64
  jar_path :: "string option"
  output_path :: "string option"

definition parseMethod :: "string \<Rightarrow> (string \<times> string) result" where
  "parseMethod option =
     (case str_find CHR ''.'' 0 option of
        None \<Rightarrow> Inl (Runtime_error
          (''Provided incorrect method: '' @ option @ ''. Use following syntax package/class.method''))
      | Some methodDelimiter \<Rightarrow>
          rbind (str_substr 0 methodDelimiter option) (\<lambda>c.
          rbind (str_substr (methodDelimiter + 1) (length option) option) (\<lambda>m. Inr (c, m))))"

definition parsePeriod :: "string \<Rightarrow> i64 result" where
  "parsePeriod option = rbind (stoi option) (\<lambda>v. Inr (word_of_int v))"

definition parseThreshold :: "string \<Rightarrow> i64 result" where
  "parseThreshold option =
     rbind (stoi option) (\<lambda>v. Inr (duration_cast_up 1000000 (word_of_int v)))"

definition parseJarPath :: "string \<Rightarrow> string" where
  "parseJarPath option = option"

definition parseOutputPath :: "string \<Rightarrow> string" where
  "parseOutputPath option = option"

text \<open>
  The local variables of \<open>parseProfilerOptions\<close>, which the loop updates, have the fields of the
  result; \<open>parse_defaults\<close> is their initial state.
\<close>

definition parse_defaults :: profiler_options where
  "parse_defaults =
     \<lparr>class_name = None, method_name = None, profiling_period = 1000000, threshold = 0,
      jar_path = None, output_path = None\<rparr>"

definition parse_key_value :: "string \<Rightarrow> string \<Rightarrow> profiler_options \<Rightarrow> profiler_options result" where
  "parse_key_value key val st =
     (if key = ''method'' then
        rbind (parseMethod val)
          (\<lambda>(c, m). Inr (st\<lparr>method_name := Some m, class_name := Some c\<rparr>))
      else if key = ''period'' then
        rbind (parsePeriod val) (\<lambda>p. Inr (st\<lparr>profiling_period := p\<rparr>))
      else if key = ''jarPath'' then Inr (st\<lparr>jar_path := Some (parseJarPath val)\<rparr>)
      else if key = ''outputPath'' then Inr (st\<lparr>output_path := Some (parseOutputPath val)\<rparr>)
      else if key = ''threshold'' then
        rbind (parseThreshold val) (\<lambda>t. Inr (st\<lparr>threshold := t\<rparr>))
      else Inr st)"

definition incorrect_options :: "string \<Rightarrow> error" where
  "incorrect_options options =
     Runtime_error (''Incorrect options provided: '' @ options
       @ ''. Use following syntax: method=x/y/z/Class.method,period=1000'')"

definition method_required :: error where
  "method_required =
     Runtime_error (''Method name must be provided.''
       @ ''Use following syntax: method=x/y/z/Class.method,period=1000'')"

definition next_delimiter :: "string \<Rightarrow> nat \<Rightarrow> nat" where
  "next_delimiter options pos =
     (case str_find CHR '','' pos options of None \<Rightarrow> length options | Some d \<Rightarrow> d)"

function parse_loop :: "string \<Rightarrow> nat \<Rightarrow> profiler_options \<Rightarrow> profiler_options result" where
  "parse_loop options pos st =
     (let delimiter = next_delimiter options pos in
      case str_find CHR ''='' pos options of
        None \<Rightarrow> Inl (incorrect_options options)
      | Some kv \<Rightarrow>
          rbind (str_substr pos (size_sub kv pos) options) (\<lambda>key.
          rbind (str_substr (kv + 1) (size_sub (size_sub delimiter kv) 1) options) (\<lambda>val.
          rbind (parse_key_value key val st) (\<lambda>st'.
            if delimiter + 1 < length options then parse_loop options (delimiter + 1) st'
            else Inr st'))))"
  by pat_completeness auto
termination
proof (relation "measure (\<lambda>(options, pos, st). length options - pos)", goal_cases)
  case 1
  show ?case by simp
next
  case (2 options pos st delimiter kv key val st')
  have "pos \<le> next_delimiter options pos"
    using 2 by (auto simp: next_delimiter_def str_find_def split: option.splits)
  then show ?case using 2 by auto
qed

declare parse_loop.simps [simp del]

text \<open>\<open>cwd\<close> is what \<open>std::filesystem::current_path()\<close> returns.\<close>

definition finish_options :: "string \<Rightarrow> profiler_options \<Rightarrow> profiler_options result" where
  "finish_options cwd st =
     (if method_name st = None then Inl method_required
      else if output_path st = None then Inr (st\<lparr>output_path := Some cwd\<rparr>)
      else Inr st)"

definition parseProfilerOptions :: "string \<Rightarrow> string \<Rightarrow> profiler_options result" where
  "parseProfilerOptions cwd options =
     rbind (parse_loop options 0 parse_defaults) (finish_options cwd)"

section \<open>Specification: a list of key-value pairs\<close>

definition render_option :: "string \<times> string \<Rightarrow> string" where
  "render_option kv = fst kv @ ''='' @ snd kv"

fun render_options :: "(string \<times> string) list \<Rightarrow> string" where
  "render_options [] = []"
| "render_options [kv] = render_option kv"
| "render_options (kv # kvs) = render_option kv @ '','' @ render_options kvs"

fun apply_options :: "(string \<times> string) list \<Rightarrow> profiler_options \<Rightarrow> profiler_options result" where
  "apply_options [] st = Inr st"
| "apply_options (kv # kvs) st = rbind (parse_key_value (fst kv) (snd kv) st) (apply_options kvs)"

definition option_ok :: "string \<times> string \<Rightarrow> bool" where
  "option_ok kv \<longleftrightarrow>
     CHR '','' \<notin> set (fst kv) \<and> CHR ''='' \<notin> set (fst kv) \<and> CHR '','' \<notin> set (snd kv)"

section \<open>Lemmas\<close>

lemma index_of_append:
  "c \<notin> set xs \<Longrightarrow> index_of c (xs @ ys) = map_option (\<lambda>i. length xs + i) (index_of c ys)"
  by (induction xs) (auto simp: option.map_comp comp_def option.map_ident cong: option.map_cong)

lemma index_of_None: "index_of c xs = None \<longleftrightarrow> c \<notin> set xs"
  by (induction xs) auto

lemma str_find_hit: "c \<notin> set xs \<Longrightarrow> str_find c (length pre) (pre @ xs @ c # ys) = Some (length pre + length xs)"
  by (simp add: str_find_def index_of_append)

lemma str_find_miss: "c \<notin> set xs \<Longrightarrow> str_find c (length pre) (pre @ xs) = None"
  by (simp add: str_find_def index_of_None)

lemma size_sub_exact: "b \<le> a \<Longrightarrow> a < 2 ^ 64 \<Longrightarrow> size_sub a b = a - b"
  by (simp add: size_sub_def)

lemma render_options_nonempty: "kvs \<noteq> [] \<Longrightarrow> 0 < length (render_options kvs)"
  by (cases kvs rule: render_options.cases) (auto simp: render_option_def)

lemma render_options_Cons:
  "render_options (kv # kvs) =
     render_option kv @ (if kvs = [] then [] else '','' @ render_options kvs)"
  by (cases kvs) auto

text \<open>One round of the loop at the beginning of a rendered option.\<close>

lemma parse_loop_round:
  assumes "option_ok (k, v)" and "length (pre @ k @ ''='' @ v @ post) < 2 ^ 64"
    and "post = [] \<or> hd post = CHR '',''"
  shows "parse_loop (pre @ k @ ''='' @ v @ post) (length pre) st =
     rbind (parse_key_value k v st) (\<lambda>st'.
       if 1 < length post
       then parse_loop (pre @ k @ ''='' @ v @ post) (length (pre @ k @ ''='' @ v) + 1) st'
       else Inr st')"
proof -
  define s where "s = pre @ k @ ''='' @ v @ post"
  have len: "length s < 2 ^ 64"
    using assms(2) by (simp add: s_def)
  have d: "next_delimiter s (length pre) = length (pre @ k @ ''='' @ v)"
  proof (cases post)
    case Nil
    with assms(1) str_find_miss [of "CHR '',''" "k @ ''='' @ v" pre] show ?thesis
      by (simp add: next_delimiter_def option_ok_def s_def)
  next
    case (Cons c cs)
    with assms(1,3) str_find_hit [of "CHR '',''" "k @ ''='' @ v" pre cs] show ?thesis
      by (simp add: next_delimiter_def option_ok_def s_def)
  qed
  have e: "str_find CHR ''='' (length pre) s = Some (length pre + length k)"
    using assms(1) str_find_hit [of "CHR ''=''" k pre "v @ post"]
    by (simp add: option_ok_def s_def)
  have key: "str_substr (length pre) (size_sub (length pre + length k) (length pre)) s = Inr k"
    using len by (simp add: str_substr_def size_sub_exact s_def)
  have val: "str_substr (length pre + length k + 1)
      (size_sub (size_sub (length (pre @ k @ ''='' @ v)) (length pre + length k)) 1) s = Inr v"
    using len by (simp add: str_substr_def size_sub_exact s_def)
  have more: "length (pre @ k @ ''='' @ v) + 1 < length s \<longleftrightarrow> 1 < length post"
    by (simp add: s_def)
  show ?thesis
    unfolding s_def [symmetric] parse_loop.simps [of s "length pre"] Let_def d e option.case key val
      more rbind_Inr ..
qed


lemma parse_loop_options:
  assumes "kvs \<noteq> []" and "\<forall>kv\<in>set kvs. option_ok kv" and "length (pre @ render_options kvs) < 2 ^ 64"
  shows "parse_loop (pre @ render_options kvs) (length pre) st = apply_options kvs st"
  using assms
proof (induction kvs arbitrary: pre st)
  case Nil
  then show ?case by simp
next
  case (Cons kv kvs)
  obtain k v where kv: "kv = (k, v)" by (cases kv)
  define post where "post = (if kvs = [] then [] else '','' @ render_options kvs)"
  have s: "pre @ render_options (kv # kvs) = pre @ k @ ''='' @ v @ post"
    by (simp add: kv render_options_Cons render_option_def post_def)
  have ok: "option_ok (k, v)" and len: "length (pre @ k @ ''='' @ v @ post) < 2 ^ 64"
    and hd: "post = [] \<or> hd post = CHR '',''"
    using Cons.prems s kv by (auto simp: post_def)
  have rest: "(if 1 < length post
      then parse_loop (pre @ k @ ''='' @ v @ post) (length (pre @ k @ ''='' @ v) + 1) st'
      else Inr st') = apply_options kvs st'" for st'
  proof (cases "kvs = []")
    case True
    then show ?thesis by (simp add: post_def)
  next
    case False
    have l: "length (pre @ k @ ''='' @ v) + 1 = length (pre @ k @ ''='' @ v @ '','')" by simp
    have a: "pre @ k @ ''='' @ v @ post = (pre @ k @ ''='' @ v @ '','') @ render_options kvs"
      using False by (simp add: post_def)
    have "parse_loop ((pre @ k @ ''='' @ v @ '','') @ render_options kvs)
        (length (pre @ k @ ''='' @ v @ '','')) st' = apply_options kvs st'"
      using Cons False len a by (intro Cons.IH) auto
    moreover have "1 < length post"
      using False render_options_nonempty by (simp add: post_def)
    ultimately show ?thesis by (simp only: a l if_True)
  qed
  show ?case
    unfolding s parse_loop_round [OF ok len hd] rest by (simp add: kv)
qed

section \<open>Decimal numbers\<close>

lemma digits_value_stop:
  "\<forall>c\<in>set ds. decimal_digit c \<Longrightarrow> digits_value acc (ds @ rest) = digits_value (digits_value acc ds) rest"
  by (induction ds arbitrary: acc) auto

lemma digits_value_nat_to_string:
  "digits_value 0 (nat_to_string n) = int n"
proof (induction n rule: nat_to_string.induct)
  case (1 n)
  have dig: "decimal_digit (char_of (48 + k))" "int (of_char (char_of (48 + k) :: char)) = 48 + int k"
    if "k < 10" for k :: nat
    unfolding decimal_digit_def of_char_digit [OF that] using that by simp_all
  show ?case
  proof (cases "n < 10")
    case True
    with dig show ?thesis by (subst nat_to_string.simps) simp
  next
    case False
    have "int n = 10 * int (n div 10) + int (n mod 10)"
      by (metis mult_div_mod_eq of_nat_add of_nat_mult of_nat_numeral)
    with False 1 dig show ?thesis
      by (subst nat_to_string.simps)
        (simp add: digits_value_stop [OF nat_to_string_digits])
  qed
qed

lemma stoi_nat_to_string:
  assumes "n < 2 ^ 31"
  shows "stoi (nat_to_string n) = Inr (int n)"
proof -
  obtain c cs where s: "nat_to_string n = c # cs"
    by (cases "nat_to_string n") auto
  then have c: "decimal_digit c"
    using nat_to_string_digits [of n] by simp
  then have "\<not> is_space c" "c \<noteq> CHR ''-''" "c \<noteq> CHR ''+''"
    by (auto simp: decimal_digit_def is_space_def)
  then have "stoi (nat_to_string n) = stoi_unsigned False (nat_to_string n)"
    by (simp add: stoi_def s)
  also have "\<dots> = Inr (int n)"
    using assms c digits_value_nat_to_string [of n] by (simp add: stoi_unsigned_def s)
  finally show ?thesis .
qed

lemma stoi_range: "stoi s = Inr v \<Longrightarrow> - (2 ^ 31) \<le> v \<and> v < 2 ^ 31"
  by (auto simp: stoi_def stoi_unsigned_def Let_def split: list.splits if_splits)

lemma accepted_options:
  assumes "parseProfilerOptions cwd options = Inr po"
  shows "method_name po \<noteq> None \<and> class_name po \<noteq> None \<and> output_path po \<noteq> None"
proof -
  have key: "method_name st' \<noteq> None \<longrightarrow> class_name st' \<noteq> None"
    if "parse_key_value k v st = Inr st'" "method_name st \<noteq> None \<longrightarrow> class_name st \<noteq> None" for k v st st'
    using that by (auto simp: parse_key_value_def rbind_eq_Inr split: if_splits)
  have loop: "method_name st' \<noteq> None \<longrightarrow> class_name st' \<noteq> None"
    if "parse_loop s pos st = Inr st'" "method_name st \<noteq> None \<longrightarrow> class_name st \<noteq> None" for s pos st st'
    using that
  proof (induction s pos st arbitrary: st' rule: parse_loop.induct)
    case (1 s pos st)
    obtain kv ky vl st1 where kv: "str_find CHR ''='' pos s = Some kv"
      "str_substr pos (size_sub kv pos) s = Inr ky"
      "str_substr (kv + 1) (size_sub (size_sub (next_delimiter s pos) kv) 1) s = Inr vl"
      "parse_key_value ky vl st = Inr st1"
      "(if next_delimiter s pos + 1 < length s then parse_loop s (next_delimiter s pos + 1) st1
        else Inr st1) = Inr st'"
      using 1(2) by (subst (asm) parse_loop.simps)
        (auto simp: Let_def rbind_eq_Inr split: option.splits)
    from key [OF kv(4) 1(3)] have c: "method_name st1 \<noteq> None \<longrightarrow> class_name st1 \<noteq> None" .
    show ?case
    proof (cases "next_delimiter s pos + 1 < length s")
      case True
      with kv(5) have r: "parse_loop s (next_delimiter s pos + 1) st1 = Inr st'" by simp
      show ?thesis by (rule 1(1) [OF refl kv(1) True r c])
    next
      case False
      with kv(5) c show ?thesis by simp
    qed
  qed
  from assms obtain st where "parse_loop options 0 parse_defaults = Inr st"
    and "finish_options cwd st = Inr po"
    by (auto simp: parseProfilerOptions_def rbind_eq_Inr)
  with loop [of options 0 parse_defaults st] show ?thesis
    by (auto simp: finish_options_def parse_defaults_def split: if_splits)
qed

lemma parse_example:
  "parseProfilerOptions ''/'' ''method=A.b'' =
     Inr \<lparr>class_name = Some ''A'', method_name = Some ''b'', profiling_period = 1000000,
          threshold = 0, jar_path = None, output_path = Some ''/''\<rparr>"
proof -
  have "parseProfilerOptions ''/'' (render_options [(''method'', ''A.b'')]) =
     Inr \<lparr>class_name = Some ''A'', method_name = Some ''b'', profiling_period = 1000000,
     threshold = 0, jar_path = None, output_path = Some ''/''\<rparr>"
    using parse_loop_options [of "[(''method'', ''A.b'')]" "[]" parse_defaults]
    by (simp add: parseProfilerOptions_def option_ok_def render_option_def parse_key_value_def
        parseMethod_def str_find_def str_substr_def parse_defaults_def finish_options_def)
  then show ?thesis by (simp add: render_option_def)
qed

section \<open>Properties\<close>

text \<open>
  C21. The position-based parser agrees with the position-free reading: on a string made of
  \<open>key=value\<close> pairs joined by commas, with no comma in keys and values and no equals sign in a
  key, it applies the pairs from left to right, and then requires a method and fills in the
  default output path. Values may contain equals signs, a key may be unknown, and an error of one
  value is the error of the whole parse.
\<close>

theorem parse_well_formed_options:
  assumes "kvs \<noteq> []" and "\<forall>kv\<in>set kvs. option_ok kv" and "length (render_options kvs) < 2 ^ 64"
  shows "parseProfilerOptions cwd (render_options kvs) =
    rbind (apply_options kvs parse_defaults) (finish_options cwd)"
  using parse_loop_options [of kvs "[]"] assms by (simp add: parseProfilerOptions_def)

theorem parse_well_formed_options_witness:
  "parseProfilerOptions ''/tmp'' (render_options [(''period'', ''1''), (''method'', ''a/B.c'')]) =
    rbind (apply_options [(''period'', ''1''), (''method'', ''a/B.c'')] parse_defaults)
      (finish_options ''/tmp'')"
  by (rule parse_well_formed_options) (simp_all add: option_ok_def render_option_def)

text \<open>
  C25. Round trip: printing a complete set of options and parsing the result gives the options
  back, for every period and threshold that fits a positive \<open>int\<close>; the period is in nanoseconds
  and the threshold, given in milliseconds, is converted to nanoseconds.
\<close>

theorem options_round_trip:
  assumes "p < 2 ^ 31" and "t < 2 ^ 31"
    and "CHR ''.'' \<notin> set c" and "CHR '','' \<notin> set c" and "CHR '','' \<notin> set m"
    and "CHR '','' \<notin> set jar" and "CHR '','' \<notin> set out"
    and "length (render_options [(''period'', nat_to_string p), (''method'', c @ ''.'' @ m),
      (''threshold'', nat_to_string t), (''jarPath'', jar), (''outputPath'', out)]) < 2 ^ 64"
  shows "parseProfilerOptions cwd (render_options
      [(''period'', nat_to_string p), (''method'', c @ ''.'' @ m), (''threshold'', nat_to_string t),
       (''jarPath'', jar), (''outputPath'', out)]) =
    Inr \<lparr>class_name = Some c, method_name = Some m, profiling_period = word_of_int (int p),
         threshold = word_of_int (int t * 1000000), jar_path = Some jar, output_path = Some out\<rparr>"
proof -
  have nocomma: "CHR '','' \<notin> set (nat_to_string n)" for n
    using nat_to_string_digits [of n] by (auto simp: decimal_digit_def)
  have meth: "parseMethod (c @ CHR ''.'' # m) = Inr (c, m)"
    using assms(3) str_find_hit [of "CHR ''.''" c "[]" m]
    by (simp add: parseMethod_def str_substr_def)
  show ?thesis
    using assms nocomma
    by (subst parse_well_formed_options)
      (simp_all add: option_ok_def parse_key_value_def meth parsePeriod_def parseThreshold_def
        stoi_nat_to_string duration_cast_up_def parse_defaults_def finish_options_def
        parseJarPath_def parseOutputPath_def)
qed

theorem options_round_trip_witness:
  "parseProfilerOptions ''/'' ''period=5,method=io/A.b,threshold=10,jarPath=j,outputPath=/tmp'' =
    Inr \<lparr>class_name = Some ''io/A'', method_name = Some ''b'', profiling_period = 5,
         threshold = 10000000, jar_path = Some ''j'', output_path = Some ''/tmp''\<rparr>"
  using options_round_trip [of 5 10 "''io/A''" "''b''" "''j''" "''/tmp''" "''/''"]
  by (simp add: nat_to_string.simps render_option_def char_of_def bit_0)

text \<open>
  C28. The conversion of the threshold from milliseconds to nanoseconds never overflows 64 bits.
\<close>

theorem parseThreshold_exact:
  assumes "parseThreshold s = Inr t"
  shows "\<exists>ms. stoi s = Inr ms \<and> sint t = ms * 1000000"
proof -
  from assms obtain ms where ms: "stoi s = Inr ms" and t: "t = word_of_int ms * word_of_int 1000000"
    by (auto simp: parseThreshold_def duration_cast_up_def rbind_eq_Inr)
  have r: "- (2 ^ 31) \<le> ms" "ms < 2 ^ 31"
    using stoi_range [OF ms] by auto
  then have s: "sint (word_of_int ms :: i64) = ms"
    by (simp add: sint_sbintrunc' signed_take_bit_int_eq_self)
  have "sint t = ms * 1000000"
    unfolding t using s r by (subst sint_times_exact) (simp_all)
  with ms show ?thesis by blast
qed

theorem parseThreshold_exact_witness: "\<exists>ms. stoi ''10'' = Inr ms \<and> sint (10000000::i64) = ms * 1000000"
  by (rule parseThreshold_exact)
    (simp add: parseThreshold_def stoi_def stoi_unsigned_def is_space_def decimal_digit_def
      duration_cast_up_def)

end
