(* ===== verification/Object_Map.thy ===== *)
theory Object_Map
  imports Concurrent_Map
begin

text \<open>
  Maps from identifiers to objects that are reached through \<open>std::shared_ptr\<close>: a
  \<open>ConcurrentCleanableMap\<close> whose values are addresses in a store. The trace storage has three of
  them. This theory reads such a pair as a partial function from identifiers to objects
  (\<open>om_view\<close>), states the invariant that makes the reading meaningful (no dangling address, no
  two identifiers with the same object), and proves how each operation changes the reading.
\<close>

section \<open>Reading and invariant\<close>

type_synonym 'k ptr_map = "('k, ptr) concurrent_map"

definition om_view :: "'k ptr_map \<Rightarrow> 'v heap \<Rightarrow> 'k \<Rightarrow> 'v option" where
  "om_view m h k = (case cm_find k m of Some (Some a) \<Rightarrow> cells h a | _ \<Rightarrow> None)"

definition om_ok :: "'k ptr_map \<Rightarrow> 'v heap \<Rightarrow> bool" where
  "om_ok m h \<longleftrightarrow>
     cm_ok m \<and> heap_ok h
     \<and> (\<forall>k a. cm_find k m = Some (Some a) \<longrightarrow> a < next_addr h)
     \<and> (\<forall>k k' a. cm_find k m = Some (Some a) \<and> cm_find k' m = Some (Some a) \<longrightarrow> k = k')"

text \<open>
  A map has no null pointer when every identifier it contains has an object; \<open>get\<close> on a missing
  identifier is the only operation that creates one.
\<close>

definition om_no_null :: "'k ptr_map \<Rightarrow> bool" where
  "om_no_null m \<longleftrightarrow> (\<forall>k. cm_find k m \<noteq> Some None)"

named_theorems om_simps \<open>how operations change the reading of a map of objects\<close>

lemma om_okD:
  assumes "om_ok m h"
  shows "cm_ok m" and "heap_ok h" and "cm_find k m = Some (Some a) \<Longrightarrow> a < next_addr h"
    and "cm_find k m = Some (Some a) \<Longrightarrow> cm_find k' m = Some (Some a) \<Longrightarrow> k = k'"
  using assms by (auto simp: om_ok_def)

lemma om_view_cell:
  assumes "om_ok m h" and "cm_find k m = Some (Some a)"
  shows "\<exists>x. cells h a = Some x \<and> om_view m h k = Some x"
  using heap_ok_cell [OF om_okD(2) [OF assms(1)] om_okD(3) [OF assms(1) assms(2)]] assms(2)
  by (simp add: om_view_def)

lemma om_view_contains:
  assumes "om_ok m h" and "om_no_null m"
  shows "cm_contains k m \<longleftrightarrow> om_view m h k \<noteq> None"
proof (cases "cm_find k m")
  case None
  then show ?thesis by (simp add: cm_contains_find om_view_def)
next
  case (Some p)
  then obtain a where "cm_find k m = Some (Some a)"
    using assms(2) by (cases p) (auto simp: om_no_null_def)
  then show ?thesis using om_view_cell [OF assms(1)] by (auto simp: cm_contains_find)
qed

lemma om_object:
  assumes "om_ok m h" and "om_no_null m" and "cm_contains k m"
  obtains a x where "cm_find k m = Some (Some a)" and "cells h a = Some x"
    and "om_view m h k = Some x" and "cm_get None k m = (Some a, m)"
proof -
  from assms(3) obtain p where p: "cm_find k m = Some p"
    by (auto simp: cm_contains_find)
  with assms(2) obtain a where a: "cm_find k m = Some (Some a)"
    by (cases p) (auto simp: om_no_null_def)
  with om_view_cell [OF assms(1) a] cm_get_present [OF a] that show ?thesis by blast
qed

lemma om_absent: "\<not> cm_contains k m \<Longrightarrow> om_view m h k = None"
  by (simp add: cm_contains_find om_view_def)

section \<open>Operations\<close>

text \<open>\<open>insert(key, make_shared<V>(x))\<close>: the object is allocated whether or not it is inserted.\<close>

definition om_insert :: "'k \<Rightarrow> 'v \<Rightarrow> 'k ptr_map \<Rightarrow> 'v heap \<Rightarrow> 'k ptr_map \<times> 'v heap" where
  "om_insert k x m h = (let (a, h') = heap_alloc x h in (snd (cm_insert k (Some a) m), h'))"

lemma om_ok_new [simp]: "om_ok cm_new heap_empty"
  by (simp add: om_ok_def)

lemma om_no_null_new [simp]: "om_no_null cm_new"
  by (simp add: om_no_null_def)

lemma om_ok_insert:
  assumes "om_ok m h"
  shows "om_ok (fst (om_insert k x m h)) (snd (om_insert k x m h))"
proof -
  note d = om_okD [OF assms]
  have lt: "cm_find j m = Some (Some a) \<Longrightarrow> a < Suc (next_addr h)" for j a
    using d(3) by (meson less_Suc_eq)
  have ne: "cm_find j m \<noteq> Some (Some (next_addr h))" for j
    using d(3) by blast
  show ?thesis
    using d(1,2) lt ne d(4)
    by (auto simp: om_ok_def om_insert_def Let_def split_def cm_find_insert heap_simps
        split: if_splits)
qed

lemma om_view_insert [om_simps]:
  assumes "om_ok m h"
  shows "om_view (fst (om_insert k x m h)) (snd (om_insert k x m h)) =
     (if cm_contains k m then om_view m h else (om_view m h)(k \<mapsto> x))"
proof (rule ext)
  fix j
  have "cm_find j m \<noteq> Some (Some (next_addr h))"
    using om_okD(3) [OF assms] by blast
  then show "om_view (fst (om_insert k x m h)) (snd (om_insert k x m h)) j =
     (if cm_contains k m then om_view m h else (om_view m h)(k \<mapsto> x)) j"
    by (auto simp: om_view_def om_insert_def split_def cm_find_insert heap_simps cm_contains_find
        split: option.splits)
qed

lemma om_no_null_insert: "om_no_null m \<Longrightarrow> om_no_null (fst (om_insert k x m h))"
  by (auto simp: om_no_null_def om_insert_def Let_def split_def cm_find_insert)

lemma om_ok_update [simp]: "om_ok m (heap_update a f h) = om_ok m h"
  by (simp add: om_ok_def)

lemma om_view_update [om_simps]:
  assumes "om_ok m h" and "cm_find k m = Some (Some a)"
  shows "om_view m (heap_update a f h) = (om_view m h)(k := map_option f (om_view m h k))"
proof (rule ext)
  fix j
  show "om_view m (heap_update a f h) j = ((om_view m h)(k := map_option f (om_view m h k))) j"
  proof (cases "j = k")
    case True
    then show ?thesis using assms(2) by (simp add: om_view_def heap_simps)
  next
    case False
    then have "cm_find j m \<noteq> Some (Some a)"
      using om_okD(4) [OF assms(1) _ assms(2), of j] by blast
    with False show ?thesis by (auto simp: om_view_def heap_simps split: option.splits)
  qed
qed

lemma om_ok_get_null: "om_ok m h \<Longrightarrow> om_ok (snd (cm_get None k m)) h"
  by (auto simp: om_ok_def cm_find_get)

lemma om_view_get_null [om_simps]: "om_view (snd (cm_get None k m)) h = om_view m h"
  by (rule ext) (auto simp: om_view_def cm_find_get split: option.splits)

lemma om_ok_erase: "om_ok m h \<Longrightarrow> om_ok (snd (cm_erase k m)) h"
  by (auto simp: om_ok_def cm_find_erase)

lemma om_ok_mark [simp]: "om_ok (cm_mark_current_values_for_clean m) h = om_ok m h"
  by (simp add: om_ok_def)

lemma om_view_mark [simp]: "om_view (cm_mark_current_values_for_clean m) h = om_view m h"
  by (rule ext) (simp add: om_view_def)

lemma om_no_null_mark [simp]: "om_no_null (cm_mark_current_values_for_clean m) = om_no_null m"
  by (simp add: om_no_null_def)

lemma om_ok_clean: "om_ok m h \<Longrightarrow> om_ok (cm_clean m) h"
  by (auto simp: om_ok_def cm_find_clean)

lemma om_view_clean [om_simps]: "om_view (cm_clean m) h = om_view m h |` (- set (cm_clean_list m))"
  by (rule ext) (auto simp: om_view_def cm_find_clean restrict_map_def)

lemma om_no_null_clean: "om_no_null m \<Longrightarrow> om_no_null (cm_clean m)"
  by (simp add: om_no_null_def cm_find_clean)

end
