(* ===== verification/Trace_Model.thy ===== *)
theory Trace_Model
  imports Trace_Time Concurrent_List
begin

text \<open>
  \<open>profiler/model/trace.hpp\<close> and \<open>profiler/model/asyncTrace.hpp\<close>: the data the tracer records.
  Strings that the C++ structs point to (names of methods, libraries and threads) are never
  changed after they are stored and are held by value.
\<close>

section \<open>Samples\<close>

record instruction_info =
  instruction :: i64
  frame :: u64
  java_frame :: bool

text \<open>\<open>make_unique<InstructionInfo[]>(n)\<close> value-initialises the array.\<close>

definition instruction_info_zero :: instruction_info where
  "instruction_info_zero = \<lparr>instruction = 0, frame = 0, java_frame = False\<rparr>"

record async_trace =
  at_instructions :: "instruction_info list"
  at_size :: i64
  at_thread_id :: pthread_t
  at_ready :: bool
  at_coroutine_id :: i64
  at_stack_lo :: u64
  at_stack_hi :: u64

definition async_trace_new ::
  "instruction_info list \<Rightarrow> i64 \<Rightarrow> pthread_t \<Rightarrow> u64 \<Rightarrow> u64 \<Rightarrow> async_trace" where
  "async_trace_new instructions sz thread stack_lo stack_hi =
     \<lparr>at_instructions = instructions, at_size = sz, at_thread_id = thread, at_ready = False,
      at_coroutine_id = -1, at_stack_lo = stack_lo, at_stack_hi = stack_hi\<rparr>"

record raw_call_trace_record =
  rr_time :: trace_time
  rr_trace_count :: i64
  rr_trace :: "async_trace option"
  rr_thread :: pthread_t
  rr_coroutine_id :: i64

definition raw_call_trace_record_new :: raw_call_trace_record where
  "raw_call_trace_record_new =
     \<lparr>rr_time = 0, rr_trace_count = 0, rr_trace = None, rr_thread = 0, rr_coroutine_id = 0\<rparr>"

record stack_frame =
  sf_frame :: string
  sf_base :: string

record processed_trace_record =
  pr_stack_trace :: "stack_frame list"
  pr_thread_name :: string
  pr_time :: trace_time

section \<open>Traces, suspensions\<close>

record trace_info =
  ti_coroutine_id :: jlong
  ti_start :: trace_time
  ti_end :: trace_time

definition trace_info_default :: trace_info where
  "trace_info_default = \<lparr>ti_coroutine_id = 0, ti_start = 0, ti_end = 0\<rparr>"

record suspension_info =
  si_coroutine_id :: jlong
  si_start :: trace_time
  si_end :: trace_time
  si_stack_trace :: "stack_frame list"

section \<open>Records the tracer declares but does not use\<close>

record asgct_call_frame =
  cf_line_number :: i32
  cf_method_id :: jmethodID

record asgct_call_trace =
  ct_env_id :: u64
  ct_num_frames :: i32
  ct_frames :: "asgct_call_frame list"

record processed_trace_info =
  pti_coroutine_id :: jlong
  pti_trace_time :: trace_time
  pti_end :: trace_time
  pti_suspensions :: "suspension_info concurrent_list"

end
