(* ===== verification/Trace_Storage.thy ===== *)
theory Trace_Storage
  imports Trace_Model Object_Map
begin

text \<open>
  \<open>trace/traceStorage.hpp\<close> and \<open>trace/traceStorage.cpp\<close>: everything the tracer remembers
  between two events. Objects held by \<open>std::shared_ptr\<close> live in stores, and the maps and lists
  hold their addresses, so that an object reached through two pointers is one object. Every call
  of \<open>currentTimeNs()\<close> is an argument of the operation that makes it.
\<close>

section \<open>State\<close>

record coroutine_info =
  ci_start :: trace_time
  ci_end :: trace_time
  ci_last_resume :: trace_time
  ci_wall_clock_running_time :: trace_time
  ci_cpu_user_clock_running_time_us :: trace_time
  ci_cpu_system_clock_running_time_us :: trace_time
  ci_voluntary_switches :: u64
  ci_involuntary_switches :: u64
  ci_suspensions_list :: "addr concurrent_list"

record gc_event =
  gc_start_time :: trace_time
  gc_end_time :: trace_time

record trace_storage =
  raw_list :: "raw_call_trace_record concurrent_list"
  processed_map :: "jlong ptr_map"
  processed_lists :: "processed_trace_record concurrent_list heap"
  ongoing_trace_info_map :: "(jlong, trace_info) concurrent_map"
  child_coroutines_map :: "jlong ptr_map"
  child_lists :: "jlong concurrent_list heap"
  coroutine_info_map :: "jlong ptr_map"
  coroutine_infos :: "coroutine_info heap"
  suspensions :: "suspension_info heap"
  gc_events :: "addr concurrent_list"
  gc_heap :: "gc_event heap"
  storage_active :: bool

definition storage_new :: trace_storage where
  "storage_new =
     \<lparr>raw_list = cl_new, processed_map = cm_new, processed_lists = heap_empty,
      ongoing_trace_info_map = cm_new, child_coroutines_map = cm_new, child_lists = heap_empty,
      coroutine_info_map = cm_new, coroutine_infos = heap_empty, suspensions = heap_empty,
      gc_events = cl_new, gc_heap = heap_empty, storage_active = True\<rparr>"

definition storage_destroy :: "trace_storage \<Rightarrow> trace_storage" where
  "storage_destroy s = s\<lparr>storage_active := False\<rparr>"

section \<open>Samples\<close>

definition addRawTrace :: "trace_time \<Rightarrow> async_trace \<Rightarrow> i64 \<Rightarrow> trace_storage \<Rightarrow> trace_storage" where
  "addRawTrace time trace coroutine_id s =
     (let record = raw_call_trace_record_new
            \<lparr>rr_time := tt_set (tt_get time) 0, rr_thread := at_thread_id trace, rr_trace := Some trace,
             rr_trace_count := at_size trace, rr_coroutine_id := coroutine_id\<rparr>
      in s\<lparr>raw_list := cl_push_back record (raw_list s)\<rparr>)"

definition removeRawTraceHeader ::
  "trace_storage \<Rightarrow> (raw_call_trace_record option \<times> trace_storage) result" where
  "removeRawTraceHeader s =
     rbind (cl_pop_front (raw_list s)) (\<lambda>(r, l). Inr (r, s\<lparr>raw_list := l\<rparr>))"

definition addProcessedTrace ::
  "jlong \<Rightarrow> processed_trace_record \<Rightarrow> trace_storage \<Rightarrow> trace_storage result" where
  "addProcessedTrace coroutine_id record s =
     (if cm_contains coroutine_id (processed_map s) then
        rbind (cm_at coroutine_id (processed_map s)) (\<lambda>p.
          case p of
            None \<Rightarrow> Inl (Null_dereference ''addProcessedTrace'')
          | Some a \<Rightarrow>
              Inr (s\<lparr>processed_lists := heap_update a (cl_push_back record) (processed_lists s)\<rparr>))
      else
        (let (m, h) = om_insert coroutine_id (cl_push_back record cl_new)
                        (processed_map s) (processed_lists s)
         in Inr (s\<lparr>processed_map := m, processed_lists := h\<rparr>)))"

definition getProcessedTraces :: "jlong \<Rightarrow> trace_storage \<Rightarrow> ptr result" where
  "getProcessedTraces coroutine_id s =
     (if cm_contains coroutine_id (processed_map s) then cm_at coroutine_id (processed_map s)
      else Inr None)"

section \<open>Ongoing traces\<close>

definition addOngoingTraceInfo :: "trace_info \<Rightarrow> trace_storage \<Rightarrow> bool \<times> trace_storage" where
  "addOngoingTraceInfo info s =
     (let (b, m) = cm_insert (ti_coroutine_id info) info (ongoing_trace_info_map s)
      in (b, s\<lparr>ongoing_trace_info_map := m\<rparr>))"

definition findOngoingTraceInfo :: "jlong \<Rightarrow> trace_storage \<Rightarrow> trace_info \<times> trace_storage" where
  "findOngoingTraceInfo coroutine_id s =
     (let (i, m) = cm_get trace_info_default coroutine_id (ongoing_trace_info_map s)
      in (i, s\<lparr>ongoing_trace_info_map := m\<rparr>))"

definition removeOngoingTraceInfo :: "jlong \<Rightarrow> trace_storage \<Rightarrow> trace_storage" where
  "removeOngoingTraceInfo coroutine_id s =
     s\<lparr>ongoing_trace_info_map := snd (cm_erase coroutine_id (ongoing_trace_info_map s))\<rparr>"

section \<open>Coroutines and suspensions\<close>

text \<open>The constructor; its argument \<open>a_last_rusage\<close> is not used.\<close>

definition CoroutineInfo ::
  "trace_time \<Rightarrow> trace_time \<Rightarrow> trace_time \<Rightarrow> i64 \<Rightarrow> i64 \<Rightarrow> i64 \<Rightarrow> u64 \<Rightarrow> u64 \<Rightarrow> addr concurrent_list \<Rightarrow>
     coroutine_info" where
  "CoroutineInfo start finish last_resume wall user system voluntary involuntary a_list =
     \<lparr>ci_start = tt_copy start, ci_end = tt_copy finish, ci_last_resume = tt_copy last_resume,
      ci_wall_clock_running_time = wall, ci_cpu_user_clock_running_time_us = user,
      ci_cpu_system_clock_running_time_us = system, ci_voluntary_switches = voluntary,
      ci_involuntary_switches = involuntary, ci_suspensions_list = a_list\<rparr>"

declare CoroutineInfo_def [simp]

definition coroutine_info_new :: "trace_time \<Rightarrow> trace_time \<Rightarrow> coroutine_info" where
  "coroutine_info_new start last_resume = CoroutineInfo start 0 last_resume 0 0 0 0 0 cl_new"

text \<open>The object made for an identifier that is already known is dropped at once.\<close>

definition createCoroutineInfo ::
  "trace_time \<Rightarrow> trace_time \<Rightarrow> jlong \<Rightarrow> trace_storage \<Rightarrow> trace_storage" where
  "createCoroutineInfo t1 t2 coroutine_id s =
     (if \<not> cm_contains coroutine_id (coroutine_info_map s) then
        (let (m, h) = om_insert coroutine_id (coroutine_info_new t1 t2)
                        (coroutine_info_map s) (coroutine_infos s)
         in s\<lparr>coroutine_info_map := m, coroutine_infos := h\<rparr>)
      else s)"

text \<open>The entry exists when \<open>get\<close> is called, so that \<open>get\<close> does not create one.\<close>

definition getCoroutineInfo :: "jlong \<Rightarrow> trace_storage \<Rightarrow> ptr" where
  "getCoroutineInfo coroutine_id s =
     (if cm_contains coroutine_id (coroutine_info_map s)
      then fst (cm_get None coroutine_id (coroutine_info_map s)) else None)"

definition addSuspensionInfo :: "suspension_info \<Rightarrow> trace_storage \<Rightarrow> trace_storage result" where
  "addSuspensionInfo suspension s =
     rbind (cm_at (si_coroutine_id suspension) (coroutine_info_map s)) (\<lambda>p.
       case p of
         None \<Rightarrow> Inl (Null_dereference ''addSuspensionInfo'')
       | Some c \<Rightarrow>
           (let (a, h) = heap_alloc suspension (suspensions s)
            in Inr (s\<lparr>suspensions := h,
                 coroutine_infos :=
                   heap_update c
                     (\<lambda>ci. ci\<lparr>ci_suspensions_list := cl_push_back a (ci_suspensions_list ci)\<rparr>)
                     (coroutine_infos s)\<rparr>)))"

definition suspension_open :: "suspension_info heap \<Rightarrow> addr \<Rightarrow> bool" where
  "suspension_open h a = (case cells h a of Some si \<Rightarrow> tt_eq (si_end si) 0 | None \<Rightarrow> False)"

definition getLastSuspensionInfo :: "jlong \<Rightarrow> trace_storage \<Rightarrow> ptr result" where
  "getLastSuspensionInfo coroutine_id s =
     (if cm_contains coroutine_id (coroutine_info_map s) then
        (case fst (cm_get None coroutine_id (coroutine_info_map s)) of
           None \<Rightarrow> Inl (Null_dereference ''getLastSuspensionInfo'')
         | Some c \<Rightarrow>
             (case cells (coroutine_infos s) c of
                None \<Rightarrow> Inl (Null_dereference ''getLastSuspensionInfo'')
              | Some ci \<Rightarrow> Inr (cl_find (suspension_open (suspensions s)) (ci_suspensions_list ci))))
      else Inr None)"

text \<open>Assignments through a pointer that a caller got from the storage.\<close>

definition update_coroutine ::
  "addr \<Rightarrow> (coroutine_info \<Rightarrow> coroutine_info) \<Rightarrow> trace_storage \<Rightarrow> trace_storage" where
  "update_coroutine c f s = s\<lparr>coroutine_infos := heap_update c f (coroutine_infos s)\<rparr>"

definition update_suspension ::
  "addr \<Rightarrow> (suspension_info \<Rightarrow> suspension_info) \<Rightarrow> trace_storage \<Rightarrow> trace_storage" where
  "update_suspension a f s = s\<lparr>suspensions := heap_update a f (suspensions s)\<rparr>"

section \<open>Child coroutines\<close>

definition getChildCoroutines :: "jlong \<Rightarrow> trace_storage \<Rightarrow> ptr \<times> trace_storage" where
  "getChildCoroutines coroutine_id s =
     (let (p, m) = cm_get None coroutine_id (child_coroutines_map s)
      in (p, s\<lparr>child_coroutines_map := m\<rparr>))"

definition addChildCoroutine :: "jlong \<Rightarrow> jlong \<Rightarrow> trace_storage \<Rightarrow> trace_storage result" where
  "addChildCoroutine coroutine_id parent s =
     (let (p, m) = cm_get None parent (child_coroutines_map s) in
      case p of
        None \<Rightarrow> Inl (Null_dereference ''addChildCoroutine'')
      | Some a \<Rightarrow>
          Inr (s\<lparr>child_coroutines_map := m,
                 child_lists := heap_update a (cl_push_back coroutine_id) (child_lists s)\<rparr>))"

definition createChildCoroutineStorage :: "jlong \<Rightarrow> trace_storage \<Rightarrow> trace_storage" where
  "createChildCoroutineStorage coroutine_id s =
     (let (m, h) = om_insert coroutine_id cl_new (child_coroutines_map s) (child_lists s)
      in s\<lparr>child_coroutines_map := m, child_lists := h\<rparr>)"

definition containsChildCoroutineStorage :: "jlong \<Rightarrow> trace_storage \<Rightarrow> bool" where
  "containsChildCoroutineStorage coroutine_id s = cm_contains coroutine_id (child_coroutines_map s)"

section \<open>Garbage collections\<close>

definition storage_gcStart :: "trace_time \<Rightarrow> trace_storage \<Rightarrow> trace_storage" where
  "storage_gcStart now s =
     (let (a, h) = heap_alloc \<lparr>gc_start_time = now, gc_end_time = 0\<rparr> (gc_heap s)
      in s\<lparr>gc_heap := h, gc_events := cl_push_back a (gc_events s)\<rparr>)"

text \<open>
  \<open>gcFinish\<close> consists of four calls on the list: the last event is read, the \<^emph>\<open>first\<close> element is
  removed, the end of the event is set, the event is appended.
\<close>

definition gcFinish_take :: "trace_storage \<Rightarrow> (addr \<times> trace_storage) result" where
  "gcFinish_take s =
     rbind (cl_back (gc_events s)) (\<lambda>e.
     rbind (cl_pop_front (gc_events s)) (\<lambda>(_, l). Inr (e, s\<lparr>gc_events := l\<rparr>)))"

definition gcFinish_put :: "trace_time \<Rightarrow> addr \<Rightarrow> trace_storage \<Rightarrow> trace_storage" where
  "gcFinish_put now e s =
     s\<lparr>gc_heap := heap_update e (\<lambda>g. g\<lparr>gc_end_time := now\<rparr>) (gc_heap s),
       gc_events := cl_push_back e (gc_events s)\<rparr>"

definition storage_gcFinish :: "trace_time \<Rightarrow> trace_storage \<Rightarrow> trace_storage result" where
  "storage_gcFinish now s = rbind (gcFinish_take s) (\<lambda>(e, s'). Inr (gcFinish_put now e s'))"

definition gc_event_within :: "trace_time \<Rightarrow> trace_time \<Rightarrow> gc_event \<Rightarrow> bool" where
  "gc_event_within start stop event \<longleftrightarrow>
     tt_ge (gc_start_time event) start \<and> tt_le (gc_end_time event) stop"

definition findGcEvents ::
  "trace_time \<Rightarrow> trace_time \<Rightarrow> (gc_event \<Rightarrow> 's \<Rightarrow> 's) \<Rightarrow> trace_storage \<Rightarrow> 's \<Rightarrow> 's" where
  "findGcEvents start stop f s =
     cl_forEachFiltered
       (\<lambda>a. case cells (gc_heap s) a of Some g \<Rightarrow> gc_event_within start stop g | None \<Rightarrow> False)
       (\<lambda>a. case cells (gc_heap s) a of Some g \<Rightarrow> f g | None \<Rightarrow> id)
       (gc_events s)"

section \<open>Cleaning\<close>

definition mark_for_clean :: "trace_storage \<Rightarrow> trace_storage" where
  "mark_for_clean s =
     s\<lparr>processed_map := cm_mark_current_values_for_clean (processed_map s),
       child_coroutines_map := cm_mark_current_values_for_clean (child_coroutines_map s),
       coroutine_info_map := cm_mark_current_values_for_clean (coroutine_info_map s),
       gc_events := cl_mark_for_clean (gc_events s)\<rparr>"

definition clean :: "trace_storage \<Rightarrow> trace_storage result" where
  "clean s =
     rbind (cl_clean (gc_events s)) (\<lambda>g.
       Inr (s\<lparr>processed_map := cm_clean (processed_map s),
              child_coroutines_map := cm_clean (child_coroutines_map s),
              coroutine_info_map := cm_clean (coroutine_info_map s),
              gc_events := g\<rparr>))"

end
