(* ===== verification/Storage_Refinement.thy ===== *)
theory Storage_Refinement
  imports Trace_Storage
begin

text \<open>
  The trace storage as an abstract object: what it holds for every coroutine, without addresses,
  stores and locks. The theory gives the invariant of the storage, shows that every operation
  keeps it and that the operations implement their abstract counterparts, and says exactly when
  an operation fails.
\<close>

section \<open>Operations of the storage as data\<close>

datatype storage_op =
    Add_raw trace_time async_trace i64
  | Remove_raw
  | Add_processed jlong processed_trace_record
  | Add_ongoing trace_info
  | Find_ongoing jlong
  | Remove_ongoing jlong
  | Add_suspension suspension_info
  | Create_coroutine trace_time trace_time jlong
  | Add_child jlong jlong
  | Create_child_storage jlong
  | Gc_start trace_time
  | Gc_finish trace_time
  | Mark_for_clean
  | Clean

fun storage_exec :: "storage_op \<Rightarrow> trace_storage \<Rightarrow> trace_storage result" where
  "storage_exec (Add_raw t tr c) s = Inr (addRawTrace t tr c s)"
| "storage_exec Remove_raw s = rbind (removeRawTraceHeader s) (\<lambda>(_, s'). Inr s')"
| "storage_exec (Add_processed c r) s = addProcessedTrace c r s"
| "storage_exec (Add_ongoing i) s = Inr (snd (addOngoingTraceInfo i s))"
| "storage_exec (Find_ongoing c) s = Inr (snd (findOngoingTraceInfo c s))"
| "storage_exec (Remove_ongoing c) s = Inr (removeOngoingTraceInfo c s)"
| "storage_exec (Add_suspension si) s = addSuspensionInfo si s"
| "storage_exec (Create_coroutine t1 t2 c) s = Inr (createCoroutineInfo t1 t2 c s)"
| "storage_exec (Add_child c p) s = addChildCoroutine c p s"
| "storage_exec (Create_child_storage c) s = Inr (createChildCoroutineStorage c s)"
| "storage_exec (Gc_start t) s = Inr (storage_gcStart t s)"
| "storage_exec (Gc_finish t) s = storage_gcFinish t s"
| "storage_exec Mark_for_clean s = Inr (mark_for_clean s)"
| "storage_exec Clean s = clean s"

section \<open>Invariant\<close>

definition suspensions_ok :: "coroutine_info heap \<Rightarrow> suspension_info heap \<Rightarrow> bool" where
  "suspensions_ok ch sh \<longleftrightarrow>
     heap_ok sh
     \<and> (\<forall>a ci. cells ch a = Some ci \<longrightarrow>
          distinct (cl_list (ci_suspensions_list ci))
          \<and> (\<forall>b\<in>set (cl_list (ci_suspensions_list ci)). b < next_addr sh))"

definition gc_ok :: "addr concurrent_list \<Rightarrow> gc_event heap \<Rightarrow> bool" where
  "gc_ok l h \<longleftrightarrow> heap_ok h \<and> (\<forall>a\<in>set (cl_list l). a < next_addr h)"

definition storage_ok :: "trace_storage \<Rightarrow> bool" where
  "storage_ok s \<longleftrightarrow>
     om_ok (processed_map s) (processed_lists s) \<and> om_no_null (processed_map s)
     \<and> om_ok (child_coroutines_map s) (child_lists s) \<and> om_no_null (child_coroutines_map s)
     \<and> om_ok (coroutine_info_map s) (coroutine_infos s) \<and> om_no_null (coroutine_info_map s)
     \<and> cm_ok (ongoing_trace_info_map s)
     \<and> suspensions_ok (coroutine_infos s) (suspensions s)
     \<and> gc_ok (gc_events s) (gc_heap s)"

lemma storage_okI:
  assumes "om_ok (processed_map s) (processed_lists s)" and "om_no_null (processed_map s)"
    and "om_ok (child_coroutines_map s) (child_lists s)" and "om_no_null (child_coroutines_map s)"
    and "om_ok (coroutine_info_map s) (coroutine_infos s)" and "om_no_null (coroutine_info_map s)"
    and "cm_ok (ongoing_trace_info_map s)"
    and "suspensions_ok (coroutine_infos s) (suspensions s)"
    and "gc_ok (gc_events s) (gc_heap s)"
  shows "storage_ok s"
  using assms by (simp add: storage_ok_def)

lemma storage_okD:
  assumes "storage_ok s"
  shows "om_ok (processed_map s) (processed_lists s)" and "om_no_null (processed_map s)"
    and "om_ok (child_coroutines_map s) (child_lists s)" and "om_no_null (child_coroutines_map s)"
    and "om_ok (coroutine_info_map s) (coroutine_infos s)" and "om_no_null (coroutine_info_map s)"
    and "cm_ok (ongoing_trace_info_map s)"
    and "suspensions_ok (coroutine_infos s) (suspensions s)"
    and "gc_ok (gc_events s) (gc_heap s)"
  using assms by (simp_all add: storage_ok_def)

lemma storage_ok_new: "storage_ok storage_new"
  by (simp add: storage_ok_def storage_new_def suspensions_ok_def gc_ok_def heap_empty_def
      cl_new_def heap_ok_def om_ok_def)

lemma suspensions_ok_alloc_coroutine:
  "suspensions_ok ch sh \<Longrightarrow> cl_list (ci_suspensions_list ci) = [] \<Longrightarrow>
     suspensions_ok (snd (heap_alloc ci ch)) sh"
  by (auto simp: suspensions_ok_def heap_simps)

lemma suspensions_ok_update:
  assumes "suspensions_ok ch sh"
    and "\<And>ci. cells ch a = Some ci \<Longrightarrow>
      distinct (cl_list (ci_suspensions_list (f ci)))
      \<and> (\<forall>b\<in>set (cl_list (ci_suspensions_list (f ci))). b < next_addr sh)"
  shows "suspensions_ok (heap_update a f ch) sh"
  using assms by (auto simp: suspensions_ok_def heap_simps split: if_splits)

lemma suspensions_ok_fresh:
  assumes "suspensions_ok ch sh" and "cells ch a = Some ci"
  shows "next_addr sh \<notin> set (cl_list (ci_suspensions_list ci))"
  using assms unfolding suspensions_ok_def by blast

lemma suspensions_ok_push:
  assumes "suspensions_ok ch sh"
  shows "suspensions_ok
    (heap_update c (\<lambda>ci. ci\<lparr>ci_suspensions_list := cl_push_back (next_addr sh) (ci_suspensions_list ci)\<rparr>) ch)
    (snd (heap_alloc si sh))"
  using assms suspensions_ok_fresh [OF assms]
  by (auto simp: suspensions_ok_def heap_simps cl_push_back_def less_Suc_eq split: if_splits)

lemma suspensions_ok_update_suspension [simp]:
  "suspensions_ok ch (heap_update a f sh) = suspensions_ok ch sh"
  by (simp add: suspensions_ok_def)

section \<open>Every operation keeps the invariant\<close>

lemma ok_addRawTrace: "storage_ok s \<Longrightarrow> storage_ok (addRawTrace t tr c s)"
  by (simp add: storage_ok_def addRawTrace_def)

lemma ok_removeRawTraceHeader:
  "storage_ok s \<Longrightarrow> removeRawTraceHeader s = Inr (r, s') \<Longrightarrow> storage_ok s'"
  by (auto simp: storage_ok_def removeRawTraceHeader_def rbind_eq_Inr)

lemma ok_addProcessedTrace:
  assumes "storage_ok s" and "addProcessedTrace c r s = Inr s'"
  shows "storage_ok s'"
  using assms
  by (auto simp: storage_ok_def addProcessedTrace_def rbind_eq_Inr Let_def split_def
      om_ok_insert om_no_null_insert split: option.splits if_splits)

lemma ok_ongoing:
  assumes "storage_ok s"
  shows "storage_ok (snd (addOngoingTraceInfo i s))"
    and "storage_ok (snd (findOngoingTraceInfo c s))"
    and "storage_ok (removeOngoingTraceInfo c s)"
  using assms
  by (auto simp: storage_ok_def addOngoingTraceInfo_def findOngoingTraceInfo_def
      removeOngoingTraceInfo_def Let_def split_def)

lemma ok_createCoroutineInfo: "storage_ok s \<Longrightarrow> storage_ok (createCoroutineInfo t1 t2 c s)"
  by (auto simp: storage_ok_def createCoroutineInfo_def Let_def split_def om_ok_insert
      om_no_null_insert)
    (simp add: om_insert_def Let_def split_def suspensions_ok_alloc_coroutine coroutine_info_new_def
      cl_new_def)

lemma ok_addSuspensionInfo:
  assumes "storage_ok s" and "addSuspensionInfo si s = Inr s'"
  shows "storage_ok s'"
  using assms
  by (auto simp: storage_ok_def addSuspensionInfo_def rbind_eq_Inr Let_def split_def heap_simps
      suspensions_ok_push split: option.splits)

lemma ok_addChildCoroutine:
  assumes "storage_ok s" and "addChildCoroutine c p s = Inr s'"
  shows "storage_ok s'"
proof -
  from assms(2) obtain a where a: "fst (cm_get None p (child_coroutines_map s)) = Some a"
    and s': "s' = s\<lparr>child_coroutines_map := snd (cm_get None p (child_coroutines_map s)),
      child_lists := heap_update a (cl_push_back c) (child_lists s)\<rparr>"
    by (auto simp: addChildCoroutine_def Let_def split_def split: option.splits)
  from a have "snd (cm_get None p (child_coroutines_map s)) = child_coroutines_map s"
    by (auto simp: cm_get_def split: option.splits)
  with assms(1) show ?thesis by (simp add: storage_ok_def s')
qed

lemma ok_createChildCoroutineStorage:
  "storage_ok s \<Longrightarrow> storage_ok (createChildCoroutineStorage c s)"
  by (auto simp: storage_ok_def createChildCoroutineStorage_def Let_def split_def om_ok_insert
      om_no_null_insert)

lemma ok_gcStart: "storage_ok s \<Longrightarrow> storage_ok (storage_gcStart t s)"
  by (auto simp: storage_ok_def storage_gcStart_def Let_def split_def gc_ok_def heap_simps
      cl_push_back_def)

lemma ok_gcFinish:
  assumes "storage_ok s" and "storage_gcFinish t s = Inr s'"
  shows "storage_ok s'"
proof -
  from assms(2) have ne: "cl_list (gc_events s) \<noteq> []"
    by (auto simp: storage_gcFinish_def gcFinish_take_def rbind_eq_Inr cl_back_def split: if_splits)
  then obtain e es where l: "cl_list (gc_events s) = e # es" by (cases "cl_list (gc_events s)") auto
  then have "last (e # es) \<in> set (cl_list (gc_events s))" by (metis last_in_set list.distinct(1))
  with assms l show ?thesis
    by (auto simp: storage_ok_def storage_gcFinish_def gcFinish_take_def gcFinish_put_def cl_back_def
        cl_pop_front_cases gc_ok_def cl_push_back_def)
qed

lemma ok_mark: "storage_ok s \<Longrightarrow> storage_ok (mark_for_clean s)"
  by (simp add: storage_ok_def mark_for_clean_def gc_ok_def cl_mark_for_clean_def)

lemma cl_clean_loop_subset: "cl_clean_loop n xs = Inr ys \<Longrightarrow> set ys \<subseteq> set xs"
  by (induction n xs rule: cl_clean_loop.induct) auto

lemma cl_clean_subset: "cl_clean l = Inr l' \<Longrightarrow> set (cl_list l') \<subseteq> set (cl_list l)"
  using cl_clean_loop_subset by (fastforce simp: cl_clean_def rbind_eq_Inr)

lemma ok_clean: "storage_ok s \<Longrightarrow> clean s = Inr s' \<Longrightarrow> storage_ok s'"
  by (auto simp: storage_ok_def clean_def rbind_eq_Inr om_ok_clean om_no_null_clean gc_ok_def
      dest!: cl_clean_subset)

lemma ok_exec: "storage_ok s \<Longrightarrow> storage_exec op s = Inr s' \<Longrightarrow> storage_ok s'"
  by (cases op)
    (auto simp: rbind_eq_Inr intro: ok_addRawTrace ok_ongoing ok_createCoroutineInfo
      ok_createChildCoroutineStorage ok_gcStart ok_mark
      dest: ok_removeRawTraceHeader ok_addProcessedTrace ok_addSuspensionInfo ok_addChildCoroutine
      ok_gcFinish ok_clean)

section \<open>Abstract storage\<close>

text \<open>
  For every coroutine: its processed samples, its ongoing trace, its children, its counters and
  its suspensions; and, for each of the three cleaned maps, the identifiers the next cleaning
  removes.
\<close>

record abs_storage =
  as_raw :: "raw_call_trace_record list"
  as_processed :: "jlong \<Rightarrow> processed_trace_record list option"
  as_ongoing :: "jlong \<Rightarrow> trace_info option"
  as_children :: "jlong \<Rightarrow> jlong list option"
  as_coroutines :: "jlong \<Rightarrow> coroutine_info option"
  as_suspensions :: "jlong \<Rightarrow> suspension_info list option"
  as_doomed_processed :: "jlong set"
  as_doomed_children :: "jlong set"
  as_doomed_coroutines :: "jlong set"

definition coroutine_core :: "coroutine_info \<Rightarrow> coroutine_info" where
  "coroutine_core ci = ci\<lparr>ci_suspensions_list := cl_new\<rparr>"

definition suspension_view :: "suspension_info heap \<Rightarrow> coroutine_info \<Rightarrow> suspension_info list" where
  "suspension_view h ci = map (\<lambda>a. the (cells h a)) (cl_list (ci_suspensions_list ci))"

definition storage_abs :: "trace_storage \<Rightarrow> abs_storage" where
  "storage_abs s =
     \<lparr>as_raw = cl_list (raw_list s),
      as_processed = (\<lambda>c. map_option cl_list (om_view (processed_map s) (processed_lists s) c)),
      as_ongoing = (\<lambda>c. cm_find c (ongoing_trace_info_map s)),
      as_children = (\<lambda>c. map_option cl_list (om_view (child_coroutines_map s) (child_lists s) c)),
      as_coroutines =
        (\<lambda>c. map_option coroutine_core (om_view (coroutine_info_map s) (coroutine_infos s) c)),
      as_suspensions =
        (\<lambda>c. map_option (suspension_view (suspensions s))
               (om_view (coroutine_info_map s) (coroutine_infos s) c)),
      as_doomed_processed = set (cm_clean_list (processed_map s)),
      as_doomed_children = set (cm_clean_list (child_coroutines_map s)),
      as_doomed_coroutines = set (cm_clean_list (coroutine_info_map s))\<rparr>"

definition map_append :: "'k \<Rightarrow> 'v \<Rightarrow> ('k \<Rightarrow> 'v list option) \<Rightarrow> 'k \<Rightarrow> 'v list option" where
  "map_append k v m = m(k \<mapsto> (case m k of None \<Rightarrow> [v] | Some vs \<Rightarrow> vs @ [v]))"

definition map_create :: "'k \<Rightarrow> 'v \<Rightarrow> ('k \<Rightarrow> 'v option) \<Rightarrow> 'k \<Rightarrow> 'v option" where
  "map_create k v m = (if m k = None then m(k \<mapsto> v) else m)"

fun abs_exec :: "storage_op \<Rightarrow> abs_storage \<Rightarrow> abs_storage" where
  "abs_exec (Add_raw t tr c) a =
     a\<lparr>as_raw := as_raw a @ [\<lparr>rr_time = t, rr_trace_count = at_size tr, rr_trace = Some tr,
                                rr_thread = at_thread_id tr, rr_coroutine_id = c\<rparr>]\<rparr>"
| "abs_exec Remove_raw a = a\<lparr>as_raw := tl (as_raw a)\<rparr>"
| "abs_exec (Add_processed c r) a = a\<lparr>as_processed := map_append c r (as_processed a)\<rparr>"
| "abs_exec (Add_ongoing i) a = a\<lparr>as_ongoing := map_create (ti_coroutine_id i) i (as_ongoing a)\<rparr>"
| "abs_exec (Find_ongoing c) a = a\<lparr>as_ongoing := map_create c trace_info_default (as_ongoing a)\<rparr>"
| "abs_exec (Remove_ongoing c) a = a\<lparr>as_ongoing := (as_ongoing a)(c := None)\<rparr>"
| "abs_exec (Add_suspension si) a =
     a\<lparr>as_suspensions := map_append (si_coroutine_id si) si (as_suspensions a)\<rparr>"
| "abs_exec (Create_coroutine t1 t2 c) a =
     a\<lparr>as_coroutines := map_create c (coroutine_info_new t1 t2) (as_coroutines a),
       as_suspensions := map_create c [] (as_suspensions a)\<rparr>"
| "abs_exec (Add_child c p) a = a\<lparr>as_children := map_append p c (as_children a)\<rparr>"
| "abs_exec (Create_child_storage c) a = a\<lparr>as_children := map_create c [] (as_children a)\<rparr>"
| "abs_exec (Gc_start t) a = a"
| "abs_exec (Gc_finish t) a = a"
| "abs_exec Mark_for_clean a =
     a\<lparr>as_doomed_processed := as_doomed_processed a \<union> dom (as_processed a),
       as_doomed_children := as_doomed_children a \<union> dom (as_children a),
       as_doomed_coroutines := as_doomed_coroutines a \<union> dom (as_coroutines a)\<rparr>"
| "abs_exec Clean a =
     a\<lparr>as_processed := as_processed a |` (- as_doomed_processed a),
       as_children := as_children a |` (- as_doomed_children a),
       as_coroutines := as_coroutines a |` (- as_doomed_coroutines a),
       as_suspensions := as_suspensions a |` (- as_doomed_coroutines a),
       as_doomed_processed := {}, as_doomed_children := {}, as_doomed_coroutines := {}\<rparr>"

section \<open>Refinement\<close>

lemma abs_addRawTrace: "storage_abs (addRawTrace t tr c s) = abs_exec (Add_raw t tr c) (storage_abs s)"
  by (simp add: storage_abs_def addRawTrace_def Let_def cl_push_back_def raw_call_trace_record_new_def)

lemma abs_removeRawTraceHeader:
  "removeRawTraceHeader s = Inr (r, s') \<Longrightarrow> storage_abs s' = abs_exec Remove_raw (storage_abs s)"
  by (auto simp: storage_abs_def removeRawTraceHeader_def rbind_eq_Inr cl_pop_front_cases
      split: list.splits)

lemma clean_list_insert [simp]:
  "cm_clean_list (fst (om_insert k x m h)) = cm_clean_list m"
  by (simp add: om_insert_def Let_def split_def cm_insert_def)

lemma abs_addProcessedTrace:
  assumes "storage_ok s" and "addProcessedTrace c r s = Inr s'"
  shows "storage_abs s' = abs_exec (Add_processed c r) (storage_abs s)"
proof (cases "cm_contains c (processed_map s)")
  case True
  obtain a x where o: "cm_find c (processed_map s) = Some (Some a)"
    "om_view (processed_map s) (processed_lists s) c = Some x"
    by (rule om_object [OF storage_okD(1,2) [OF assms(1)] True])
  have "s' = s\<lparr>processed_lists := heap_update a (cl_push_back r) (processed_lists s)\<rparr>"
    using assms(2) True o(1) by (simp add: addProcessedTrace_def cm_at_find)
  then show ?thesis
    using om_view_update [OF storage_okD(1) [OF assms(1)] o(1)] o(2)
    by (auto simp: storage_abs_def map_append_def cl_push_back_def)
next
  case False
  with assms(2) om_view_insert [OF storage_okD(1) [OF assms(1)], of c]
    om_absent [OF False, of "processed_lists s"] show ?thesis
    by (auto simp: addProcessedTrace_def storage_abs_def map_append_def Let_def split_def
        cl_push_back_def cl_new_def)
qed

lemma abs_ongoing:
  "storage_abs (snd (addOngoingTraceInfo i s)) = abs_exec (Add_ongoing i) (storage_abs s)"
  "storage_abs (snd (findOngoingTraceInfo c s)) = abs_exec (Find_ongoing c) (storage_abs s)"
  "storage_abs (removeOngoingTraceInfo c s) = abs_exec (Remove_ongoing c) (storage_abs s)"
  by (auto simp: storage_abs_def addOngoingTraceInfo_def findOngoingTraceInfo_def
      removeOngoingTraceInfo_def Let_def split_def map_create_def cm_find_insert cm_find_get
      cm_find_erase fun_eq_iff)

lemma abs_createCoroutineInfo:
  assumes "storage_ok s"
  shows "storage_abs (createCoroutineInfo t1 t2 c s)
    = abs_exec (Create_coroutine t1 t2 c) (storage_abs s)"
proof (cases "cm_contains c (coroutine_info_map s)")
  case True
  then obtain x where "om_view (coroutine_info_map s) (coroutine_infos s) c = Some x"
    using om_object [OF storage_okD(5,6) [OF assms]] by metis
  with True show ?thesis
    by (simp add: createCoroutineInfo_def storage_abs_def map_create_def)
next
  case False
  with om_view_insert [OF storage_okD(5) [OF assms], of c]
    om_absent [OF False, of "coroutine_infos s"] show ?thesis
    by (auto simp: createCoroutineInfo_def storage_abs_def map_create_def Let_def split_def
        coroutine_info_new_def coroutine_core_def suspension_view_def cl_new_def)
qed

lemma suspension_view_alloc:
  assumes "suspensions_ok ch sh" and "cells ch a = Some ci"
  shows "suspension_view (snd (heap_alloc si sh)) ci = suspension_view sh ci"
  using assms by (fastforce simp: suspensions_ok_def suspension_view_def heap_simps)

lemma om_view_cellD: "om_view m h k = Some x \<Longrightarrow> \<exists>a. cells h a = Some x"
  by (auto simp: om_view_def split: option.splits)

lemma abs_addSuspensionInfo:
  assumes "storage_ok s" and "addSuspensionInfo si s = Inr s'"
  shows "storage_abs s' = abs_exec (Add_suspension si) (storage_abs s)"
proof -
  let ?k = "si_coroutine_id si"
  let ?m = "coroutine_info_map s" and ?h = "coroutine_infos s" and ?sh = "suspensions s"
  from assms(2) obtain c where c: "cm_find ?k ?m = Some (Some c)"
    by (auto simp: addSuspensionInfo_def rbind_eq_Inr cm_at_find split: option.splits)
  let ?f = "\<lambda>ci. ci\<lparr>ci_suspensions_list := cl_push_back (next_addr ?sh) (ci_suspensions_list ci)\<rparr>"
  have s': "s' = s\<lparr>suspensions := snd (heap_alloc si ?sh), coroutine_infos := heap_update c ?f ?h\<rparr>"
    using assms(2) c
    by (simp add: addSuspensionInfo_def cm_at_find Let_def split_def heap_simps)
  obtain ci where ci: "om_view ?m ?h ?k = Some ci" "cells ?h c = Some ci"
    using om_view_cell [OF storage_okD(5) [OF assms(1)] c] by auto
  have frame: "map_option (suspension_view (snd (heap_alloc si ?sh))) (om_view ?m ?h k)
      = map_option (suspension_view ?sh) (om_view ?m ?h k)" for k
    using suspension_view_alloc [OF storage_okD(8) [OF assms(1)]]
    by (cases "om_view ?m ?h k") (auto dest!: om_view_cellD)
  have new: "suspension_view (snd (heap_alloc si ?sh)) (?f ci) = suspension_view ?sh ci @ [si]"
    using suspension_view_alloc [OF storage_okD(8) [OF assms(1)] ci(2)]
    by (simp add: suspension_view_def cl_push_back_def heap_simps)
  have core: "coroutine_core (?f ci) = coroutine_core ci"
    by (simp add: coroutine_core_def)
  show ?thesis
    using om_view_update [OF storage_okD(5) [OF assms(1)] c, of ?f] ci(1) new frame core
    by (auto simp: s' storage_abs_def map_append_def fun_eq_iff)
qed

lemma abs_addChildCoroutine:
  assumes "storage_ok s" and "addChildCoroutine c p s = Inr s'"
  shows "storage_abs s' = abs_exec (Add_child c p) (storage_abs s)"
proof -
  let ?m = "child_coroutines_map s" and ?h = "child_lists s"
  from assms(2) obtain a where a: "cm_find p ?m = Some (Some a)"
    by (auto simp: addChildCoroutine_def Let_def split_def fst_cm_get split: option.splits)
  have s': "s' = s\<lparr>child_lists := heap_update a (cl_push_back c) ?h\<rparr>"
    using assms(2) by (simp add: addChildCoroutine_def cm_get_present [OF a])
  obtain x where "om_view ?m ?h p = Some x"
    using om_view_cell [OF storage_okD(3) [OF assms(1)] a] by auto
  then show ?thesis
    using om_view_update [OF storage_okD(3) [OF assms(1)] a, of "cl_push_back c"]
    by (auto simp: s' storage_abs_def map_append_def cl_push_back_def)
qed

lemma abs_createChildCoroutineStorage:
  assumes "storage_ok s"
  shows "storage_abs (createChildCoroutineStorage c s)
    = abs_exec (Create_child_storage c) (storage_abs s)"
proof (cases "cm_contains c (child_coroutines_map s)")
  case True
  then obtain x where "om_view (child_coroutines_map s) (child_lists s) c = Some x"
    using om_object [OF storage_okD(3,4) [OF assms]] by metis
  with True om_view_insert [OF storage_okD(3) [OF assms], of c] show ?thesis
    by (simp add: createChildCoroutineStorage_def storage_abs_def map_create_def Let_def split_def)
next
  case False
  with om_view_insert [OF storage_okD(3) [OF assms], of c]
    om_absent [OF False, of "child_lists s"] show ?thesis
    by (auto simp: createChildCoroutineStorage_def storage_abs_def map_create_def Let_def split_def
        cl_new_def)
qed

lemma abs_gc:
  "storage_abs (storage_gcStart t s) = storage_abs s"
  "storage_gcFinish t s = Inr s' \<Longrightarrow> storage_abs s' = storage_abs s"
  by (auto simp: storage_abs_def storage_gcStart_def storage_gcFinish_def gcFinish_take_def
      gcFinish_put_def Let_def split_def rbind_eq_Inr)

lemma dom_om_view:
  assumes "om_ok m h" and "om_no_null m"
  shows "dom (om_view m h) = set (map fst (cm_map m))"
proof -
  have "k \<in> dom (om_view m h) \<longleftrightarrow> cm_contains k m" for k
    using om_view_contains [OF assms] by (simp add: domIff)
  then show ?thesis by (auto simp: cm_contains_def map_of_none_iff)
qed

lemma abs_mark:
  assumes "storage_ok s"
  shows "storage_abs (mark_for_clean s) = abs_exec Mark_for_clean (storage_abs s)"
  using dom_om_view [OF storage_okD(1,2) [OF assms]] dom_om_view [OF storage_okD(3,4) [OF assms]]
    dom_om_view [OF storage_okD(5,6) [OF assms]]
  by (simp add: storage_abs_def mark_for_clean_def cm_clean_list_mark dom_map_option_comp
      dom_map_option)

lemma abs_clean: "clean s = Inr s' \<Longrightarrow> storage_abs s' = abs_exec Clean (storage_abs s)"
  by (auto simp: storage_abs_def clean_def rbind_eq_Inr om_view_clean restrict_map_def fun_eq_iff)

lemmas abs_total_refines =
  abs_createCoroutineInfo abs_createChildCoroutineStorage abs_mark abs_addRawTrace abs_ongoing abs_gc(1)

lemmas abs_fallible_refines =
  abs_removeRawTraceHeader abs_addProcessedTrace abs_addSuspensionInfo abs_addChildCoroutine
  abs_gc(2) abs_clean

lemma abs_exec_refines:
  assumes "storage_ok s" and "storage_exec op s = Inr s'"
  shows "storage_abs s' = abs_exec op (storage_abs s)"
  using assms by (cases op) (auto simp: rbind_eq_Inr abs_total_refines dest: abs_fallible_refines)

section \<open>Properties\<close>

text \<open>
  C19. The storage implements its abstract specification: an operation that succeeds on a
  well-formed storage leaves a well-formed storage (no dangling or null pointers, no two
  coroutines sharing an object, unique keys) and changes what the storage holds for every
  coroutine exactly as the abstract operation says; in particular it changes nothing for the
  other coroutines.
\<close>

theorem storage_refines:
  assumes "storage_ok s" and "storage_exec op s = Inr s'"
  shows "storage_ok s' \<and> storage_abs s' = abs_exec op (storage_abs s)"
  using ok_exec [OF assms] abs_exec_refines [OF assms] by blast

theorem storage_refines_witness:
  "storage_ok (createChildCoroutineStorage 4 storage_new)
   \<and> storage_abs (createChildCoroutineStorage 4 storage_new)
       = abs_exec (Create_child_storage 4) (storage_abs storage_new)"
  by (rule storage_refines [OF storage_ok_new]) simp

end
