(* ===== verification/Storage_Lifecycle.thy ===== *)
theory Storage_Lifecycle
  imports Storage_Refinement
begin

text \<open>
  Runs of the trace storage: which operations can fail, the list of garbage collections over a
  sequence of collections, and the background cleaner running beside the other threads.
\<close>

section \<open>When an operation fails\<close>

definition exec_fails :: "storage_op \<Rightarrow> trace_storage \<Rightarrow> bool" where
  "exec_fails op s \<longleftrightarrow>
     (case op of
        Add_suspension si \<Rightarrow> \<not> cm_contains (si_coroutine_id si) (coroutine_info_map s)
      | Add_child c p \<Rightarrow> \<not> cm_contains p (child_coroutines_map s)
      | Gc_finish t \<Rightarrow> cl_list (gc_events s) = []
      | Clean \<Rightarrow> length (cl_list (gc_events s)) < nat (sint (cl_clean_until (gc_events s)))
      | _ \<Rightarrow> False)"

lemma cl_clean_fails:
  "(\<exists>e. cl_clean l = Inl e) \<longleftrightarrow> length (cl_list l) < nat (sint (cl_clean_until l))"
proof (cases "nat (sint (cl_clean_until l)) \<le> length (cl_list l)")
  case True
  then show ?thesis by (simp add: cl_clean_ok)
next
  case False
  then show ?thesis by (simp add: cl_clean_def cl_clean_loop_ub)
qed

lemma addProcessedTrace_total:
  assumes "storage_ok s"
  shows "\<exists>s'. addProcessedTrace c r s = Inr s'"
proof (cases "cm_contains c (processed_map s)")
  case True
  then obtain a where "cm_find c (processed_map s) = Some (Some a)"
    using om_object [OF storage_okD(1,2) [OF assms]] by metis
  with True show ?thesis by (simp add: addProcessedTrace_def cm_at_find)
next
  case False
  then show ?thesis by (simp add: addProcessedTrace_def split_def Let_def)
qed

lemma addSuspensionInfo_fails:
  assumes "storage_ok s"
  shows "(\<exists>e. addSuspensionInfo si s = Inl e) \<longleftrightarrow>
    \<not> cm_contains (si_coroutine_id si) (coroutine_info_map s)"
proof (cases "cm_contains (si_coroutine_id si) (coroutine_info_map s)")
  case True
  then obtain a where "cm_find (si_coroutine_id si) (coroutine_info_map s) = Some (Some a)"
    using om_object [OF storage_okD(5,6) [OF assms]] by metis
  with True show ?thesis by (simp add: addSuspensionInfo_def cm_at_find Let_def split_def)
next
  case False
  then show ?thesis by (simp add: addSuspensionInfo_def cm_at_find cm_contains_find)
qed

lemma addChildCoroutine_fails:
  assumes "storage_ok s"
  shows "(\<exists>e. addChildCoroutine c p s = Inl e) \<longleftrightarrow> \<not> cm_contains p (child_coroutines_map s)"
proof (cases "cm_contains p (child_coroutines_map s)")
  case True
  then obtain a where "cm_get None p (child_coroutines_map s) = (Some a, child_coroutines_map s)"
    using om_object [OF storage_okD(3,4) [OF assms]] by metis
  with True show ?thesis by (simp add: addChildCoroutine_def)
next
  case False
  then show ?thesis
    by (simp add: addChildCoroutine_def cm_get_def cm_contains_def Let_def)
qed

lemma gcFinish_fails: "(\<exists>e. storage_gcFinish t s = Inl e) \<longleftrightarrow> cl_list (gc_events s) = []"
  by (cases "cl_list (gc_events s)")
    (auto simp: storage_gcFinish_def gcFinish_take_def cl_back_def cl_pop_front_cases)

lemma clean_fails:
  "(\<exists>e. clean s = Inl e) \<longleftrightarrow>
     length (cl_list (gc_events s)) < nat (sint (cl_clean_until (gc_events s)))"
  using cl_clean_fails [of "gc_events s"] by (auto simp: clean_def rbind_eq_Inl)

lemma exec_fails_iff:
  assumes "storage_ok s"
  shows "(\<exists>e. storage_exec op s = Inl e) \<longleftrightarrow> exec_fails op s"
proof (cases op)
  case (Add_processed c r)
  with addProcessedTrace_total [OF assms, of c r] show ?thesis by (auto simp: exec_fails_def)
next
  case Remove_raw
  then show ?thesis
    by (simp add: exec_fails_def removeRawTraceHeader_def cl_pop_front_cases split: list.splits)
qed (simp_all add: exec_fails_def addSuspensionInfo_fails [OF assms]
    addChildCoroutine_fails [OF assms] gcFinish_fails clean_fails)

section \<open>The list of garbage collections\<close>

text \<open>A completed collection: the two callbacks, at the times given.\<close>

definition gc_cycle :: "trace_time \<times> trace_time \<Rightarrow> trace_storage \<Rightarrow> trace_storage result" where
  "gc_cycle t s = storage_gcFinish (snd t) (storage_gcStart (fst t) s)"

fun gc_cycles :: "(trace_time \<times> trace_time) list \<Rightarrow> trace_storage \<Rightarrow> trace_storage result" where
  "gc_cycles [] s = Inr s"
| "gc_cycles (t # ts) s = rbind (gc_cycle t s) (gc_cycles ts)"

lemma gc_cycle_eq:
  "gc_cycle t s =
     (let e = next_addr (gc_heap s) in
      Inr (s\<lparr>gc_heap := heap_update e (\<lambda>g. g\<lparr>gc_end_time := snd t\<rparr>)
               (snd (heap_alloc \<lparr>gc_start_time = fst t, gc_end_time = 0\<rparr> (gc_heap s))),
             gc_events := (gc_events s)\<lparr>cl_list := tl (cl_list (gc_events s) @ [e, e])\<rparr>\<rparr>))"
  by (cases "cl_list (gc_events s)")
    (auto simp: gc_cycle_def storage_gcStart_def storage_gcFinish_def gcFinish_take_def
      gcFinish_put_def Let_def split_def heap_simps cl_back_def cl_pop_front_cases cl_push_back_def)

definition doubled :: "nat \<Rightarrow> nat list" where
  "doubled n = concat (map (\<lambda>i. [i, i]) [0..<n])"

lemma doubled_Suc: "doubled (Suc n) = doubled n @ [n, n]"
  by (simp add: doubled_def)

lemma length_doubled [simp]: "length (doubled n) = 2 * n"
  by (induction n) (simp_all add: doubled_Suc doubled_def)

lemma nth_doubled: "j < 2 * n \<Longrightarrow> doubled n ! j = j div 2"
proof (induction n)
  case 0
  then show ?case by simp
next
  case (Suc n)
  from Suc.prems have "j < 2 * n \<or> j = 2 * n \<or> j = Suc (2 * n)" by auto
  then show ?case using Suc.IH by (elim disjE) (simp_all add: doubled_Suc nth_append)
qed

lemma set_drop_nth: "n \<le> length xs \<Longrightarrow> set (drop n xs) = (\<lambda>j. xs ! j) ` {n..<length xs}"
proof (intro set_eqI iffI)
  fix x
  assume "n \<le> length xs" and "x \<in> set (drop n xs)"
  then obtain i where "i < length xs - n" "x = xs ! (n + i)"
    by (auto simp: in_set_conv_nth)
  then show "x \<in> (\<lambda>j. xs ! j) ` {n..<length xs}" by (intro image_eqI [of _ _ "n + i"]) auto
next
  fix x
  assume "n \<le> length xs" and "x \<in> (\<lambda>j. xs ! j) ` {n..<length xs}"
  then obtain j where "n \<le> j" "j < length xs" "x = xs ! j" by auto
  then show "x \<in> set (drop n xs)" by (auto simp: in_set_conv_nth intro!: exI [of _ "j - n"])
qed

lemma set_drop_doubled: "set (drop n (doubled n)) = {i. i < n \<and> n < 2 * i + 2}"
proof -
  have "set (drop n (doubled n)) = (\<lambda>j. doubled n ! j) ` {n..<2 * n}"
    using set_drop_nth [of n "doubled n"] by simp
  also have "\<dots> = (\<lambda>j. j div 2) ` {n..<2 * n}"
    by (rule image_cong) (simp_all add: nth_doubled)
  also have "\<dots> = {i. i < n \<and> n < 2 * i + 2}"
  proof (intro set_eqI iffI)
    fix i
    assume "i \<in> {i. i < n \<and> n < 2 * i + 2}"
    then have "Suc (2 * i) \<in> {n..<2 * n}" and "Suc (2 * i) div 2 = i" by auto
    then show "i \<in> (\<lambda>j. j div 2) ` {n..<2 * n}" by (metis image_eqI)
  qed auto
  finally show ?thesis .
qed

lemma tl_drop_snoc2:
  assumes "n \<le> length xs"
  shows "tl (drop n xs @ [a, b]) = drop (Suc n) (xs @ [a, b])"
proof -
  have "drop n xs @ [a, b] = drop n (xs @ [a, b])"
    using assms by simp
  then show ?thesis by (simp only: drop_Suc tl_drop)
qed

lemma gc_cycles_snoc: "gc_cycles (ts @ [t]) s = rbind (gc_cycles ts s) (gc_cycle t)"
  by (induction ts arbitrary: s) (auto simp: rbind_def split: sum.splits)

lemma gc_history:
  "\<exists>s. gc_cycles ts storage_new = Inr s
     \<and> next_addr (gc_heap s) = length ts
     \<and> cl_list (gc_events s) = drop (length ts) (doubled (length ts))
     \<and> (\<forall>i<length ts. cells (gc_heap s) i =
            Some \<lparr>gc_start_time = fst (ts ! i), gc_end_time = snd (ts ! i)\<rparr>)"
proof (induction ts rule: rev_induct)
  case Nil
  show ?case by (simp add: storage_new_def heap_empty_def cl_new_def doubled_def)
next
  case (snoc t ts)
  then obtain s where s: "gc_cycles ts storage_new = Inr s" "next_addr (gc_heap s) = length ts"
    "cl_list (gc_events s) = drop (length ts) (doubled (length ts))"
    "\<forall>i<length ts. cells (gc_heap s) i =
       Some \<lparr>gc_start_time = fst (ts ! i), gc_end_time = snd (ts ! i)\<rparr>"
    by blast
  have "length ts \<le> length (doubled (length ts))" by simp
  from tl_drop_snoc2 [OF this, of "length ts" "length ts"] s show ?case
    by (auto simp: gc_cycles_snoc gc_cycle_eq Let_def doubled_Suc heap_simps nth_append less_Suc_eq)
qed

section \<open>The cleaner thread\<close>

text \<open>
  The constructor starts a thread that marks, sleeps and cleans in a loop. Its control state says
  which of the two calls comes next; every other operation of the storage may run in between, on
  any thread.
\<close>

datatype cleaner_pc = Before_mark | Before_clean

inductive storage_step ::
  "trace_storage \<times> cleaner_pc \<Rightarrow> trace_storage \<times> cleaner_pc \<Rightarrow> bool" where
  operate: "\<lbrakk>op \<noteq> Mark_for_clean; op \<noteq> Clean; storage_exec op s = Inr s'\<rbrakk> \<Longrightarrow>
     storage_step (s, pc) (s', pc)"
| cleaner_mark: "storage_active s \<Longrightarrow> storage_step (s, Before_mark) (mark_for_clean s, Before_clean)"
| cleaner_clean: "clean s = Inr s' \<Longrightarrow> storage_step (s, Before_clean) (s', Before_mark)"

inductive storage_reachable :: "trace_storage \<times> cleaner_pc \<Rightarrow> bool" where
  init: "storage_reachable (storage_new, Before_mark)"
| step: "\<lbrakk>storage_reachable x; storage_step x y\<rbrakk> \<Longrightarrow> storage_reachable y"

inductive_cases storage_stepE: "storage_step (s, pc) (s', pc')"

definition mark_covered :: "trace_storage \<Rightarrow> bool" where
  "mark_covered s \<longleftrightarrow>
     nat (sint (cl_clean_until (gc_events s))) \<le> length (cl_list (gc_events s))"

lemma nat_sint_word_of_nat: "nat (sint (word_of_nat n :: i32)) \<le> n"
proof (cases "n < 2 ^ 31")
  case True
  then show ?thesis by (simp add: sint_word_of_nat_small)
next
  case False
  have "sint (word_of_nat n :: i32) < 2 ^ 31"
    using sint_range_size [of "word_of_nat n :: i32"] by (simp add: word_size)
  with False show ?thesis by (simp add: nat_le_iff)
qed

lemma gcFinish_gc_list:
  assumes "storage_gcFinish t s = Inr s'"
  shows "length (cl_list (gc_events s')) = length (cl_list (gc_events s))"
    and "cl_clean_until (gc_events s') = cl_clean_until (gc_events s)"
  using assms
  by (cases "cl_list (gc_events s)";
      auto simp: storage_gcFinish_def gcFinish_take_def gcFinish_put_def cl_back_def
        cl_pop_front_cases cl_push_back_def)+

lemma operate_gc_list:
  assumes "storage_exec op s = Inr s'" and "op \<noteq> Mark_for_clean" and "op \<noteq> Clean"
  shows "length (cl_list (gc_events s)) \<le> length (cl_list (gc_events s'))
    \<and> cl_clean_until (gc_events s') = cl_clean_until (gc_events s)"
proof (cases op)
  case (Gc_finish t)
  with assms gcFinish_gc_list [of t s s'] show ?thesis by simp
qed (use assms in \<open>auto simp: addRawTrace_def removeRawTraceHeader_def addProcessedTrace_def
    addOngoingTraceInfo_def findOngoingTraceInfo_def removeOngoingTraceInfo_def
    addSuspensionInfo_def createCoroutineInfo_def addChildCoroutine_def
    createChildCoroutineStorage_def storage_gcStart_def cl_push_back_def rbind_eq_Inr Let_def
    split_def split: option.splits if_splits\<close>)

definition storage_run_inv :: "trace_storage \<times> cleaner_pc \<Rightarrow> bool" where
  "storage_run_inv x \<longleftrightarrow>
     storage_ok (fst x) \<and> (snd x = Before_clean \<longrightarrow> mark_covered (fst x))"

lemma storage_run_inv_step:
  assumes "storage_step x y" and "storage_run_inv x"
  shows "storage_run_inv y"
  using assms
proof (induction rule: storage_step.induct)
  case (operate op s s' pc)
  then show ?case
    using operate_gc_list [OF operate(3,1,2)] ok_exec [OF _ operate(3)]
    by (auto simp: storage_run_inv_def mark_covered_def)
next
  case (cleaner_mark s)
  then show ?case
    using ok_mark [of s] nat_sint_word_of_nat [of "length (cl_list (gc_events s))"]
    by (simp add: storage_run_inv_def mark_covered_def)
      (simp add: mark_for_clean_def cl_mark_for_clean_def)
next
  case (cleaner_clean s s')
  then show ?case using ok_clean [of s s'] by (simp add: storage_run_inv_def)
qed

lemma storage_reachable_inv: "storage_reachable x \<Longrightarrow> storage_run_inv x"
proof (induction rule: storage_reachable.induct)
  case init
  show ?case by (simp add: storage_run_inv_def storage_ok_new)
next
  case (step x y)
  then show ?case by (blast intro: storage_run_inv_step)
qed

section \<open>Properties\<close>

text \<open>
  C23. Exactly when an operation of a well-formed storage fails: adding a suspension to an unknown
  coroutine, adding a child to a parent without child storage, finishing a garbage collection
  when the list of collections is empty, and cleaning more collections than the list holds. Every
  other operation always succeeds.
\<close>

theorem storage_failures:
  assumes "storage_ok s"
  shows "(\<exists>e. storage_exec op s = Inl e) \<longleftrightarrow> exec_fails op s"
  using assms by (rule exec_fails_iff)

theorem storage_failures_witness:
  "(\<exists>e. storage_exec (Gc_finish 5) storage_new = Inl e) \<longleftrightarrow> exec_fails (Gc_finish 5) storage_new"
  by (rule storage_failures [OF storage_ok_new])



text \<open>
  \<open>gcFinish\<close> is not atomic. If the cleaner runs between its \<open>pop_front\<close> and its
  \<open>push_back\<close>, and no collection has started since the mark, cleaning pops from an empty list.
\<close>

lemma gcFinish_races_with_clean:
  assumes "cl_list (gc_events s) \<noteq> []" and "length (cl_list (gc_events s)) < 2 ^ 31"
  shows "\<exists>e s'. gcFinish_take (mark_for_clean s) = Inr (e, s')
    \<and> clean s' = Inl (Undefined_behaviour ''list::pop_front'')"
proof -
  from assms(1) obtain x xs where l: "cl_list (gc_events s) = x # xs"
    by (cases "cl_list (gc_events s)") auto
  have "nat (sint (word_of_nat (Suc (length xs)) :: i32)) = Suc (length xs)"
    using assms(2) l sint_word_of_nat_small [of "Suc (length xs)"] by simp
  then show ?thesis
    using l by (simp add: gcFinish_take_def mark_for_clean_def cl_mark_for_clean_def cl_back_def
        cl_pop_front_cases clean_def cl_clean_def cl_clean_loop_ub)
qed

text \<open>
  C26. The fate of garbage collections: after \<open>n\<close> completed collections the list has \<open>n\<close>
  entries, but \<open>gcFinish\<close> removes the oldest entry and appends the finished one a second time,
  so that collection number \<open>i\<close> (counted from 0) is still in the list exactly when
  \<open>n < 2 * i + 2\<close>: the first half of the collections is lost. What is left has the times of its
  two callbacks.
\<close>

theorem gc_first_half_lost:
  "\<exists>s. gc_cycles ts storage_new = Inr s
     \<and> length (cl_list (gc_events s)) = length ts
     \<and> set (cl_list (gc_events s)) = {i. i < length ts \<and> length ts < 2 * i + 2}
     \<and> (\<forall>i<length ts. cells (gc_heap s) i =
            Some \<lparr>gc_start_time = fst (ts ! i), gc_end_time = snd (ts ! i)\<rparr>)"
proof -
  obtain s where "gc_cycles ts storage_new = Inr s"
    "cl_list (gc_events s) = drop (length ts) (doubled (length ts))"
    "\<forall>i<length ts. cells (gc_heap s) i =
       Some \<lparr>gc_start_time = fst (ts ! i), gc_end_time = snd (ts ! i)\<rparr>"
    using gc_history [of ts] by blast
  then show ?thesis by (intro exI [of _ s]) (simp add: set_drop_doubled)
qed

theorem gc_first_half_lost_witness:
  "\<exists>s. gc_cycles [(1, 2), (3, 4)] storage_new = Inr s
     \<and> length (cl_list (gc_events s)) = 2
     \<and> set (cl_list (gc_events s)) = {i. i < 2 \<and> 2 < 2 * i + (2::nat)}"
  using gc_first_half_lost [of "[(1, 2), (3, 4)]"] by auto

end
