(* ===== verification/Jvm_Threads.thy ===== *)
theory Jvm_Threads
  imports Concurrent_List
begin

text \<open>
  The thread registry of \<open>vm/jvm.hpp\<close> and \<open>vm/jvm.cpp\<close>: the threads the JVM has announced,
  with the bounds of their stacks and the number of traces that run on them. \<open>ThreadInfo\<close>
  objects are shared between the registry and the profiler and live in a store.
\<close>

record thread_info =
  th_name :: string
  th_id :: pthread_t
  th_current_traces :: i32
  th_stack_lo :: u64
  th_stack_hi :: u64

definition thread_info_new :: "string \<Rightarrow> pthread_t \<Rightarrow> u64 \<Rightarrow> u64 \<Rightarrow> thread_info" where
  "thread_info_new name tid lo hi =
     \<lparr>th_name = name, th_id = tid, th_current_traces = 0, th_stack_lo = lo, th_stack_hi = hi\<rparr>"

record jvm_threads =
  threads :: "addr concurrent_list"
  thread_heap :: "thread_info heap"

definition jvm_threads_new :: jvm_threads where
  "jvm_threads_new = \<lparr>threads = cl_new, thread_heap = heap_empty\<rparr>"

text \<open>
  The bounds of a stack: Linux reports the lowest address and the size, macOS the highest address
  and the size.
\<close>

definition linux_stack_bounds :: "u64 \<Rightarrow> u64 \<Rightarrow> u64 \<times> u64" where
  "linux_stack_bounds stack_addr stack_size = (stack_addr, stack_addr + stack_size)"

definition apple_stack_bounds :: "u64 \<Rightarrow> u64 \<Rightarrow> u64 \<times> u64" where
  "apple_stack_bounds stack_high stack_size = (stack_high - stack_size, stack_high)"

text \<open>
  \<open>err\<close> and \<open>name\<close> are what \<open>GetThreadInfo\<close> reports for the starting thread, \<open>self\<close> is
  \<open>pthread_self()\<close>. A thread whose information cannot be read is not registered.
\<close>

definition addCurrentThread ::
  "i32 \<Rightarrow> string \<Rightarrow> pthread_t \<Rightarrow> u64 \<times> u64 \<Rightarrow> jvm_threads \<Rightarrow> jvm_threads" where
  "addCurrentThread err name self bounds j =
     (if err \<noteq> 0 then j
      else (let (a, h) = heap_alloc (thread_info_new name self (fst bounds) (snd bounds)) (thread_heap j)
            in j\<lparr>thread_heap := h, threads := cl_push_back a (threads j)\<rparr>))"

definition getThreads :: "jvm_threads \<Rightarrow> addr concurrent_list" where
  "getThreads j = threads j"

definition has_thread_id :: "thread_info heap \<Rightarrow> pthread_t \<Rightarrow> addr \<Rightarrow> bool" where
  "has_thread_id h tid a = (case cells h a of Some t \<Rightarrow> th_id t = tid | None \<Rightarrow> False)"

definition findThread :: "pthread_t \<Rightarrow> jvm_threads \<Rightarrow> ptr" where
  "findThread tid j = cl_find (has_thread_id (thread_heap j) tid) (threads j)"

text \<open>\<open>current_traces.fetch_add(d)\<close> through a pointer to the thread.\<close>

definition add_current_traces :: "i32 \<Rightarrow> addr \<Rightarrow> jvm_threads \<Rightarrow> jvm_threads" where
  "add_current_traces d a j =
     j\<lparr>thread_heap :=
         heap_update a (\<lambda>t. t\<lparr>th_current_traces := th_current_traces t + d\<rparr>) (thread_heap j)\<rparr>"

section \<open>Lemmas\<close>

definition threads_ok :: "jvm_threads \<Rightarrow> bool" where
  "threads_ok j \<longleftrightarrow>
     heap_ok (thread_heap j) \<and> (\<forall>a\<in>set (cl_list (threads j)). a < next_addr (thread_heap j))"

lemma threads_ok_new: "threads_ok jvm_threads_new"
  by (simp add: threads_ok_def jvm_threads_new_def cl_new_def)

lemma threads_ok_add: "threads_ok j \<Longrightarrow> threads_ok (addCurrentThread err name self b j)"
  by (auto simp: threads_ok_def addCurrentThread_def Let_def split_def heap_simps cl_push_back_def
      less_Suc_eq)

lemma threads_ok_traces [simp]: "threads_ok (add_current_traces d a j) = threads_ok j"
  by (simp add: threads_ok_def add_current_traces_def)

lemma findThread_Some:
  assumes "findThread tid j = Some a"
  shows "a \<in> set (cl_list (threads j))" and "\<exists>t. cells (thread_heap j) a = Some t \<and> th_id t = tid"
proof -
  from assms have f: "find (has_thread_id (thread_heap j) tid) (cl_list (threads j)) = Some a"
    by (simp add: findThread_def cl_find_eq)
  then show "a \<in> set (cl_list (threads j))" and "\<exists>t. cells (thread_heap j) a = Some t \<and> th_id t = tid"
    using find_prefix [OF f] by (auto simp: has_thread_id_def split: option.splits)
qed

lemma has_thread_id_traces [simp]:
  "has_thread_id (thread_heap (add_current_traces d a j)) tid b = has_thread_id (thread_heap j) tid b"
  by (auto simp: has_thread_id_def add_current_traces_def heap_simps split: option.splits)

lemma threads_traces [simp]: "threads (add_current_traces d a j) = threads j"
  by (simp add: add_current_traces_def)

lemma findThread_traces [simp]: "findThread tid (add_current_traces d a j) = findThread tid j"
proof -
  have "has_thread_id (thread_heap (add_current_traces d a j)) tid = has_thread_id (thread_heap j) tid"
    by (rule ext) simp
  then show ?thesis by (simp add: findThread_def)
qed

lemma add_current_traces_cancel:
  assumes "d + e = 0"
  shows "add_current_traces e a (add_current_traces d a j) = j"
proof -
  have "th_current_traces t + d + e = th_current_traces t" for t
    using assms by (simp add: add.assoc)
  then have "heap_update a (\<lambda>t. t\<lparr>th_current_traces := th_current_traces t + e\<rparr>)
      (heap_update a (\<lambda>t. t\<lparr>th_current_traces := th_current_traces t + d\<rparr>) h) = h" for h
    by (intro heap_update_twice) simp
  then show ?thesis by (cases j) (simp add: add_current_traces_def)
qed

lemma findThread_registered:
  assumes "threads_ok j"
  shows "findThread self (addCurrentThread 0 name self b j) \<noteq> None"
  using assms
  by (auto simp: findThread_def cl_find_eq find_None_iff addCurrentThread_def Let_def split_def
      heap_simps cl_push_back_def has_thread_id_def thread_info_new_def)

end
