(* ===== verification/Resource_Usage.thy ===== *)
theory Resource_Usage
  imports Trace_Storage
begin

text \<open>
  The accounting of \<open>profiler/profiler.cpp\<close>: the processor time and the context switches a
  coroutine uses between two events, measured with \<open>getrusage\<close> on Linux and \<open>thread_info\<close> on
  macOS, and its running time on the wall clock.
\<close>

section \<open>Readings\<close>

record timeval =
  tv_sec :: i64
  tv_usec :: i64

record rusage =
  ru_utime :: timeval
  ru_stime :: timeval
  ru_nvcsw :: i64
  ru_nivcsw :: i64

definition timeval_zero :: timeval where
  "timeval_zero = \<lparr>tv_sec = 0, tv_usec = 0\<rparr>"

definition rusage_zero :: rusage where
  "rusage_zero = \<lparr>ru_utime = timeval_zero, ru_stime = timeval_zero, ru_nvcsw = 0, ru_nivcsw = 0\<rparr>"

text \<open>
  What the operating system answers: on Linux a whole \<open>rusage\<close>, or nothing when \<open>getrusage\<close>
  fails (its result is not checked and the buffer keeps its contents); on macOS the user and the
  system time, or an error code.
\<close>

datatype usage_reading =
    Linux_rusage "rusage option"
  | Apple_thread_info "(timeval \<times> timeval) option"

section \<open>Operations\<close>

definition calculate_elapsed_time :: "timeval \<Rightarrow> timeval \<Rightarrow> trace_time" where
  "calculate_elapsed_time end_tv begin_tv =
     (let seconds = tv_sec end_tv - tv_sec begin_tv;
          microseconds = tv_usec end_tv - tv_usec begin_tv
      in duration_cast_up 1000000 seconds + microseconds)"

text \<open>\<open>current_rusage_\<close> is thread local: the old value is an argument, the new one the result.\<close>

definition update_perf_counters :: "usage_reading \<Rightarrow> rusage \<Rightarrow> rusage" where
  "update_perf_counters reading cur =
     (case reading of
        Linux_rusage None \<Rightarrow> cur
      | Linux_rusage (Some r) \<Rightarrow> r
      | Apple_thread_info None \<Rightarrow> cur
      | Apple_thread_info (Some (ut, st)) \<Rightarrow> cur\<lparr>ru_stime := st, ru_utime := ut\<rparr>)"

definition add_cpu_time :: "rusage \<Rightarrow> rusage \<Rightarrow> coroutine_info \<Rightarrow> coroutine_info" where
  "add_cpu_time prev cur ci =
     ci\<lparr>ci_cpu_system_clock_running_time_us :=
          tt_add_assign (ci_cpu_system_clock_running_time_us ci)
            (calculate_elapsed_time (ru_stime cur) (ru_stime prev)),
        ci_cpu_user_clock_running_time_us :=
          tt_add_assign (ci_cpu_user_clock_running_time_us ci)
            (calculate_elapsed_time (ru_utime cur) (ru_utime prev))\<rparr>"

definition add_switches :: "rusage \<Rightarrow> rusage \<Rightarrow> coroutine_info \<Rightarrow> coroutine_info" where
  "add_switches prev cur ci =
     ci\<lparr>ci_voluntary_switches := ci_voluntary_switches ci + (ru_nvcsw cur - ru_nvcsw prev),
        ci_involuntary_switches := ci_involuntary_switches ci + (ru_nivcsw cur - ru_nivcsw prev)\<rparr>"

definition add_wall_clock :: "trace_time \<Rightarrow> coroutine_info \<Rightarrow> coroutine_info" where
  "add_wall_clock now ci =
     ci\<lparr>ci_wall_clock_running_time :=
          tt_add_assign (ci_wall_clock_running_time ci) (tt_minus now (ci_last_resume ci))\<rparr>"

definition calculate_resource_usage ::
  "trace_time \<Rightarrow> usage_reading \<Rightarrow> rusage \<Rightarrow> coroutine_info \<Rightarrow> coroutine_info \<times> rusage" where
  "calculate_resource_usage now reading prev ci =
     (let ci1 = add_wall_clock now ci; cur = update_perf_counters reading prev in
      case reading of
        Linux_rusage _ \<Rightarrow> (add_switches prev cur (add_cpu_time prev cur ci1), cur)
      | Apple_thread_info None \<Rightarrow> (ci1, cur)
      | Apple_thread_info (Some _) \<Rightarrow> (add_cpu_time prev cur ci1, cur))"

section \<open>Lemmas\<close>

definition timeval_us :: "timeval \<Rightarrow> int" where
  "timeval_us t = sint (tv_sec t) * 1000000 + sint (tv_usec t)"

text \<open>A time of day as the kernel reports it: non-negative, less than a million microseconds.\<close>

definition timeval_ok :: "timeval \<Rightarrow> bool" where
  "timeval_ok t \<longleftrightarrow>
     0 \<le> sint (tv_sec t) \<and> sint (tv_sec t) < 2 ^ 42 \<and> 0 \<le> sint (tv_usec t) \<and> sint (tv_usec t) < 1000000"

lemma elapsed_time_exact:
  assumes "timeval_ok e" and "timeval_ok b"
  shows "sint (calculate_elapsed_time e b) = timeval_us e - timeval_us b"
proof -
  have s: "sint (tv_sec e - tv_sec b) = sint (tv_sec e) - sint (tv_sec b)"
    and u: "sint (tv_usec e - tv_usec b) = sint (tv_usec e) - sint (tv_usec b)"
    using assms by (auto simp: timeval_ok_def sint_minus_nonneg)
  have m: "sint ((tv_sec e - tv_sec b) * 1000000) = (sint (tv_sec e) - sint (tv_sec b)) * 1000000"
    using assms s by (subst sint_times_exact) (auto simp: timeval_ok_def)
  have "sint ((tv_sec e - tv_sec b) * 1000000 + (tv_usec e - tv_usec b)) =
      (sint (tv_sec e) - sint (tv_sec b)) * 1000000 + (sint (tv_usec e) - sint (tv_usec b))"
    using assms m u by (subst sint_plus_exact) (auto simp: timeval_ok_def)
  then show ?thesis
    by (simp add: calculate_elapsed_time_def Let_def duration_cast_up_def timeval_us_def algebra_simps)
qed

lemma usage_keeps:
  "ci_suspensions_list (fst (calculate_resource_usage now r prev ci)) = ci_suspensions_list ci"
  "ci_start (fst (calculate_resource_usage now r prev ci)) = ci_start ci"
  "ci_end (fst (calculate_resource_usage now r prev ci)) = ci_end ci"
  "ci_last_resume (fst (calculate_resource_usage now r prev ci)) = ci_last_resume ci"
  by (auto simp: calculate_resource_usage_def Let_def add_wall_clock_def add_cpu_time_def
      add_switches_def split: usage_reading.splits option.splits)

lemma usage_wall_clock:
  "ci_wall_clock_running_time (fst (calculate_resource_usage now r prev ci)) =
     ci_wall_clock_running_time ci + (now - ci_last_resume ci)"
  by (auto simp: calculate_resource_usage_def Let_def add_wall_clock_def add_cpu_time_def
      add_switches_def tt_add_assign_def tt_minus_def split: usage_reading.splits option.splits)

lemma usage_counters:
  "snd (calculate_resource_usage now r prev ci) = update_perf_counters r prev"
  by (auto simp: calculate_resource_usage_def Let_def split: usage_reading.splits option.splits)

end
