(* ===== verification/Method_Tables.thy ===== *)
theory Method_Tables
  imports Trace_Model Concurrent_Map
begin

text \<open>
  The names of stack frames in \<open>profiler/profiler.cpp\<close>: a frame of Java code is named by asking
  the JVM once per method and remembering the answer in two maps; a frame of native code is named
  by the symbol lookup of the JVM component.
\<close>

section \<open>State and environment\<close>

record method_tables =
  method_info_map :: "(jmethodID, string) concurrent_map"
  class_info_map :: "(jmethodID, string) concurrent_map"

definition method_tables_new :: method_tables where
  "method_tables_new = \<lparr>method_info_map = cm_new, class_info_map = cm_new\<rparr>"

text \<open>
  What the code asks of the JVM tool interface and of the symbol lookup: the name and the signature
  of a method, the signature of its declaring class, and the name and library of a native
  instruction. \<^const>\<open>None\<close> stands for an error code, in which case the output arguments are not
  written.
\<close>

record method_env =
  GetMethodName :: "jmethodID \<Rightarrow> (string \<times> string) option"
  GetClassSignature :: "jmethodID \<Rightarrow> string option"
  getNativeFunctionInfo :: "i64 \<Rightarrow> (string \<times> string) option"

section \<open>Operations\<close>

text \<open>
  The class name drops the last character of the signature, which is the semicolon of
  \<open>Lpackage/Name;\<close>. On an empty signature the length wraps around and the constructor throws.
\<close>

definition class_of_signature :: "string \<Rightarrow> string result" where
  "class_of_signature sig =
     (if sig = [] then Inl (Length_error ''basic_string'') else Inr (butlast sig))"

text \<open>
  The class name of a method. The error code of \<open>GetClassSignature\<close> is only looked at after the
  name has been read through an uninitialised pointer.
\<close>

definition class_name_of ::
  "method_env \<Rightarrow> jmethodID \<Rightarrow> method_tables \<Rightarrow> (string \<times> method_tables) result" where
  "class_name_of env method mt =
     (if cm_contains method (class_info_map mt) then
        (let (c, m) = cm_get [] method (class_info_map mt) in Inr (c, mt\<lparr>class_info_map := m\<rparr>))
      else
        (case GetClassSignature env method of
           None \<Rightarrow> Inl (Undefined_behaviour ''GetClassSignature'')
         | Some sig \<Rightarrow>
             rbind (class_of_signature sig) (\<lambda>name.
               let m = snd (cm_insert method name (class_info_map mt));
                   (c, m) = cm_get [] method m
               in Inr (c, mt\<lparr>class_info_map := m\<rparr>))))"

definition processMethodInfo ::
  "method_env \<Rightarrow> jmethodID \<Rightarrow> method_tables \<Rightarrow> (stack_frame \<times> method_tables) result" where
  "processMethodInfo env method mt =
     (if \<not> cm_contains method (method_info_map mt) then
        (case GetMethodName env method of
           None \<Rightarrow> Inl (Undefined_behaviour ''GetMethodName'')
         | Some (name, signature) \<Rightarrow>
             rbind (class_name_of env method mt) (\<lambda>(className, mt).
               let m = snd (cm_insert method (name @ signature) (method_info_map mt));
                   (f, m) = cm_get [] method m
               in Inr (\<lparr>sf_frame = f, sf_base = className\<rparr>, mt\<lparr>method_info_map := m\<rparr>)))
      else
        (let (f, m) = cm_get [] method (method_info_map mt);
             (c, k) = cm_get [] method (class_info_map mt)
         in Inr (\<lparr>sf_frame = f, sf_base = c\<rparr>, mt\<lparr>method_info_map := m, class_info_map := k\<rparr>)))"

text \<open>
  \<open>processProfilerMethodInfo\<close> repeats the code of \<open>processMethodInfo\<close> for a Java frame whose
  method is known.
\<close>

definition processProfilerMethodInfo ::
  "method_env \<Rightarrow> instruction_info \<Rightarrow> method_tables \<Rightarrow> (stack_frame \<times> method_tables) result" where
  "processProfilerMethodInfo env info mt =
     (if java_frame info then
        (if instruction info \<noteq> 0 then processMethodInfo env (instruction info) mt
         else Inr (\<lparr>sf_frame = ''unknown_java'', sf_base = ''''\<rparr>, mt))
      else
        (case getNativeFunctionInfo env (instruction info) of
           Some (name, lib) \<Rightarrow> Inr (\<lparr>sf_frame = name, sf_base = lib\<rparr>, mt)
         | None \<Rightarrow> Inr (\<lparr>sf_frame = ''unknown_native'', sf_base = ''''\<rparr>, mt)))"

text \<open>The two loops over frames; frames that were named before an error stay in the tables.\<close>

fun process_methods ::
  "method_env \<Rightarrow> jmethodID list \<Rightarrow> (method_tables, stack_frame list) action" where
  "process_methods env [] mt = (Inr [], mt)"
| "process_methods env (m # ms) mt =
     (case processMethodInfo env m mt of
        Inl e \<Rightarrow> (Inl e, mt)
      | Inr (f, mt) \<Rightarrow> abind (process_methods env ms mt) (\<lambda>fs mt. (Inr (f # fs), mt)))"

fun process_instructions ::
  "method_env \<Rightarrow> instruction_info list \<Rightarrow> nat list \<Rightarrow> (method_tables, stack_frame list) action" where
  "process_instructions env instrs [] mt = (Inr [], mt)"
| "process_instructions env instrs (i # is) mt =
     (if length instrs \<le> i then (Inl (Undefined_behaviour ''instructions[i]''), mt)
      else (case processProfilerMethodInfo env (instrs ! i) mt of
              Inl e \<Rightarrow> (Inl e, mt)
            | Inr (f, mt) \<Rightarrow>
                abind (process_instructions env instrs is mt) (\<lambda>fs mt. (Inr (f # fs), mt))))"

section \<open>The tables agree with the JVM\<close>

text \<open>
  A frame is named as if the JVM were asked every time: the tables are a cache. \<open>pure_frame\<close> is
  the answer without tables.
\<close>

definition pure_method_frame :: "method_env \<Rightarrow> jmethodID \<Rightarrow> stack_frame option" where
  "pure_method_frame env method =
     (case (GetMethodName env method, GetClassSignature env method) of
        (Some (name, signature), Some sig) \<Rightarrow>
          if sig = [] then None else Some \<lparr>sf_frame = name @ signature, sf_base = butlast sig\<rparr>
      | _ \<Rightarrow> None)"

definition pure_frame :: "method_env \<Rightarrow> instruction_info \<Rightarrow> stack_frame option" where
  "pure_frame env info =
     (if java_frame info then
        (if instruction info = 0 then Some \<lparr>sf_frame = ''unknown_java'', sf_base = ''''\<rparr>
         else pure_method_frame env (instruction info))
      else (case getNativeFunctionInfo env (instruction info) of
              Some (name, lib) \<Rightarrow> Some \<lparr>sf_frame = name, sf_base = lib\<rparr>
            | None \<Rightarrow> Some \<lparr>sf_frame = ''unknown_native'', sf_base = ''''\<rparr>))"

definition tables_ok :: "method_env \<Rightarrow> method_tables \<Rightarrow> bool" where
  "tables_ok env mt \<longleftrightarrow>
     cm_ok (method_info_map mt) \<and> cm_ok (class_info_map mt)
     \<and> (\<forall>m f. cm_find m (method_info_map mt) = Some f \<longrightarrow>
          (\<exists>fr. pure_method_frame env m = Some fr \<and> sf_frame fr = f
                \<and> cm_find m (class_info_map mt) = Some (sf_base fr)))
     \<and> (\<forall>m c. cm_find m (class_info_map mt) = Some c \<longrightarrow>
          (\<exists>sig. GetClassSignature env m = Some sig \<and> sig \<noteq> [] \<and> c = butlast sig))"

lemma tables_ok_new: "tables_ok env method_tables_new"
  by (simp add: tables_ok_def method_tables_new_def)

lemma tables_ok_method:
  assumes "tables_ok env mt" and "cm_find m (method_info_map mt) = Some f"
  obtains fr where "pure_method_frame env m = Some fr" and "sf_frame fr = f"
    and "cm_find m (class_info_map mt) = Some (sf_base fr)"
  using assms by (fastforce simp: tables_ok_def)

lemma class_name_of_ok:
  assumes "tables_ok env mt" and "GetClassSignature env m = Some sig" and "sig \<noteq> []"
  shows "\<exists>mt'. class_name_of env m mt = Inr (butlast sig, mt') \<and> tables_ok env mt'
    \<and> method_info_map mt' = method_info_map mt \<and> cm_find m (class_info_map mt') = Some (butlast sig)"
proof (cases "cm_find m (class_info_map mt)")
  case None
  then have "cm_find m (method_info_map mt) = None"
    using tables_ok_method [OF assms(1), of m] by (cases "cm_find m (method_info_map mt)") auto
  with None show ?thesis
    using assms
    by (auto simp: class_name_of_def cm_contains_find class_of_signature_def Let_def split_def
        fst_cm_get cm_find_insert cm_find_get tables_ok_def)
next
  case (Some c)
  then have "c = butlast sig"
    using assms unfolding tables_ok_def by (metis option.inject)
  with Some show ?thesis
    using assms(1) by (auto simp: class_name_of_def cm_contains_find cm_get_present)
qed

lemma processMethodInfo_ok:
  assumes "tables_ok env mt" and "pure_method_frame env m = Some f"
  shows "\<exists>mt'. processMethodInfo env m mt = Inr (f, mt') \<and> tables_ok env mt'"
proof (cases "cm_find m (method_info_map mt)")
  case (Some n)
  with assms have "n = sf_frame f" and "cm_find m (class_info_map mt) = Some (sf_base f)"
    using tables_ok_method [OF assms(1) Some] by (metis option.inject)+
  with Some assms(1) show ?thesis
    by (simp add: processMethodInfo_def cm_contains_find cm_get_present)
next
  case None
  from assms(2) obtain name signature sig where e: "GetMethodName env m = Some (name, signature)"
    "GetClassSignature env m = Some sig" "sig \<noteq> []"
    "f = \<lparr>sf_frame = name @ signature, sf_base = butlast sig\<rparr>"
    by (auto simp: pure_method_frame_def split: option.splits if_splits)
  from class_name_of_ok [OF assms(1) e(2,3)] obtain mt1
    where c: "class_name_of env m mt = Inr (butlast sig, mt1)" "tables_ok env mt1"
      "method_info_map mt1 = method_info_map mt"
      "cm_find m (class_info_map mt1) = Some (butlast sig)"
    by blast
  define mt2 where
    "mt2 = mt1\<lparr>method_info_map := snd (cm_insert m (name @ signature) (method_info_map mt1))\<rparr>"
  have "processMethodInfo env m mt = Inr (f, mt2)"
    using None c e cm_get_present [of m "snd (cm_insert m (name @ signature) (method_info_map mt))"]
    by (simp add: processMethodInfo_def cm_contains_find mt2_def Let_def split_def cm_find_insert)
  moreover have "tables_ok env mt2"
    using c e assms(2) by (auto simp: tables_ok_def mt2_def cm_find_insert)
  ultimately show ?thesis by blast
qed

lemma processProfilerMethodInfo_ok:
  assumes "tables_ok env mt" and "pure_frame env info = Some f"
  shows "\<exists>mt'. processProfilerMethodInfo env info mt = Inr (f, mt') \<and> tables_ok env mt'"
  using assms processMethodInfo_ok [OF assms(1), of "instruction info" f]
  by (auto simp: processProfilerMethodInfo_def pure_frame_def split: if_splits option.splits)

lemma process_methods_ok:
  assumes "tables_ok env mt" and "those (map (pure_method_frame env) ms) = Some fs"
  shows "\<exists>mt'. process_methods env ms mt = (Inr fs, mt') \<and> tables_ok env mt'"
  using assms
proof (induction ms arbitrary: mt fs)
  case Nil
  then show ?case by simp
next
  case (Cons m ms)
  then obtain f fs' where f: "pure_method_frame env m = Some f" "fs = f # fs'"
    "those (map (pure_method_frame env) ms) = Some fs'"
    by (auto split: option.splits)
  from processMethodInfo_ok [OF Cons.prems(1) f(1)] obtain mt1
    where "processMethodInfo env m mt = Inr (f, mt1)" "tables_ok env mt1" by blast
  with Cons.IH [of mt1 fs'] f show ?case by auto
qed

lemma process_instructions_ok:
  assumes "tables_ok env mt" and "\<forall>i\<in>set is. i < length instrs"
    and "those (map (\<lambda>i. pure_frame env (instrs ! i)) is) = Some fs"
  shows "\<exists>mt'. process_instructions env instrs is mt = (Inr fs, mt') \<and> tables_ok env mt'"
  using assms
proof (induction "is" arbitrary: mt fs)
  case Nil
  then show ?case by simp
next
  case (Cons i "is")
  then obtain f fs' where f: "pure_frame env (instrs ! i) = Some f" "fs = f # fs'"
    "those (map (\<lambda>i. pure_frame env (instrs ! i)) is) = Some fs'"
    by (auto split: option.splits)
  from processProfilerMethodInfo_ok [OF Cons.prems(1) f(1)] obtain mt1
    where "processProfilerMethodInfo env (instrs ! i) mt = Inr (f, mt1)" "tables_ok env mt1" by blast
  with Cons.IH [of mt1 fs'] Cons.prems(2) f show ?case by auto
qed

section \<open>When naming fails\<close>

lemma processMethodInfo_fails:
  assumes "tables_ok env mt" and "pure_method_frame env m = None"
  shows "\<exists>e. processMethodInfo env m mt = Inl e"
proof -
  have n: "cm_find m (method_info_map mt) = None"
    using assms(2) by (metis assms(1) not_Some_eq option.distinct(1) tables_ok_method)
  have c: "\<exists>sig. GetClassSignature env m = Some sig \<and> sig \<noteq> []"
    if "cm_find m (class_info_map mt) = Some k" for k
    using assms(1) that unfolding tables_ok_def by blast
  show ?thesis
  proof (cases "GetMethodName env m")
    case None
    with n show ?thesis by (simp add: processMethodInfo_def cm_contains_find)
  next
    case (Some p)
    then have g: "GetClassSignature env m = None \<or> GetClassSignature env m = Some []"
      using assms(2)
      by (auto simp: pure_method_frame_def split: option.splits if_splits prod.splits)
    then have "cm_find m (class_info_map mt) = None"
      using c by (cases "cm_find m (class_info_map mt)") auto
    with g have "\<exists>e. class_name_of env m mt = Inl e"
      by (auto simp: class_name_of_def cm_contains_find class_of_signature_def)
    with n Some show ?thesis
      by (auto simp: processMethodInfo_def cm_contains_find split: prod.splits)
  qed
qed

lemma processMethodInfo_cases:
  assumes "tables_ok env mt"
  obtains e where "pure_method_frame env m = None" and "processMethodInfo env m mt = Inl e"
  | f mt' where "pure_method_frame env m = Some f" and "processMethodInfo env m mt = Inr (f, mt')"
      and "tables_ok env mt'"
  using processMethodInfo_fails [OF assms, of m] processMethodInfo_ok [OF assms, of m]
  by (cases "pure_method_frame env m") blast+

lemma process_methods_fails:
  assumes "tables_ok env mt"
  shows "(\<exists>e. fst (process_methods env ms mt) = Inl e) \<longleftrightarrow>
      those (map (pure_method_frame env) ms) = None"
    and "tables_ok env (snd (process_methods env ms mt))"
  using assms
proof (induction ms arbitrary: mt)
  case Nil
  { case 1 then show ?case by simp }
  { case 2 then show ?case by simp }
next
  case (Cons m ms)
  have s: "abind r (\<lambda>fs mt. (Inr (f # fs), mt)) =
      (case fst r of Inl e \<Rightarrow> Inl e | Inr fs \<Rightarrow> Inr (f # fs), snd r)" for f r
    by (cases r; cases "fst r") auto
  { case 1
    from 1 show ?case
    proof (cases rule: processMethodInfo_cases [of env mt m])
      case (2 f mt')
      with Cons.IH(1) [of mt'] show ?thesis
        by (cases "fst (process_methods env ms mt')") (auto simp: s split: option.splits)
    qed simp_all }
  { case 2
    from 2 show ?case
    proof (cases rule: processMethodInfo_cases [of env mt m])
      case (2 f mt')
      with Cons.IH(2) [of mt'] show ?thesis by (simp add: s)
    qed (use 2 in simp_all) }
qed

lemma process_instructions_tables:
  "tables_ok env mt \<Longrightarrow> tables_ok env (snd (process_instructions env instrs is mt))"
proof (induction "is" arbitrary: mt)
  case Nil
  then show ?case by simp
next
  case (Cons i "is")
  have s: "snd (abind r (\<lambda>fs mt. (Inr (f # fs), mt))) = snd r" for f :: stack_frame and r
    by (cases r; cases "fst r") auto
  have "tables_ok env mt'" if "processProfilerMethodInfo env (instrs ! i) mt = Inr (f, mt')" for f mt'
    using that Cons.prems processMethodInfo_cases [OF Cons.prems, of "instruction (instrs ! i)"]
    by (auto simp: processProfilerMethodInfo_def split: if_splits option.splits)
  with Cons show ?case by (auto simp: s split: sum.splits)
qed

end
