(* ===== verification/Suspension_Plot.thy ===== *)
theory Suspension_Plot
  imports Storage_Refinement "HOL-Library.Multiset_Order"
begin

text \<open>
  \<open>utils/suspensionPlot.cpp\<close>: the trace file. \<open>write_perfetto\<close> turns the storage into a list of
  packets of the Perfetto format: a track for the trace, one for every garbage collection in its
  time window, and, for every coroutine that is reachable from the traced one through child
  coroutines, a track with its slice, a track with its samples and a track per suspension.

  The theory has the messages with the fields the code sets, the functions that append packets,
  and the breadth-first walk over the coroutines with its termination proof.
\<close>

section \<open>Messages\<close>

datatype event_type = Type_slice_begin | Type_slice_end | Type_instant

record debug_annotation =
  da_name :: string
  da_int_value :: "i64 option"

record track_descriptor =
  td_name :: string
  td_uuid :: u64

record track_event =
  te_type :: event_type
  te_name :: "string option"
  te_track_uuid :: u64
  te_flow_ids :: "u64 list"
  te_callstack :: "string list option"
  te_debug_annotations :: "debug_annotation list"

datatype packet_data = Track_descriptor track_descriptor | Track_event track_event

record trace_packet =
  tp_timestamp :: "u64 option"
  tp_trusted_packet_sequence_id :: i32
  tp_data :: packet_data

text \<open>What is written so far: the packets of the trace, and the counter the track numbers come from.\<close>

record plot =
  track_counter :: u64
  packets :: "trace_packet list"

definition descriptor_packet :: "i32 \<Rightarrow> string \<Rightarrow> u64 \<Rightarrow> trace_packet" where
  "descriptor_packet sequence_id name uuid =
     \<lparr>tp_timestamp = None, tp_trusted_packet_sequence_id = sequence_id,
      tp_data = Track_descriptor \<lparr>td_name = name, td_uuid = uuid\<rparr>\<rparr>"

definition event_packet :: "i32 \<Rightarrow> u64 \<Rightarrow> track_event \<Rightarrow> trace_packet" where
  "event_packet sequence_id timestamp event =
     \<lparr>tp_timestamp = Some timestamp, tp_trusted_packet_sequence_id = sequence_id,
      tp_data = Track_event event\<rparr>"

definition track_event_new :: "event_type \<Rightarrow> u64 \<Rightarrow> track_event" where
  "track_event_new ty uuid =
     \<lparr>te_type = ty, te_name = None, te_track_uuid = uuid, te_flow_ids = [], te_callstack = None,
      te_debug_annotations = []\<rparr>"

definition add_packets :: "trace_packet list \<Rightarrow> plot \<Rightarrow> plot" where
  "add_packets ps p = p\<lparr>packets := packets p @ ps\<rparr>"

definition next_track :: "plot \<Rightarrow> u64 \<times> plot" where
  "next_track p = (track_counter p + 1, p\<lparr>track_counter := track_counter p + 1\<rparr>)"

definition method_name :: "stack_frame \<Rightarrow> string" where
  "method_name f = sf_base f @ '':'' @ sf_frame f"

section \<open>Suspensions, samples, garbage collections\<close>

definition add_suspension ::
  "suspension_info \<Rightarrow> string \<Rightarrow> i32 \<Rightarrow> trace_time \<Rightarrow> plot \<Rightarrow> plot" where
  "add_suspension suspension coroutine_name sequence_id trace_end_time p =
     (let (track_id, p) = next_track p in
      add_packets
        [descriptor_packet sequence_id coroutine_name track_id,
         event_packet sequence_id (si_start suspension)
           ((track_event_new Type_slice_begin track_id)\<lparr>te_name := Some ''Suspension''\<rparr>),
         event_packet sequence_id (if si_end suspension \<noteq> 0 then si_end suspension else trace_end_time)
           ((track_event_new Type_slice_end track_id)
              \<lparr>te_callstack := Some (map method_name (si_stack_trace suspension))\<rparr>)] p)"

definition sample_frames :: "trace_info \<Rightarrow> processed_trace_record \<Rightarrow> string list" where
  "sample_frames info record =
     concat (map (\<lambda>f. if tt_ge (pr_time record) (ti_start info) \<and> tt_le (pr_time record) (ti_end info)
                      then [method_name f] else []) (pr_stack_trace record))"

definition add_sample ::
  "trace_info \<Rightarrow> i32 \<Rightarrow> u64 \<Rightarrow> processed_trace_record \<Rightarrow> plot \<Rightarrow> plot" where
  "add_sample info sequence_id track_id record p =
     (if pr_stack_trace record \<noteq> [] then
        add_packets
          [event_packet sequence_id (pr_time record)
             ((track_event_new Type_instant track_id)
                \<lparr>te_name := Some ''Stack trace'', te_callstack := Some (sample_frames info record)\<rparr>)] p
      else p)"

definition add_call_stack ::
  "processed_trace_record concurrent_list \<Rightarrow> trace_info \<Rightarrow> i32 \<Rightarrow> u64 \<Rightarrow> plot \<Rightarrow> plot" where
  "add_call_stack traces info sequence_id track_id =
     cl_forEach (add_sample info sequence_id track_id) traces"

definition add_gc_event :: "i32 \<Rightarrow> gc_event \<Rightarrow> plot \<Rightarrow> plot" where
  "add_gc_event sequence_id event p =
     (let (track_id, p) = next_track p in
      add_packets
        [descriptor_packet sequence_id ''GC'' track_id,
         event_packet sequence_id (gc_start_time event)
           ((track_event_new Type_slice_begin track_id)\<lparr>te_name := Some ''GC''\<rparr>),
         event_packet sequence_id (gc_end_time event) (track_event_new Type_slice_end track_id)] p)"

definition add_gc_info :: "trace_info \<Rightarrow> trace_storage \<Rightarrow> i32 \<Rightarrow> plot \<Rightarrow> plot" where
  "add_gc_info info storage sequence_id =
     findGcEvents (ti_start info) (ti_end info) (add_gc_event sequence_id) storage"

section \<open>Coroutines\<close>

definition coroutine_name :: "jlong \<Rightarrow> string" where
  "coroutine_name c = ''coroutine#'' @ to_string (sint c)"

definition coroutine_annotations :: "coroutine_info \<Rightarrow> debug_annotation list" where
  "coroutine_annotations ci =
     [\<lparr>da_name = ''Wall CPU time ms'',
       da_int_value = Some (duration_cast_down 1000000 (ci_wall_clock_running_time ci))\<rparr>,
      \<lparr>da_name = ''User CPU time ms'',
       da_int_value = Some (duration_cast_down 1000 (ci_cpu_user_clock_running_time_us ci))\<rparr>,
      \<lparr>da_name = ''System CPU time ms'',
       da_int_value = Some (duration_cast_down 1000 (ci_cpu_system_clock_running_time_us ci))\<rparr>]
     @ (if ci_voluntary_switches ci = 0
        then [\<lparr>da_name = ''Voluntary switches'', da_int_value = Some (ci_voluntary_switches ci)\<rparr>]
        else [])
     @ (if ci_involuntary_switches ci = 0
        then [\<lparr>da_name = ''Involuntary switches'', da_int_value = Some (ci_involuntary_switches ci)\<rparr>]
        else [])"

definition add_coroutine_slice ::
  "trace_info \<Rightarrow> i32 \<Rightarrow> jlong \<Rightarrow> jlong \<Rightarrow> coroutine_info \<Rightarrow> plot \<Rightarrow> plot" where
  "add_coroutine_slice info sequence_id coroutine_id parent ci p =
     (let (track_id, p) = next_track p in
      add_packets
        [descriptor_packet sequence_id (coroutine_name coroutine_id) track_id,
         event_packet sequence_id (if parent = 0 then ti_start info else ci_start ci)
           ((track_event_new Type_slice_begin track_id)
              \<lparr>te_name := Some (coroutine_name coroutine_id),
               te_flow_ids := (if parent = 0 then [coroutine_id] else [parent, coroutine_id]),
               te_debug_annotations := coroutine_annotations ci\<rparr>),
         event_packet sequence_id (if parent = 0 then ti_end info else ci_end ci)
           (track_event_new Type_slice_end track_id)] p)"

text \<open>The samples of a coroutine: \<open>getProcessedTraces\<close> gives a pointer that may be null.\<close>

definition add_samples ::
  "trace_info \<Rightarrow> trace_storage \<Rightarrow> i32 \<Rightarrow> jlong \<Rightarrow> plot \<Rightarrow> plot result" where
  "add_samples info s sequence_id coroutine_id p =
     rbind (getProcessedTraces coroutine_id s) (\<lambda>traces.
       let (samples_track_id, p) = next_track p;
           p = add_packets [descriptor_packet sequence_id ''Samples'' samples_track_id] p
       in case traces of
            None \<Rightarrow> Inr p
          | Some a \<Rightarrow>
              (case cells (processed_lists s) a of
                 None \<Rightarrow> Inl (Null_dereference ''add_call_stack'')
               | Some l \<Rightarrow> Inr (add_call_stack l info sequence_id samples_track_id p)))"

definition add_suspensions ::
  "trace_info \<Rightarrow> trace_storage \<Rightarrow> i32 \<Rightarrow> jlong \<Rightarrow> coroutine_info \<Rightarrow> plot \<Rightarrow> plot" where
  "add_suspensions info s sequence_id coroutine_id ci =
     cl_forEach
       (\<lambda>a p. case cells (suspensions s) a of
          Some si \<Rightarrow> add_suspension si (coroutine_name coroutine_id) sequence_id (ti_end info) p
        | None \<Rightarrow> p)
       (ci_suspensions_list ci)"

definition add_coroutine ::
  "trace_info \<Rightarrow> trace_storage \<Rightarrow> i32 \<Rightarrow> jlong \<Rightarrow> jlong \<Rightarrow> coroutine_info \<Rightarrow> plot \<Rightarrow> plot result" where
  "add_coroutine info s sequence_id coroutine_id parent ci p =
     rbind (add_samples info s sequence_id coroutine_id
              (add_coroutine_slice info sequence_id coroutine_id parent ci p))
       (\<lambda>p. Inr (add_suspensions info s sequence_id coroutine_id ci p))"

text \<open>The children of a coroutine go to the end of the queue unless they have been visited.\<close>

type_synonym coroutine_queue = "(jlong \<times> jlong) list"

definition push_children ::
  "trace_storage \<Rightarrow> jlong set \<Rightarrow> jlong \<Rightarrow> coroutine_queue \<Rightarrow> coroutine_queue result" where
  "push_children s visited coroutine_id q =
     (if containsChildCoroutineStorage coroutine_id s then
        (case fst (getChildCoroutines coroutine_id s) of
           None \<Rightarrow> Inl (Null_dereference ''add_trace_info'')
         | Some a \<Rightarrow>
             (case cells (child_lists s) a of
                None \<Rightarrow> Inl (Null_dereference ''add_trace_info'')
              | Some l \<Rightarrow>
                  Inr (cl_forEach (\<lambda>d q. if d \<notin> visited then q @ [(d, coroutine_id)] else q) l q)))
      else Inr q)"

text \<open>One round of the loop: what is left in the queue and what is written.\<close>

definition trace_info_round ::
  "trace_info \<Rightarrow> trace_storage \<Rightarrow> i32 \<Rightarrow> jlong set \<Rightarrow> jlong \<times> jlong \<Rightarrow> coroutine_queue \<times> plot \<Rightarrow>
     (coroutine_queue \<times> plot) result" where
  "trace_info_round info s sequence_id visited item st =
     (let (coroutine_id, parent) = item; (q, p) = st in
      case getCoroutineInfo coroutine_id s of
        None \<Rightarrow> Inr (q, p)
      | Some a \<Rightarrow>
          (case cells (coroutine_infos s) a of
             None \<Rightarrow> Inl (Null_dereference ''add_trace_info'')
           | Some ci \<Rightarrow>
               rbind (add_coroutine info s sequence_id coroutine_id parent ci p) (\<lambda>p.
               rbind (push_children s visited coroutine_id q) (\<lambda>q. Inr (q, p)))))"

text \<open>
  The identifiers that occur as children. There are finitely many, since the map is finite; this
  is what makes the walk end, also on a graph with shared children and cycles.
\<close>

definition child_ids :: "trace_storage \<Rightarrow> jlong set" where
  "child_ids s =
     (\<Union>(k, v)\<in>set (cm_map (child_coroutines_map s)).
        case v of None \<Rightarrow> {}
        | Some a \<Rightarrow> (case cells (child_lists s) a of None \<Rightarrow> {} | Some l \<Rightarrow> set (cl_list l)))"

lemma finite_child_ids: "finite (child_ids s)"
  by (auto simp: child_ids_def split: option.splits)

lemma forEach_push:
  "cl_forEach (\<lambda>d q. if d \<notin> V then q @ [(d, c)] else q) l q =
     q @ map (\<lambda>d. (d, c)) (filter (\<lambda>d. d \<notin> V) (cl_list l))"
proof -
  have "fold (\<lambda>d q. if d \<notin> V then q @ [(d, c)] else q) xs q =
     q @ map (\<lambda>d. (d, c)) (filter (\<lambda>d. d \<notin> V) xs)" for xs
    by (induction xs arbitrary: q) auto
  then show ?thesis by (simp add: cl_forEach_def)
qed

lemma push_children_eq:
  assumes "push_children s V c q = Inr q'"
  shows "\<exists>ds. q' = q @ map (\<lambda>d. (d, c)) ds \<and> set ds \<subseteq> child_ids s - V"
proof (cases "containsChildCoroutineStorage c s")
  case False
  with assms show ?thesis by (intro exI [of _ "[]"]) (simp add: push_children_def)
next
  case True
  with assms obtain a l where a: "fst (cm_get None c (child_coroutines_map s)) = Some a"
    and l: "cells (child_lists s) a = Some l"
    and q': "q' = q @ map (\<lambda>d. (d, c)) (filter (\<lambda>d. d \<notin> V) (cl_list l))"
    by (auto simp: push_children_def getChildCoroutines_def forEach_push Let_def split_def
        split: option.splits)
  from a True have "(c, Some a) \<in> set (cm_map (child_coroutines_map s))"
    by (auto simp: cm_get_def containsChildCoroutineStorage_def cm_contains_def map_of_SomeD
        split: option.splits)
  with l have "set (cl_list l) \<subseteq> child_ids s" by (force simp: child_ids_def)
  with q' show ?thesis by (intro exI [of _ "filter (\<lambda>d. d \<notin> V) (cl_list l)"]) auto
qed

lemma trace_info_round_queue:
  assumes "trace_info_round info s n V item (q, p) = Inr (q', p')"
  shows "\<exists>ds. q' = q @ map (\<lambda>d. (d, fst item)) ds \<and> set ds \<subseteq> child_ids s - V"
proof (cases "getCoroutineInfo (fst item) s")
  case None
  with assms show ?thesis by (intro exI [of _ "[]"]) (auto simp: trace_info_round_def split_def)
next
  case (Some a)
  with assms have "push_children s V (fst item) q = Inr q'"
    by (auto simp: trace_info_round_def split_def Let_def rbind_eq_Inr split: option.splits)
  then show ?thesis by (rule push_children_eq)
qed

text \<open>
  The measure of the walk gives every entry of the queue a rank: twice the number of identifiers
  not yet visited, plus one if its own identifier has been visited. A round replaces one entry by
  entries of lower rank and raises the rank of no other.
\<close>

definition walk_universe :: "trace_storage \<Rightarrow> jlong set \<Rightarrow> coroutine_queue \<Rightarrow> jlong set" where
  "walk_universe s V q = child_ids s \<union> fst ` set q \<union> V"

definition walk_rank :: "jlong set \<Rightarrow> jlong set \<Rightarrow> jlong \<times> jlong \<Rightarrow> nat" where
  "walk_rank U V item = 2 * card (U - V) + (if fst item \<in> V then 1 else 0)"

definition walk_measure :: "trace_storage \<Rightarrow> jlong set \<Rightarrow> coroutine_queue \<Rightarrow> nat multiset" where
  "walk_measure s V q = image_mset (walk_rank (walk_universe s V q) V) (mset q)"

lemma walk_card_insert:
  assumes "finite (U :: jlong set)" and "c \<in> U" and "c \<notin> V"
  shows "card (U - V) = Suc (card (U - insert c V))"
proof -
  have "U - V = insert c (U - insert c V)" using assms by auto
  then show ?thesis using assms(1) by simp
qed

lemma walk_rank_mono:
  assumes "finite (U :: jlong set)" and "c \<in> U"
  shows "walk_rank U (insert c V) x \<le> walk_rank U V x"
proof (cases "c \<in> V")
  case True
  then show ?thesis by (simp add: insert_absorb)
next
  case False
  from walk_card_insert [OF assms this] show ?thesis by (simp add: walk_rank_def)
qed

lemma walk_rank_child:
  assumes "finite (U :: jlong set)" and "c \<in> U" and "d \<notin> insert c V"
  shows "walk_rank U (insert c V) (d, e) < walk_rank U V (c, p)"
proof (cases "c \<in> V")
  case True
  with assms(3) show ?thesis by (simp add: walk_rank_def insert_absorb)
next
  case False
  from walk_card_insert [OF assms(1,2) this] False assms(3) show ?thesis by (simp add: walk_rank_def)
qed

lemma image_mset_le:
  fixes f g :: "'a \<Rightarrow> nat"
  assumes "\<And>x. f x \<le> g x"
  shows "image_mset f M \<le> image_mset g M"
proof (induction M)
  case empty
  show ?case by simp
next
  case (add x M)
  have "{#f x#} \<le> {#g x#}" using assms [of x] by (simp add: le_less)
  from add_mono [OF this add] show ?case by simp
qed

lemma all_smaller_less_multiset:
  fixes N :: "nat multiset"
  assumes "\<And>y. y \<in># N \<Longrightarrow> y < x"
  shows "N < {#x#}"
  using assms one_step_implies_multp [of "{#x#}" N "(<)" "{#}"] by (simp add: less_multiset_def)

lemma walk_measure_decreases:
  assumes "trace_info_round info s n (insert c V) (c, e) (q, p) = Inr (q', p')"
  shows "walk_measure s (insert c V) q' < walk_measure s V ((c, e) # q)"
proof -
  from trace_info_round_queue [OF assms] obtain ds
    where q': "q' = q @ map (\<lambda>d. (d, c)) ds" and ds: "set ds \<subseteq> child_ids s - insert c V"
    by auto
  define U where "U = walk_universe s V ((c, e) # q)"
  have U': "walk_universe s (insert c V) q' = U"
    using ds by (auto simp: U_def q' walk_universe_def)
  have c: "c \<in> U" by (simp add: U_def walk_universe_def)
  have "V \<subseteq> U" by (auto simp: U_def walk_universe_def)
  have fin: "finite U" by simp
  have "image_mset (walk_rank U (insert c V)) (mset q) \<le> image_mset (walk_rank U V) (mset q)"
    by (rule image_mset_le) (rule walk_rank_mono [OF fin c])
  moreover have "image_mset (walk_rank U (insert c V)) (mset (map (\<lambda>d. (d, c)) ds))
      < {#walk_rank U V (c, e)#}"
    using ds by (intro all_smaller_less_multiset) (auto intro!: walk_rank_child [OF fin c])
  ultimately have "image_mset (walk_rank U (insert c V)) (mset q)
      + image_mset (walk_rank U (insert c V)) (mset (map (\<lambda>d. (d, c)) ds))
      < image_mset (walk_rank U V) (mset q) + {#walk_rank U V (c, e)#}"
    by (rule add_le_less_mono)
  then show ?thesis
    unfolding walk_measure_def U' U_def [symmetric] by (simp add: q')
qed

function add_trace_info_loop ::
  "trace_info \<Rightarrow> trace_storage \<Rightarrow> i32 \<Rightarrow> jlong set \<Rightarrow> coroutine_queue \<Rightarrow> plot \<Rightarrow> plot result" where
  "add_trace_info_loop info s sequence_id visited [] p = Inr p"
| "add_trace_info_loop info s sequence_id visited ((c, e) # q) p =
     (case trace_info_round info s sequence_id (insert c visited) (c, e) (q, p) of
        Inl err \<Rightarrow> Inl err
      | Inr (q', p') \<Rightarrow> add_trace_info_loop info s sequence_id (insert c visited) q' p')"
  by pat_completeness auto
termination
  by (relation "inv_image {(x, y). x < y} (\<lambda>(info, s, n, V, q, p). walk_measure s V q)")
    (auto simp: wfp_def [symmetric] walk_measure_decreases)

definition add_trace_info ::
  "trace_info \<Rightarrow> trace_storage \<Rightarrow> i32 \<Rightarrow> plot \<Rightarrow> plot result" where
  "add_trace_info info s sequence_id =
     add_trace_info_loop info s sequence_id {} [(ti_coroutine_id info, 0)]"

section \<open>The trace file\<close>

text \<open>
  The packets \<open>write_perfetto\<close> serialises. The garbage collections get the number of the trace's
  track as their sequence number, which is \<open>1\<close> like the constant used everywhere else.
\<close>

definition trusted_sequence_id :: i32 where
  "trusted_sequence_id = 1"

definition write_perfetto :: "trace_info \<Rightarrow> trace_storage \<Rightarrow> trace_packet list result" where
  "write_perfetto info s =
     (let (track_id, p) = next_track \<lparr>track_counter = 0, packets = []\<rparr>;
          p = add_packets
            [descriptor_packet trusted_sequence_id ''Trace'' track_id,
             event_packet trusted_sequence_id (ti_start info)
               ((track_event_new Type_slice_begin track_id)
                  \<lparr>te_name := Some ''Trace'',
                   te_debug_annotations := [\<lparr>da_name = ''Trace'', da_int_value = None\<rparr>]\<rparr>),
             event_packet trusted_sequence_id (ti_end info)
               (track_event_new Type_slice_end track_id)] p;
          p = add_gc_info info s (ucast track_id) p
      in rbind (add_trace_info info s trusted_sequence_id p) (\<lambda>p. Inr (packets p)))"

end
