(* ===== verification/Profiler.thy ===== *)
theory Profiler
  imports Jvm_Threads Resource_Usage Method_Tables Suspension_Plot
begin

text \<open>
  \<open>profiler/profiler.hpp\<close> and \<open>profiler/profiler.cpp\<close>: the profiler and its event handlers. A
  handler runs on some thread \<open>self\<close>; every clock reading, resource reading and stack trace it
  takes is an argument, in the order in which it takes them. Handlers are actions: they return the
  exception they throw, if any, together with the state they leave. Code that only runs in debug
  builds (\<open>logDebug\<close>) is not part of the model.
\<close>

section \<open>State\<close>

record profiler =
  pf_jvm :: jvm_threads
  pf_storage :: trace_storage
  pf_tables :: method_tables
  pf_active :: bool
  pf_threshold :: i64
  pf_interval :: i64
  pf_output_path :: string
  pf_output_counter :: i32
  current_coroutine_id :: "pthread_t \<Rightarrow> i64"
  current_rusage :: "pthread_t \<Rightarrow> rusage"
  pf_files :: "(string \<times> trace_packet list) list"

text \<open>
  \<open>current_coroutine_id\<close> and \<open>current_rusage_\<close> are thread local. \<open>pf_files\<close> is the sequence of
  files that \<open>write_perfetto\<close> has written.
\<close>

definition NOT_FOUND :: i64 where
  "NOT_FOUND = -1"

definition profiler_new :: "jvm_threads \<Rightarrow> i64 \<Rightarrow> string \<Rightarrow> i64 \<Rightarrow> profiler" where
  "profiler_new jvm threshold output_path interval =
     \<lparr>pf_jvm = jvm, pf_storage = storage_new, pf_tables = method_tables_new, pf_active = False,
      pf_threshold = threshold, pf_interval = interval, pf_output_path = output_path,
      pf_output_counter = 0, current_coroutine_id = (\<lambda>_. NOT_FOUND),
      current_rusage = (\<lambda>_. rusage_zero), pf_files = []\<rparr>"

text \<open>\<open>create\<close> keeps the instance that exists.\<close>

definition profiler_create ::
  "jvm_threads \<Rightarrow> i64 \<Rightarrow> string \<Rightarrow> i64 \<Rightarrow> profiler option \<Rightarrow> profiler" where
  "profiler_create jvm threshold output_path interval instance0 =
     (case instance0 of Some pf \<Rightarrow> pf | None \<Rightarrow> profiler_new jvm threshold output_path interval)"

text \<open>\<open>startProfiler\<close> starts a thread only when the flag was clear; \<open>stop\<close> clears the flag.\<close>

definition startProfiler :: "profiler \<Rightarrow> bool \<times> profiler" where
  "startProfiler pf = (\<not> pf_active pf, pf\<lparr>pf_active := True\<rparr>)"

definition stop :: "profiler \<Rightarrow> profiler" where
  "stop pf = pf\<lparr>pf_active := False\<rparr>"

text \<open>The hash functions of the standard library for \<open>std::thread::id\<close> and for \<open>pthread_t\<close>.\<close>

record hash_env =
  hash_thread_id :: "pthread_t \<Rightarrow> jlong"
  hash_pthread :: "pthread_t \<Rightarrow> jlong"

section \<open>Traces\<close>

text \<open>The identifier \<open>-2\<close> stands for a function that is not suspending.\<close>

definition trace_id :: "hash_env \<Rightarrow> pthread_t \<Rightarrow> jlong \<Rightarrow> jlong" where
  "trace_id he self coroutine_id = (if coroutine_id = -2 then hash_thread_id he self else coroutine_id)"

definition traceStart ::
  "hash_env \<Rightarrow> pthread_t \<Rightarrow> trace_time \<Rightarrow> trace_time \<Rightarrow> trace_time \<Rightarrow> jlong \<Rightarrow>
     (profiler, unit) action" where
  "traceStart he self t1 t2 start coroutine_id pf =
     (let pf = (if coroutine_id = -2
                then pf\<lparr>pf_storage := createCoroutineInfo t1 t2 (hash_thread_id he self) (pf_storage pf)\<rparr>
                else pf);
          coroutine_id = trace_id he self coroutine_id
      in case findThread self (pf_jvm pf) of
           None \<Rightarrow> (Inl (Null_dereference ''traceStart''), pf)
         | Some a \<Rightarrow>
             (let pf = pf\<lparr>pf_jvm := add_current_traces 1 a (pf_jvm pf)\<rparr>;
                  trace_info = \<lparr>ti_coroutine_id = coroutine_id, ti_start = start, ti_end = 0\<rparr>;
                  s = createChildCoroutineStorage coroutine_id (pf_storage pf);
                  (added, s) = addOngoingTraceInfo trace_info s;
                  pf = pf\<lparr>pf_storage := s\<rparr>
              in if added then (Inr (), pf)
                 else (Inl (Runtime_error
                         (''Found trace that already started: '' @ to_string (sint coroutine_id))), pf)))"

text \<open>Charging the thread's resource usage to a coroutine.\<close>

definition charge_usage ::
  "pthread_t \<Rightarrow> trace_time \<Rightarrow> usage_reading \<Rightarrow> addr \<Rightarrow> profiler \<Rightarrow> profiler" where
  "charge_usage self now reading c pf =
     (case cells (coroutine_infos (pf_storage pf)) c of
        None \<Rightarrow> pf
      | Some ci \<Rightarrow>
          (let (ci', ru) = calculate_resource_usage now reading (current_rusage pf self) ci
           in pf\<lparr>pf_storage := update_coroutine c (\<lambda>_. ci') (pf_storage pf),
                 current_rusage := (current_rusage pf)(self := ru)\<rparr>))"

definition trace_file :: "profiler \<Rightarrow> string" where
  "trace_file pf =
     pf_output_path pf @ ''/trace'' @ to_string (sint (pf_output_counter pf)) @ ''.pftrace''"

definition findOngoingTrace :: "jlong \<Rightarrow> profiler \<Rightarrow> trace_info \<times> profiler" where
  "findOngoingTrace coroutine_id pf =
     (let (info, s) = findOngoingTraceInfo coroutine_id (pf_storage pf)
      in (info, pf\<lparr>pf_storage := s\<rparr>))"

definition removeOngoingTrace :: "jlong \<Rightarrow> profiler \<Rightarrow> profiler" where
  "removeOngoingTrace coroutine_id pf =
     pf\<lparr>pf_storage := removeOngoingTraceInfo coroutine_id (pf_storage pf)\<rparr>"

text \<open>\<open>write_perfetto\<close> on the next file name; the counter advances first.\<close>

definition write_trace :: "trace_info \<Rightarrow> (profiler, unit) action" where
  "write_trace info pf =
     (let path = trace_file pf; pf = pf\<lparr>pf_output_counter := pf_output_counter pf + 1\<rparr> in
      case write_perfetto info (pf_storage pf) of
        Inl e \<Rightarrow> (Inl e, pf)
      | Inr ks \<Rightarrow> (Inr (), pf\<lparr>pf_files := pf_files pf @ [(path, ks)]\<rparr>))"

definition traceEnd ::
  "hash_env \<Rightarrow> pthread_t \<Rightarrow> trace_time \<Rightarrow> usage_reading \<Rightarrow> trace_time \<Rightarrow> jlong \<Rightarrow>
     (profiler, unit) action" where
  "traceEnd he self now reading finish coroutine_id pf =
     (case findThread self (pf_jvm pf) of
        None \<Rightarrow> (Inl (Null_dereference ''traceEnd''), pf)
      | Some a \<Rightarrow>
          (let pf = pf\<lparr>pf_jvm := add_current_traces (-1) a (pf_jvm pf)\<rparr>;
               coroutine_id = trace_id he self coroutine_id
           in case getCoroutineInfo coroutine_id (pf_storage pf) of
                None \<Rightarrow> (Inr (), pf)
              | Some c \<Rightarrow>
                  (let pf = charge_usage self now reading c pf;
                       (info, pf) = findOngoingTrace coroutine_id pf;
                       info = info\<lparr>ti_end := finish\<rparr>;
                       pf = removeOngoingTrace (ti_coroutine_id info) pf;
                       elapsed = tt_minus (ti_end info) (ti_start info)
                   in if sint elapsed > sint (pf_threshold pf) then write_trace info pf
                      else (Inr (), pf))))"

section \<open>Coroutines\<close>

definition coroutineCreated ::
  "pthread_t \<Rightarrow> trace_time \<Rightarrow> trace_time \<Rightarrow> jlong \<Rightarrow> (profiler, unit) action" where
  "coroutineCreated self t1 t2 coroutine_id pf =
     (let parent_id = current_coroutine_id pf self;
          s = createCoroutineInfo t1 t2 coroutine_id (pf_storage pf)
      in if containsChildCoroutineStorage parent_id s then
           (case addChildCoroutine coroutine_id parent_id s of
              Inl e \<Rightarrow> (Inl e, pf\<lparr>pf_storage := s\<rparr>)
            | Inr s \<Rightarrow> (Inr (), pf\<lparr>pf_storage := createChildCoroutineStorage coroutine_id s\<rparr>))
         else (Inr (), pf\<lparr>pf_storage := s\<rparr>))"

text \<open>
  \<open>COROUTINE_SUSPENSION_STACK_DEPTH\<close> frames are asked for; \<open>frames\<close> is the answer of
  \<open>GetStackTrace\<close>, or nothing when it fails.
\<close>

definition suspension_stack_depth :: nat where
  "suspension_stack_depth = 60"

definition pause_coroutine ::
  "pthread_t \<Rightarrow> trace_time \<Rightarrow> usage_reading \<Rightarrow> addr \<Rightarrow> profiler \<Rightarrow> profiler" where
  "pause_coroutine self now reading c pf =
     (case cells (coroutine_infos (pf_storage pf)) c of
        None \<Rightarrow> pf
      | Some ci \<Rightarrow>
          if sint (ci_last_resume ci) > 0 then
            (let pf = charge_usage self now reading c pf
             in pf\<lparr>pf_storage := update_coroutine c (\<lambda>ci. ci\<lparr>ci_last_resume := 0\<rparr>) (pf_storage pf)\<rparr>)
          else pf)"

definition record_suspension ::
  "method_env \<Rightarrow> trace_time \<Rightarrow> jmethodID list \<Rightarrow> jlong \<Rightarrow> (profiler, unit) action" where
  "record_suspension env start methods coroutine_id pf =
     (case process_methods env methods (pf_tables pf) of
        (Inl e, mt) \<Rightarrow> (Inl e, pf\<lparr>pf_tables := mt\<rparr>)
      | (Inr frames, mt) \<Rightarrow>
          (let pf = pf\<lparr>pf_tables := mt\<rparr>;
               suspension = \<lparr>si_coroutine_id = coroutine_id, si_start = start, si_end = 0,
                             si_stack_trace = frames\<rparr>
           in case addSuspensionInfo suspension (pf_storage pf) of
                Inl e \<Rightarrow> (Inl e, pf)
              | Inr s \<Rightarrow> (Inr (), pf\<lparr>pf_storage := s\<rparr>)))"

definition coroutineSuspended ::
  "method_env \<Rightarrow> pthread_t \<Rightarrow> trace_time \<Rightarrow> usage_reading \<Rightarrow> jmethodID list option \<Rightarrow> trace_time \<Rightarrow>
     jlong \<Rightarrow> (profiler, unit) action" where
  "coroutineSuspended env self now reading frames start coroutine_id pf =
     (let pf = pf\<lparr>current_coroutine_id := (current_coroutine_id pf)(self := NOT_FOUND)\<rparr> in
      case getCoroutineInfo coroutine_id (pf_storage pf) of
        None \<Rightarrow> (Inr (), pf)
      | Some c \<Rightarrow>
          (let pf = pause_coroutine self now reading c pf in
           case frames of
             None \<Rightarrow> (Inr (), pf)
           | Some methods \<Rightarrow>
               (let methods = take suspension_stack_depth methods in
                if length methods \<ge> 1 then record_suspension env start methods coroutine_id pf
                else (Inr (), pf))))"

definition coroutineResumed ::
  "pthread_t \<Rightarrow> usage_reading \<Rightarrow> trace_time \<Rightarrow> trace_time \<Rightarrow> jlong \<Rightarrow> (profiler, unit) action" where
  "coroutineResumed self reading now now' coroutine_id pf =
     (let pf = pf\<lparr>current_coroutine_id := (current_coroutine_id pf)(self := coroutine_id)\<rparr> in
      case getCoroutineInfo coroutine_id (pf_storage pf) of
        None \<Rightarrow> (Inr (), pf)
      | Some c \<Rightarrow>
          (let pf = pf\<lparr>current_rusage :=
                 (current_rusage pf)(self := update_perf_counters reading (current_rusage pf self))\<rparr>;
               pf = pf\<lparr>pf_storage :=
                 update_coroutine c (\<lambda>ci. ci\<lparr>ci_last_resume := now\<rparr>) (pf_storage pf)\<rparr>
           in case getLastSuspensionInfo coroutine_id (pf_storage pf) of
                Inl e \<Rightarrow> (Inl e, pf)
              | Inr None \<Rightarrow> (Inr (), pf)
              | Inr (Some a) \<Rightarrow>
                  (Inr (), pf\<lparr>pf_storage :=
                     update_suspension a (\<lambda>si. si\<lparr>si_end := now'\<rparr>) (pf_storage pf)\<rparr>)))"

definition coroutineCompleted ::
  "pthread_t \<Rightarrow> trace_time \<Rightarrow> trace_time \<Rightarrow> usage_reading \<Rightarrow> jlong \<Rightarrow> (profiler, unit) action" where
  "coroutineCompleted self finish now reading coroutine_id pf =
     (let pf = pf\<lparr>current_coroutine_id := (current_coroutine_id pf)(self := NOT_FOUND)\<rparr> in
      case getCoroutineInfo coroutine_id (pf_storage pf) of
        None \<Rightarrow> (Inr (), pf)
      | Some c \<Rightarrow>
          (let pf = pf\<lparr>pf_storage :=
                 update_coroutine c (\<lambda>ci. ci\<lparr>ci_end := finish\<rparr>) (pf_storage pf)\<rparr>
           in (Inr (), charge_usage self now reading c pf)))"

section \<open>Garbage collection\<close>

definition gcStart :: "trace_time \<Rightarrow> (profiler, unit) action" where
  "gcStart now pf = (Inr (), pf\<lparr>pf_storage := storage_gcStart now (pf_storage pf)\<rparr>)"

definition gcFinish :: "trace_time \<Rightarrow> (profiler, unit) action" where
  "gcFinish now pf =
     (case storage_gcFinish now (pf_storage pf) of
        Inl e \<Rightarrow> (Inl e, pf)
      | Inr s \<Rightarrow> (Inr (), pf\<lparr>pf_storage := s\<rparr>))"

section \<open>Samples\<close>

text \<open>
  One raw record: its thread must still be found (a missing thread is reported through its own
  name), its frames are named, and the result is filed under the coroutine of the sample.
\<close>

definition thread_name :: "ptr \<Rightarrow> jvm_threads \<Rightarrow> string result" where
  "thread_name p j =
     (case p of
        None \<Rightarrow> Inl (Null_dereference ''processTraces'')
      | Some a \<Rightarrow> (case cells (thread_heap j) a of
                    None \<Rightarrow> Inl (Null_dereference ''processTraces'')
                  | Some t \<Rightarrow> Inr (th_name t)))"

definition record_frames ::
  "method_env \<Rightarrow> raw_call_trace_record \<Rightarrow> (method_tables, stack_frame list) action" where
  "record_frames env raw mt =
     (let indices = [0..<nat (sint (rr_trace_count raw))] in
      case rr_trace raw of
        None \<Rightarrow> if indices = [] then (Inr [], mt) else (Inl (Null_dereference ''trace''), mt)
      | Some trace \<Rightarrow> process_instructions env (at_instructions trace) indices mt)"

definition process_record ::
  "method_env \<Rightarrow> raw_call_trace_record \<Rightarrow> (profiler, unit) action" where
  "process_record env raw pf =
     (case thread_name (findThread (rr_thread raw) (pf_jvm pf)) (pf_jvm pf) of
        Inl e \<Rightarrow> (Inl e, pf)
      | Inr name \<Rightarrow>
          (case record_frames env raw (pf_tables pf) of
             (Inl e, mt) \<Rightarrow> (Inl e, pf\<lparr>pf_tables := mt\<rparr>)
           | (Inr frames, mt) \<Rightarrow>
               (let pf = pf\<lparr>pf_tables := mt\<rparr>;
                    processed = \<lparr>pr_stack_trace = frames, pr_thread_name = name, pr_time = rr_time raw\<rparr>
                in case addProcessedTrace (rr_coroutine_id raw) processed (pf_storage pf) of
                     Inl e \<Rightarrow> (Inl e, pf)
                   | Inr s \<Rightarrow> (Inr (), pf\<lparr>pf_storage := s\<rparr>))))"

lemma addProcessedTrace_raw_list: "addProcessedTrace c r s = Inr s' \<Longrightarrow> raw_list s' = raw_list s"
  by (auto simp: addProcessedTrace_def rbind_eq_Inr Let_def split_def split: if_splits option.splits)

lemma process_record_raw_list:
  "raw_list (pf_storage (snd (process_record env raw pf))) = raw_list (pf_storage pf)"
  by (auto simp: process_record_def Let_def addProcessedTrace_raw_list split: sum.splits prod.splits)

lemma process_record_keeps:
  "(x, pf') = process_record env raw pf \<Longrightarrow> raw_list (pf_storage pf') = raw_list (pf_storage pf)"
  using process_record_raw_list [of env raw pf] by (metis snd_conv)

lemma removeRawTraceHeader_shrinks:
  "removeRawTraceHeader s = Inr (Some r, s') \<Longrightarrow>
     length (cl_list (raw_list s')) < length (cl_list (raw_list s))"
  by (auto simp: removeRawTraceHeader_def rbind_eq_Inr cl_pop_front_cases split: list.splits)

function processTraces :: "method_env \<Rightarrow> (profiler, unit) action" where
  "processTraces env pf =
     (case removeRawTraceHeader (pf_storage pf) of
        Inl e \<Rightarrow> (Inl e, pf)
      | Inr (None, s) \<Rightarrow> (Inr (), pf\<lparr>pf_storage := s\<rparr>)
      | Inr (Some raw, s) \<Rightarrow>
          (case process_record env raw (pf\<lparr>pf_storage := s\<rparr>) of
             (Inl e, pf) \<Rightarrow> (Inl e, pf)
           | (Inr _, pf) \<Rightarrow> processTraces env pf))"
  by pat_completeness auto
termination
  by (relation "measure (\<lambda>(env, pf). length (cl_list (raw_list (pf_storage pf))))")
    (auto dest!: removeRawTraceHeader_shrinks process_record_keeps)

declare processTraces.simps [simp del]

end
