(* ===== verification/Plot_Structure.thy ===== *)
theory Plot_Structure
  imports Suspension_Plot
begin

text \<open>
  What is in a trace file: writing never fails on a well-formed storage, the packets are grouped
  by tracks with consecutive numbers, every slice is opened and closed once on its own track, and
  the coroutines that are drawn are exactly the known coroutines reachable from the traced one.
\<close>

section \<open>Groups of packets\<close>

definition packet_event :: "trace_packet \<Rightarrow> track_event option" where
  "packet_event k = (case tp_data k of Track_event e \<Rightarrow> Some e | Track_descriptor _ \<Rightarrow> None)"

definition events :: "trace_packet list \<Rightarrow> track_event list" where
  "events ks = List.map_filter packet_event ks"

definition track_types :: "event_type list \<Rightarrow> bool" where
  "track_types ts \<longleftrightarrow> ts = [Type_slice_begin, Type_slice_end] \<or> (\<forall>t\<in>set ts. t = Type_instant)"

text \<open>
  A track: its descriptor, then its events, which are either one slice or only instants.
\<close>

definition track_group :: "u64 \<Rightarrow> trace_packet list \<Rightarrow> bool" where
  "track_group t ks \<longleftrightarrow>
     (case ks of
        [] \<Rightarrow> False
      | d # es \<Rightarrow>
          (case tp_data d of Track_descriptor td \<Rightarrow> td_uuid td = t | Track_event _ \<Rightarrow> False)
          \<and> (\<forall>k\<in>set es. \<exists>e. tp_data k = Track_event e \<and> te_track_uuid e = t \<and> tp_timestamp k \<noteq> None)
          \<and> track_types (map te_type (events es)))"

inductive plot_extends :: "plot \<Rightarrow> plot \<Rightarrow> bool" where
  refl: "plot_extends p p"
| track: "\<lbrakk>plot_extends p p'; track_group (track_counter p' + 1) ks\<rbrakk> \<Longrightarrow>
     plot_extends p (add_packets ks (p'\<lparr>track_counter := track_counter p' + 1\<rparr>))"

lemma events_simps [simp]:
  "events [] = []"
  "events (descriptor_packet n name t # ks) = events ks"
  "events (event_packet n ts e # ks) = e # events ks"
  "events (ks @ ks') = events ks @ events ks'"
  by (simp_all add: events_def packet_event_def descriptor_packet_def event_packet_def
      List.map_filter_def)

lemma track_event_new_simps [simp]:
  "te_type (track_event_new ty t) = ty" "te_track_uuid (track_event_new ty t) = t"
  "te_flow_ids (track_event_new ty t) = []"
  by (simp_all add: track_event_new_def)

lemma add_packets_simps [simp]:
  "packets (add_packets ks p) = packets p @ ks"
  "track_counter (add_packets ks p) = track_counter p"
  "add_packets ks' (add_packets ks p) = add_packets (ks @ ks') p"
  "add_packets [] p = p"
  by (simp_all add: add_packets_def)

lemma plot_extends_trans: "plot_extends p' p'' \<Longrightarrow> plot_extends p p' \<Longrightarrow> plot_extends p p''"
  by (induction rule: plot_extends.induct) (auto intro: plot_extends.intros)

lemma extends_track:
  "track_group (track_counter p + 1) ks \<Longrightarrow>
     plot_extends p (add_packets ks (p\<lparr>track_counter := track_counter p + 1\<rparr>))"
  by (rule plot_extends.track [OF plot_extends.refl])

lemma extends_fold:
  assumes "\<And>x p. plot_extends p (f x p)"
  shows "plot_extends p (fold f xs p)"
proof (induction xs arbitrary: p)
  case Nil
  show ?case by (simp add: plot_extends.refl)
next
  case (Cons x xs)
  show ?case using plot_extends_trans [OF Cons assms] by simp
qed

lemma extends_suspension: "plot_extends p (add_suspension si name n t p)"
  unfolding add_suspension_def Let_def next_track_def split_conv
  by (rule extends_track)
    (simp add: track_group_def descriptor_packet_def event_packet_def track_types_def events_def
      packet_event_def List.map_filter_def)

lemma extends_gc_event: "plot_extends p (add_gc_event n e p)"
  unfolding add_gc_event_def Let_def next_track_def split_conv
  by (rule extends_track)
    (simp add: track_group_def descriptor_packet_def event_packet_def track_types_def events_def
      packet_event_def List.map_filter_def)

lemma extends_slice: "plot_extends p (add_coroutine_slice info n c e ci p)"
  unfolding add_coroutine_slice_def Let_def next_track_def split_conv
  by (rule extends_track)
    (simp add: track_group_def descriptor_packet_def event_packet_def track_types_def events_def
      packet_event_def List.map_filter_def)

lemma extends_gc_info: "plot_extends p (add_gc_info info s n p)"
  by (auto simp: add_gc_info_def findGcEvents_def cl_forEachFiltered_eq extends_gc_event
      plot_extends.refl intro!: extends_fold split: option.splits)

lemma extends_suspensions: "plot_extends p (add_suspensions info s n c ci p)"
  by (auto simp: add_suspensions_def cl_forEach_def extends_suspension plot_extends.refl
      intro!: extends_fold split: option.splits)

text \<open>The packets of the samples of a list.\<close>

definition sample_packets ::
  "trace_info \<Rightarrow> i32 \<Rightarrow> u64 \<Rightarrow> processed_trace_record list \<Rightarrow> trace_packet list" where
  "sample_packets info n t rs =
     map (\<lambda>r. event_packet n (pr_time r)
        ((track_event_new Type_instant t)
           \<lparr>te_name := Some ''Stack trace'', te_callstack := Some (sample_frames info r)\<rparr>))
       (filter (\<lambda>r. pr_stack_trace r \<noteq> []) rs)"

lemma add_call_stack_eq:
  "add_call_stack l info n t p = add_packets (sample_packets info n t (cl_list l)) p"
proof -
  have "fold (add_sample info n t) rs p = add_packets (sample_packets info n t rs) p" for rs
    by (induction rs arbitrary: p) (simp_all add: add_sample_def sample_packets_def)
  then show ?thesis by (simp add: add_call_stack_def cl_forEach_def)
qed

lemma events_sample_packets:
  "map te_type (events (sample_packets info n t rs)) =
     replicate (length (filter (\<lambda>r. pr_stack_trace r \<noteq> []) rs)) Type_instant"
  "concat (map te_flow_ids (events (sample_packets info n t rs))) = []"
  by (induction rs) (simp_all add: sample_packets_def)

lemma sample_group:
  "track_group t (descriptor_packet n name t # sample_packets info n t rs)"
proof -
  have "track_types (map te_type (events (sample_packets info n t rs)))"
    by (simp add: track_types_def events_sample_packets)
  moreover have "\<forall>k\<in>set (sample_packets info n t rs).
      \<exists>e. tp_data k = Track_event e \<and> te_track_uuid e = t \<and> tp_timestamp k \<noteq> None"
    by (simp add: sample_packets_def event_packet_def)
  ultimately show ?thesis by (simp add: track_group_def descriptor_packet_def)
qed

section \<open>Writing does not fail\<close>

lemma add_samples_total:
  assumes "storage_ok s"
  shows "\<exists>t rs. add_samples info s n c p =
    Inr (add_packets (descriptor_packet n ''Samples'' (track_counter p + 1)
           # sample_packets info n (track_counter p + 1) rs)
         (p\<lparr>track_counter := track_counter p + 1\<rparr>))"
proof (cases "cm_contains c (processed_map s)")
  case True
  then obtain a l where "cm_find c (processed_map s) = Some (Some a)"
    and "cells (processed_lists s) a = Some l"
    using om_object [OF storage_okD(1,2) [OF assms]] by metis
  with True show ?thesis
    by (auto simp: add_samples_def getProcessedTraces_def cm_at_find Let_def next_track_def
        add_call_stack_eq)
next
  case False
  then show ?thesis
    by (auto simp: add_samples_def getProcessedTraces_def Let_def next_track_def sample_packets_def
        intro: exI [of _ "[]"])
qed

lemma extends_samples:
  assumes "storage_ok s" and "add_samples info s n c p = Inr p'"
  shows "plot_extends p p'"
  using add_samples_total [OF assms(1), of info n c p] assms(2)
  by (auto intro!: extends_track sample_group)

section \<open>The coroutines that are drawn\<close>

text \<open>
  The slice of a coroutine carries its identifier as its last flow identifier; no other event has
  flow identifiers.
\<close>

definition event_coroutine :: "track_event \<Rightarrow> jlong option" where
  "event_coroutine e = (if te_flow_ids e = [] then None else Some (last (te_flow_ids e)))"

definition drawn :: "trace_packet list \<Rightarrow> jlong list" where
  "drawn ks = List.map_filter event_coroutine (events ks)"

lemma drawn_simps [simp]:
  "drawn [] = []"
  "drawn (descriptor_packet n name t # ks) = drawn ks"
  "drawn (event_packet n ts e # ks) =
     (case event_coroutine e of None \<Rightarrow> drawn ks | Some c \<Rightarrow> c # drawn ks)"
  "drawn (ks @ ks') = drawn ks @ drawn ks'"
  by (auto simp: drawn_def List.map_filter_def split: option.splits)

lemma drawn_sample_packets [simp]: "drawn (sample_packets info n t rs) = []"
  by (induction rs) (simp_all add: sample_packets_def event_coroutine_def)

lemma drawn_suspension [simp]: "drawn (packets (add_suspension si name n t p)) = drawn (packets p)"
  by (simp add: add_suspension_def Let_def next_track_def event_coroutine_def)

lemma drawn_gc_event [simp]: "drawn (packets (add_gc_event n e p)) = drawn (packets p)"
  by (simp add: add_gc_event_def Let_def next_track_def event_coroutine_def)

lemma drawn_slice [simp]:
  "drawn (packets (add_coroutine_slice info n c e ci p)) = drawn (packets p) @ [c]"
  by (simp add: add_coroutine_slice_def Let_def next_track_def event_coroutine_def)

lemma drawn_fold:
  assumes "\<And>x p. drawn (packets (f x p)) = drawn (packets p)"
  shows "drawn (packets (fold f xs p)) = drawn (packets p)"
  by (induction xs arbitrary: p) (simp_all add: assms)

lemma drawn_gc_info [simp]: "drawn (packets (add_gc_info info s n p)) = drawn (packets p)"
  by (auto simp: add_gc_info_def findGcEvents_def cl_forEachFiltered_eq intro!: drawn_fold
      split: option.splits)

lemma drawn_suspensions [simp]:
  "drawn (packets (add_suspensions info s n c ci p)) = drawn (packets p)"
  by (auto simp: add_suspensions_def cl_forEach_def intro!: drawn_fold split: option.splits)

lemma add_coroutine_total:
  assumes "storage_ok s"
  shows "\<exists>p'. add_coroutine info s n c e ci p = Inr p' \<and> plot_extends p p'
    \<and> drawn (packets p') = drawn (packets p) @ [c]"
proof -
  define p1 where "p1 = add_coroutine_slice info n c e ci p"
  obtain p2 where p2: "add_samples info s n c p1 = Inr p2" "drawn (packets p2) = drawn (packets p1)"
    using add_samples_total [OF assms, of info n c p1] by auto
  have "plot_extends p p1" by (simp add: p1_def extends_slice)
  moreover have "plot_extends p1 p2" by (rule extends_samples [OF assms p2(1)])
  ultimately have "plot_extends p (add_suspensions info s n c ci p2)"
    by (metis plot_extends_trans extends_suspensions)
  then show ?thesis using p2 by (simp add: add_coroutine_def p1_def [symmetric]) (simp add: p1_def)
qed

section \<open>The walk\<close>

definition known :: "trace_storage \<Rightarrow> jlong \<Rightarrow> bool" where
  "known s c \<longleftrightarrow> cm_contains c (coroutine_info_map s)"

definition children :: "trace_storage \<Rightarrow> jlong \<Rightarrow> jlong list" where
  "children s c =
     (case om_view (child_coroutines_map s) (child_lists s) c of Some l \<Rightarrow> cl_list l | None \<Rightarrow> [])"

inductive coroutine_reach :: "trace_storage \<Rightarrow> jlong \<Rightarrow> jlong \<Rightarrow> bool" for s r where
  root: "coroutine_reach s r r"
| child: "\<lbrakk>coroutine_reach s r c; known s c; d \<in> set (children s c)\<rbrakk> \<Longrightarrow> coroutine_reach s r d"

lemma push_children_total:
  assumes "storage_ok s"
  shows "push_children s V c q =
    Inr (q @ map (\<lambda>d. (d, c)) (filter (\<lambda>d. d \<notin> V) (children s c)))"
proof (cases "cm_contains c (child_coroutines_map s)")
  case True
  then obtain a l where "cells (child_lists s) a = Some l"
    and "om_view (child_coroutines_map s) (child_lists s) c = Some l"
    and "cm_get None c (child_coroutines_map s) = (Some a, child_coroutines_map s)"
    using om_object [OF storage_okD(3,4) [OF assms]] by metis
  with True show ?thesis
    by (simp add: push_children_def containsChildCoroutineStorage_def getChildCoroutines_def
        children_def forEach_push)
next
  case False
  then show ?thesis
    by (simp add: push_children_def containsChildCoroutineStorage_def children_def
        om_absent [of c _ "child_lists s"])
qed

text \<open>A round of the walk on a well-formed storage: what it draws and what it queues.\<close>

definition queued :: "trace_storage \<Rightarrow> jlong set \<Rightarrow> jlong \<Rightarrow> coroutine_queue" where
  "queued s V c = (if known s c then map (\<lambda>d. (d, c)) (filter (\<lambda>d. d \<notin> V) (children s c)) else [])"

lemma trace_info_round_total:
  assumes "storage_ok s"
  shows "\<exists>p'. trace_info_round info s n V (c, e) (q, p) = Inr (q @ queued s V c, p')
    \<and> plot_extends p p' \<and> drawn (packets p') = drawn (packets p) @ (if known s c then [c] else [])"
proof (cases "known s c")
  case True
  then obtain a ci where "cells (coroutine_infos s) a = Some ci"
    and "cm_get None c (coroutine_info_map s) = (Some a, coroutine_info_map s)"
    using om_object [OF storage_okD(5,6) [OF assms]] unfolding known_def by metis
  with True have "getCoroutineInfo c s = Some a" and "cells (coroutine_infos s) a = Some ci"
    by (simp_all add: getCoroutineInfo_def known_def)
  with True add_coroutine_total [OF assms, of info n c e ci p] show ?thesis
    by (auto simp: trace_info_round_def push_children_total [OF assms] queued_def)
next
  case False
  then show ?thesis
    by (simp add: trace_info_round_def getCoroutineInfo_def known_def queued_def plot_extends.refl)
qed

text \<open>
  The rule for the walk: it ends without an error, extends the plot by whole tracks, and whatever
  every round keeps of the visited identifiers, the queue and the drawn coroutines holds at the
  end, when the queue is empty.
\<close>

lemma walk_rule:
  assumes "storage_ok s" and "I V q (drawn (packets p))"
    and "\<forall>V c e q ds. I V ((c, e) # q) ds \<longrightarrow>
      I (insert c V) (q @ queued s (insert c V) c) (ds @ (if known s c then [c] else []))"
  shows "\<exists>p' V'. add_trace_info_loop info s n V q p = Inr p' \<and> plot_extends p p'
    \<and> I V' [] (drawn (packets p'))"
  using assms
proof (induction info s n V q p rule: add_trace_info_loop.induct)
  case (1 info s n V p)
  then show ?case by (auto simp: plot_extends.refl)
next
  case (2 info s n V c e q p)
  obtain p1 where r: "trace_info_round info s n (insert c V) (c, e) (q, p) =
      Inr (q @ queued s (insert c V) c, p1)"
    and x: "plot_extends p p1"
    and d: "drawn (packets p1) = drawn (packets p) @ (if known s c then [c] else [])"
    using trace_info_round_total [OF 2(2), of info n "insert c V" c e q p] by blast
  have "I (insert c V) (q @ queued s (insert c V) c) (drawn (packets p1))"
    unfolding d using 2(3,4) by blast
  from "2.IH" [OF r HOL.refl 2(2) this 2(4)] obtain p' V'
    where "add_trace_info_loop info s n (insert c V) (q @ queued s (insert c V) c) p1 = Inr p'"
      and "plot_extends p1 p'" and "I V' [] (drawn (packets p'))"
    by blast
  then show ?case using r plot_extends_trans [OF _ x] by auto
qed

text \<open>First use: the drawn coroutines are the known ones that are reachable.\<close>

definition reach_inv ::
  "trace_storage \<Rightarrow> jlong \<Rightarrow> jlong set \<Rightarrow> coroutine_queue \<Rightarrow> jlong list \<Rightarrow> bool" where
  "reach_inv s r V q ds \<longleftrightarrow>
     (\<forall>c\<in>V \<union> fst ` set q. coroutine_reach s r c) \<and> r \<in> V \<union> fst ` set q
     \<and> (\<forall>c\<in>V. known s c \<longrightarrow> set (children s c) \<subseteq> V \<union> fst ` set q)
     \<and> set ds = {c \<in> V. known s c}"

lemma fst_queued: "fst ` set (queued s V c) = (if known s c then set (children s c) - V else {})"
  by (auto simp: queued_def image_image)

lemma reach_inv_round:
  assumes "reach_inv s r V ((c, e) # q) ds"
  shows "reach_inv s r (insert c V) (q @ queued s (insert c V) c) (ds @ (if known s c then [c] else []))"
proof -
  have "coroutine_reach s r c" using assms by (simp add: reach_inv_def)
  then have "\<forall>d\<in>fst ` set (queued s (insert c V) c). coroutine_reach s r d"
    unfolding fst_queued by (auto intro: coroutine_reach.child)
  moreover have "set (children s c) \<subseteq> insert c V \<union> fst ` set (queued s (insert c V) c)" if "known s c"
    using that unfolding fst_queued by auto
  ultimately show ?thesis using assms by (auto simp: reach_inv_def image_Un)
qed

lemma reach_inv_end:
  assumes "reach_inv s r V [] ds"
  shows "set ds = {c. coroutine_reach s r c \<and> known s c}"
proof -
  have "c \<in> V" if "coroutine_reach s r c" for c
    using that by (induction) (use assms in \<open>auto simp: reach_inv_def\<close>)
  then show ?thesis using assms by (auto simp: reach_inv_def)
qed

text \<open>
  Second use: if the child lists form a forest below the traced coroutine, every coroutine is
  drawn once.
\<close>

definition child_forest :: "trace_storage \<Rightarrow> jlong \<Rightarrow> bool" where
  "child_forest s r \<longleftrightarrow>
     (\<forall>c. distinct (children s c) \<and> r \<notin> set (children s c))
     \<and> (\<forall>c c' d. d \<in> set (children s c) \<and> d \<in> set (children s c') \<longrightarrow> c = c')"

definition once_inv ::
  "trace_storage \<Rightarrow> jlong \<Rightarrow> jlong set \<Rightarrow> coroutine_queue \<Rightarrow> jlong list \<Rightarrow> bool" where
  "once_inv s r V q ds \<longleftrightarrow>
     distinct ds \<and> set ds \<subseteq> V \<and> distinct (map fst q) \<and> fst ` set q \<inter> V = {}
     \<and> (\<forall>(d, e)\<in>set q. d = r \<or> e \<in> V \<and> d \<in> set (children s e))"

lemma once_inv_round:
  assumes f: "child_forest s r" and inv: "once_inv s r V ((c, e) # q) ds"
  shows "once_inv s r (insert c V) (q @ queued s (insert c V) c) (ds @ (if known s c then [c] else []))"
proof -
  have c: "c \<notin> V" "c \<notin> fst ` set q" using inv by (auto simp: once_inv_def)
  have q: "d = r \<or> e \<in> V \<and> d \<in> set (children s e)" if "(d, e) \<in> set q" for d e
    using that inv by (auto simp: once_inv_def)
  have disj: "d \<notin> set (children s c)" if "(d, e) \<in> set q" for d e
    using q [OF that] f c(1) unfolding child_forest_def by blast
  have "distinct (map fst (queued s (insert c V) c))"
    using f by (simp add: queued_def comp_def child_forest_def distinct_filter)
  then show ?thesis
    using inv c disj by (auto simp: once_inv_def queued_def image_Un)
qed

section \<open>The file\<close>

lemma plot_groups:
  assumes "plot_extends p p'" and "track_counter p = 0" and "packets p = []"
  shows "\<exists>gs. packets p' = concat gs \<and> track_counter p' = word_of_nat (length gs)
    \<and> (\<forall>i<length gs. track_group (word_of_nat (Suc i)) (gs ! i))"
  using assms
proof (induction rule: plot_extends.induct)
  case (refl p)
  then show ?case by (intro exI [of _ "[]"]) simp
next
  case (track p p' ks)
  then obtain gs where gs: "packets p' = concat gs" "track_counter p' = word_of_nat (length gs)"
    "\<forall>i<length gs. track_group (word_of_nat (Suc i)) (gs ! i)"
    by blast
  have "track_group (word_of_nat (Suc (length gs))) ks"
    using track(2) gs(2) by (simp add: add.commute)
  with gs show ?case
    by (intro exI [of _ "gs @ [ks]"]) (auto simp: nth_append less_Suc_eq add.commute)
qed

definition plot_start :: "trace_info \<Rightarrow> trace_storage \<Rightarrow> plot" where
  "plot_start info s =
     add_gc_info info s (ucast (1 :: u64))
       \<lparr>track_counter = 1, packets =
          [descriptor_packet trusted_sequence_id ''Trace'' 1,
           event_packet trusted_sequence_id (ti_start info)
             ((track_event_new Type_slice_begin 1)
                \<lparr>te_name := Some ''Trace'',
                 te_debug_annotations := [\<lparr>da_name = ''Trace'', da_int_value = None\<rparr>]\<rparr>),
           event_packet trusted_sequence_id (ti_end info) (track_event_new Type_slice_end 1)]\<rparr>"

lemma write_perfetto_start:
  "write_perfetto info s =
     rbind (add_trace_info_loop info s trusted_sequence_id {} [(ti_coroutine_id info, 0)]
             (plot_start info s)) (\<lambda>p. Inr (packets p))"
  by (simp add: write_perfetto_def plot_start_def next_track_def Let_def add_trace_info_def
      add_packets_def)

lemma extends_start: "plot_extends \<lparr>track_counter = 0, packets = []\<rparr> (plot_start info s)"
  unfolding plot_start_def
proof (rule plot_extends_trans [OF extends_gc_info])
  let ?p = "\<lparr>track_counter = 0, packets = []\<rparr>"
  have "track_group (track_counter ?p + 1) (descriptor_packet trusted_sequence_id ''Trace'' 1 #
      event_packet trusted_sequence_id (ti_start info)
        ((track_event_new Type_slice_begin 1)
           \<lparr>te_name := Some ''Trace'',
            te_debug_annotations := [\<lparr>da_name = ''Trace'', da_int_value = None\<rparr>]\<rparr>) #
      [event_packet trusted_sequence_id (ti_end info) (track_event_new Type_slice_end 1)])"
    by (simp add: track_group_def descriptor_packet_def event_packet_def track_types_def events_def
        packet_event_def List.map_filter_def)
  from extends_track [OF this] show "plot_extends ?p \<lparr>track_counter = 1, packets =
      [descriptor_packet trusted_sequence_id ''Trace'' 1,
       event_packet trusted_sequence_id (ti_start info)
         ((track_event_new Type_slice_begin 1)
            \<lparr>te_name := Some ''Trace'',
             te_debug_annotations := [\<lparr>da_name = ''Trace'', da_int_value = None\<rparr>]\<rparr>),
       event_packet trusted_sequence_id (ti_end info) (track_event_new Type_slice_end 1)]\<rparr>"
    by (simp add: add_packets_def)
qed

lemma drawn_start [simp]: "drawn (packets (plot_start info s)) = []"
  by (simp add: plot_start_def event_coroutine_def)

lemma write_perfetto_rule:
  assumes "storage_ok s" and "I {} [(ti_coroutine_id info, 0)] []"
    and "\<forall>V c e q ds. I V ((c, e) # q) ds \<longrightarrow>
      I (insert c V) (q @ queued s (insert c V) c) (ds @ (if known s c then [c] else []))"
  shows "\<exists>gs V. write_perfetto info s = Inr (concat gs) \<and> I V [] (drawn (concat gs))
    \<and> (\<forall>i<length gs. track_group (word_of_nat (Suc i)) (gs ! i))"
proof -
  have i: "I {} [(ti_coroutine_id info, 0)] (drawn (packets (plot_start info s)))"
    using assms(2) by simp
  from walk_rule [where I = I, OF assms(1) i assms(3), where info = info and n = trusted_sequence_id] obtain p' V
    where p': "add_trace_info_loop info s trusted_sequence_id {} [(ti_coroutine_id info, 0)]
        (plot_start info s) = Inr p'"
      and x: "plot_extends (plot_start info s) p'" and I: "I V [] (drawn (packets p'))"
    by blast
  from plot_groups [OF plot_extends_trans [OF x extends_start]] obtain gs
    where "packets p' = concat gs" "\<forall>i<length gs. track_group (word_of_nat (Suc i)) (gs ! i)"
    by auto
  with p' I show ?thesis by (auto simp: write_perfetto_start intro!: exI [of _ gs])
qed

section \<open>Properties\<close>

text \<open>
  C6. On a well-formed storage, writing a trace ends and does not fail, whatever the child lists
  look like (shared children and cycles included). The packets come in groups, one per track:
  group \<open>i\<close> declares track \<open>i + 1\<close> before it uses it, all its events are on that track and carry
  a time stamp, and they are either one begin and one end, in this order, or only instants.
\<close>

theorem plot_tracks:
  assumes "storage_ok s"
  shows "\<exists>gs. write_perfetto info s = Inr (concat gs)
    \<and> (\<forall>i<length gs. track_group (word_of_nat (Suc i)) (gs ! i))"
  using write_perfetto_rule [where I = "\<lambda>_ _ _. True", OF assms] by blast

theorem plot_tracks_witness:
  "\<exists>gs. write_perfetto \<lparr>ti_coroutine_id = 7, ti_start = 10, ti_end = 20\<rparr>
      (createCoroutineInfo 1 1 7 storage_new) = Inr (concat gs)
    \<and> (\<forall>i<length gs. track_group (word_of_nat (Suc i)) (gs ! i))"
  by (rule plot_tracks [OF ok_createCoroutineInfo [OF storage_ok_new]])

text \<open>
  C5. The trace shows exactly the coroutines that belong to it: a slice is drawn for a coroutine
  if and only if the storage knows it and it is the traced coroutine or, through known coroutines,
  a descendant of it.
\<close>

theorem plot_complete:
  assumes "storage_ok s"
  shows "\<exists>ks. write_perfetto info s = Inr ks
    \<and> set (drawn ks) = {c. coroutine_reach s (ti_coroutine_id info) c \<and> known s c}"
proof -
  have "reach_inv s (ti_coroutine_id info) {} [(ti_coroutine_id info, 0)] []"
    by (simp add: reach_inv_def coroutine_reach.root)
  from write_perfetto_rule [where I = "reach_inv s (ti_coroutine_id info)", OF assms this] obtain gs V
    where "write_perfetto info s = Inr (concat gs)"
      and "reach_inv s (ti_coroutine_id info) V [] (drawn (concat gs))"
    by (blast intro: reach_inv_round)
  then show ?thesis using reach_inv_end by blast
qed

theorem plot_complete_witness:
  "\<exists>ks. write_perfetto \<lparr>ti_coroutine_id = 7, ti_start = 10, ti_end = 20\<rparr>
      (createCoroutineInfo 1 1 7 storage_new) = Inr ks
    \<and> set (drawn ks) = {c. coroutine_reach (createCoroutineInfo 1 1 7 storage_new) 7 c
         \<and> known (createCoroutineInfo 1 1 7 storage_new) c}"
  using plot_complete [OF ok_createCoroutineInfo [OF storage_ok_new],
      of "\<lparr>ti_coroutine_id = 7, ti_start = 10, ti_end = 20\<rparr>" 1 1 7] by simp



text \<open>
  The numbers of context switches are only annotated when they are zero: the guard tests
  \<open>== 0\<close> where \<open>!= 0\<close> would make the counters visible.
\<close>

lemma switches_annotated_only_when_zero:
  "set (coroutine_annotations ci) \<inter> {a. da_name a = ''Voluntary switches''} =
     (if ci_voluntary_switches ci = 0
      then {\<lparr>da_name = ''Voluntary switches'', da_int_value = Some 0\<rparr>} else {})
   \<and> set (coroutine_annotations ci) \<inter> {a. da_name a = ''Involuntary switches''} =
     (if ci_involuntary_switches ci = 0
      then {\<lparr>da_name = ''Involuntary switches'', da_int_value = Some 0\<rparr>} else {})"
  by (simp add: coroutine_annotations_def)

end
