(* ===== verification/Profiler_Invariant.thy ===== *)
theory Profiler_Invariant
  imports Profiler Plot_Structure Storage_Lifecycle
begin

text \<open>
  The events of the profiler as data, its invariant, and the exact conditions under which a
  handler throws.
\<close>

section \<open>Events\<close>

text \<open>
  The callbacks of the agent, a sample delivered by the profiler thread, the processing of the
  samples, and the two operations of the cleaner thread.
\<close>

datatype profiler_event =
    Trace_start pthread_t trace_time trace_time trace_time jlong
  | Trace_end pthread_t trace_time usage_reading trace_time jlong
  | Coroutine_created pthread_t trace_time trace_time jlong
  | Coroutine_suspended pthread_t trace_time usage_reading "jmethodID list option" trace_time jlong
  | Coroutine_resumed pthread_t usage_reading trace_time trace_time jlong
  | Coroutine_completed pthread_t trace_time trace_time usage_reading jlong
  | Gc_started trace_time
  | Gc_finished trace_time
  | Sample trace_time async_trace i64
  | Process_traces
  | Cleaner_mark
  | Cleaner_clean

fun profiler_exec :: "hash_env \<Rightarrow> method_env \<Rightarrow> profiler_event \<Rightarrow> (profiler, unit) action" where
  "profiler_exec he env (Trace_start self t1 t2 start c) pf = traceStart he self t1 t2 start c pf"
| "profiler_exec he env (Trace_end self now r finish c) pf = traceEnd he self now r finish c pf"
| "profiler_exec he env (Coroutine_created self t1 t2 c) pf = coroutineCreated self t1 t2 c pf"
| "profiler_exec he env (Coroutine_suspended self now r frames start c) pf =
     coroutineSuspended env self now r frames start c pf"
| "profiler_exec he env (Coroutine_resumed self r now now' c) pf = coroutineResumed self r now now' c pf"
| "profiler_exec he env (Coroutine_completed self finish now r c) pf =
     coroutineCompleted self finish now r c pf"
| "profiler_exec he env (Gc_started now) pf = gcStart now pf"
| "profiler_exec he env (Gc_finished now) pf = gcFinish now pf"
| "profiler_exec he env (Sample time trace c) pf =
     (Inr (), pf\<lparr>pf_storage := addRawTrace time trace c (pf_storage pf)\<rparr>)"
| "profiler_exec he env Process_traces pf = processTraces env pf"
| "profiler_exec he env Cleaner_mark pf = (Inr (), pf\<lparr>pf_storage := mark_for_clean (pf_storage pf)\<rparr>)"
| "profiler_exec he env Cleaner_clean pf =
     (case clean (pf_storage pf) of
        Inl e \<Rightarrow> (Inl e, pf)
      | Inr s \<Rightarrow> (Inr (), pf\<lparr>pf_storage := s\<rparr>))"

text \<open>A history of events; an exception does not undo the effects of the handler that threw it.\<close>

fun profiler_run :: "hash_env \<Rightarrow> method_env \<Rightarrow> profiler_event list \<Rightarrow> profiler \<Rightarrow> profiler" where
  "profiler_run he env [] pf = pf"
| "profiler_run he env (ev # evs) pf = profiler_run he env evs (snd (profiler_exec he env ev pf))"

section \<open>Invariant\<close>

text \<open>
  An entry of the map of running traces belongs to the coroutine it is filed under, or it is the
  default entry that a lookup of a missing key leaves behind.
\<close>

definition ongoing_ok :: "(jlong, trace_info) concurrent_map \<Rightarrow> bool" where
  "ongoing_ok m \<longleftrightarrow>
     (\<forall>k info. cm_find k m = Some info \<longrightarrow> ti_coroutine_id info = k \<or> info = trace_info_default)"

definition profiler_ok :: "profiler \<Rightarrow> bool" where
  "profiler_ok pf \<longleftrightarrow>
     storage_ok (pf_storage pf) \<and> threads_ok (pf_jvm pf)
     \<and> ongoing_ok (ongoing_trace_info_map (pf_storage pf))"

lemma profiler_ok_new: "threads_ok jvm \<Longrightarrow> profiler_ok (profiler_new jvm threshold path interval)"
  by (simp add: profiler_ok_def profiler_new_def storage_ok_new)
    (simp add: ongoing_ok_def storage_new_def)

lemma profiler_okD:
  assumes "profiler_ok pf"
  shows "storage_ok (pf_storage pf)" and "threads_ok (pf_jvm pf)"
    and "ongoing_ok (ongoing_trace_info_map (pf_storage pf))"
  using assms by (simp_all add: profiler_ok_def)

lemma profiler_ok_storage:
  assumes "profiler_ok pf" and "storage_ok s"
    and "ongoing_trace_info_map s = ongoing_trace_info_map (pf_storage pf)"
  shows "profiler_ok (pf\<lparr>pf_storage := s\<rparr>)"
  using assms by (simp add: profiler_ok_def)

text \<open>Which operations of the storage leave the map of running traces alone.\<close>

lemma ongoing_unchanged [simp]:
  "ongoing_trace_info_map (createCoroutineInfo t1 t2 c s) = ongoing_trace_info_map s"
  "ongoing_trace_info_map (createChildCoroutineStorage c s) = ongoing_trace_info_map s"
  "ongoing_trace_info_map (update_coroutine a f s) = ongoing_trace_info_map s"
  "ongoing_trace_info_map (update_suspension a g s) = ongoing_trace_info_map s"
  "ongoing_trace_info_map (storage_gcStart t s) = ongoing_trace_info_map s"
  "ongoing_trace_info_map (addRawTrace t tr c s) = ongoing_trace_info_map s"
  "ongoing_trace_info_map (mark_for_clean s) = ongoing_trace_info_map s"
  by (simp_all add: createCoroutineInfo_def createChildCoroutineStorage_def update_coroutine_def
      update_suspension_def storage_gcStart_def addRawTrace_def mark_for_clean_def Let_def split_def)

lemma ongoing_unchanged_result:
  "addChildCoroutine c p s = Inr s' \<Longrightarrow> ongoing_trace_info_map s' = ongoing_trace_info_map s"
  "addSuspensionInfo si s = Inr s' \<Longrightarrow> ongoing_trace_info_map s' = ongoing_trace_info_map s"
  "storage_gcFinish t s = Inr s' \<Longrightarrow> ongoing_trace_info_map s' = ongoing_trace_info_map s"
  "clean s = Inr s' \<Longrightarrow> ongoing_trace_info_map s' = ongoing_trace_info_map s"
  "addProcessedTrace c r s = Inr s' \<Longrightarrow> ongoing_trace_info_map s' = ongoing_trace_info_map s"
  "removeRawTraceHeader s = Inr (x, s') \<Longrightarrow> ongoing_trace_info_map s' = ongoing_trace_info_map s"
  by (auto simp: addChildCoroutine_def addSuspensionInfo_def storage_gcFinish_def gcFinish_take_def
      gcFinish_put_def clean_def addProcessedTrace_def removeRawTraceHeader_def rbind_eq_Inr Let_def
      split_def split: option.splits if_splits)

lemma ok_update_coroutine:
  assumes "storage_ok s"
    and "\<And>ci. cells (coroutine_infos s) a = Some ci \<Longrightarrow> ci_suspensions_list (f ci) = ci_suspensions_list ci"
  shows "storage_ok (update_coroutine a f s)"
proof -
  have "suspensions_ok (heap_update a f (coroutine_infos s)) (suspensions s)"
    using storage_okD(8) [OF assms(1)] assms(2)
    by (intro suspensions_ok_update) (auto simp: suspensions_ok_def)
  with assms(1) show ?thesis by (simp add: storage_ok_def update_coroutine_def)
qed

lemma ok_update_suspension: "storage_ok s \<Longrightarrow> storage_ok (update_suspension a f s)"
  by (simp add: storage_ok_def update_suspension_def)

section \<open>Every handler keeps the invariant\<close>

lemma charge_usage_keeps [simp]:
  "ongoing_trace_info_map (pf_storage (charge_usage self now r c pf)) =
     ongoing_trace_info_map (pf_storage pf)"
  "coroutine_info_map (pf_storage (charge_usage self now r c pf)) = coroutine_info_map (pf_storage pf)"
  "pf_jvm (charge_usage self now r c pf) = pf_jvm pf"
  "pf_threshold (charge_usage self now r c pf) = pf_threshold pf"
  "pf_files (charge_usage self now r c pf) = pf_files pf"
  "pf_output_path (charge_usage self now r c pf) = pf_output_path pf"
  "pf_output_counter (charge_usage self now r c pf) = pf_output_counter pf"
  "pf_tables (charge_usage self now r c pf) = pf_tables pf"
  by (auto simp: charge_usage_def Let_def split_def update_coroutine_def split: option.splits)

lemma ok_charge_usage: "profiler_ok pf \<Longrightarrow> profiler_ok (charge_usage self now r c pf)"
  by (auto simp: charge_usage_def Let_def split_def profiler_ok_def usage_keeps
      intro!: ok_update_coroutine split: option.splits)

lemma ok_traceStart:
  assumes "profiler_ok pf"
  shows "profiler_ok (snd (traceStart he self t1 t2 start c pf))"
proof -
  have "ongoing_ok (ongoing_trace_info_map (snd (addOngoingTraceInfo i s)))"
    if "ongoing_ok (ongoing_trace_info_map s)" for i s
    using that by (auto simp: addOngoingTraceInfo_def Let_def split_def ongoing_ok_def cm_find_insert)
  then show ?thesis
    using assms
    by (auto simp: traceStart_def Let_def split_def profiler_ok_def ok_createCoroutineInfo
        intro!: ok_ongoing(1) ok_createChildCoroutineStorage split: option.splits)
qed

lemma findOngoing_ok:
  assumes "ongoing_ok (ongoing_trace_info_map s)"
  shows "ongoing_ok (ongoing_trace_info_map (snd (findOngoingTraceInfo c s)))"
  using assms
  by (auto simp: findOngoingTraceInfo_def Let_def split_def ongoing_ok_def cm_find_get
      trace_info_default_def split: if_splits)

lemma removeOngoing_ok:
  "ongoing_ok (ongoing_trace_info_map s) \<Longrightarrow> ongoing_ok (ongoing_trace_info_map (removeOngoingTraceInfo c s))"
  by (auto simp: removeOngoingTraceInfo_def ongoing_ok_def cm_find_erase)

lemma ok_write_trace: "profiler_ok pf \<Longrightarrow> profiler_ok (snd (write_trace i pf))"
  by (auto simp: write_trace_def Let_def profiler_ok_def split: sum.splits)

lemma ok_find_remove:
  assumes "profiler_ok pf"
  shows "profiler_ok (removeOngoingTrace k (snd (findOngoingTrace c pf)))"
  using assms
  by (simp add: profiler_ok_def removeOngoingTrace_def findOngoingTrace_def Let_def split_def
      ok_ongoing findOngoing_ok removeOngoing_ok)

lemma ok_traceEnd:
  assumes "profiler_ok pf"
  shows "profiler_ok (snd (traceEnd he self now r finish c pf))"
proof -
  have "profiler_ok (pf\<lparr>pf_jvm := add_current_traces (-1) a (pf_jvm pf)\<rparr>)" for a
    using assms by (simp add: profiler_ok_def)
  then show ?thesis
    using assms
    by (auto simp: traceEnd_def Let_def split_def intro!: ok_write_trace ok_find_remove ok_charge_usage
        split: option.splits)
qed

lemma profiler_ok_fields [simp]:
  "profiler_ok (pf\<lparr>current_coroutine_id := x\<rparr>) = profiler_ok pf"
  "profiler_ok (pf\<lparr>current_rusage := y\<rparr>) = profiler_ok pf"
  "profiler_ok (pf\<lparr>pf_tables := z\<rparr>) = profiler_ok pf"
  by (simp_all add: profiler_ok_def)

lemma ok_coroutineCreated:
  assumes "profiler_ok pf"
  shows "profiler_ok (snd (coroutineCreated self t1 t2 c pf))"
proof -
  define s where "s = createCoroutineInfo t1 t2 c (pf_storage pf)"
  have s: "profiler_ok (pf\<lparr>pf_storage := s\<rparr>)"
    using profiler_okD(1) [OF assms]
    by (auto simp: s_def ok_createCoroutineInfo intro!: profiler_ok_storage [OF assms])
  have "profiler_ok (pf\<lparr>pf_storage := createChildCoroutineStorage c s'\<rparr>)"
    if a: "addChildCoroutine c p s = Inr s'" for p s'
  proof -
    have "storage_ok s'"
      using ok_addChildCoroutine [OF _ a] profiler_okD(1) [OF s] by simp
    then show ?thesis
      using ongoing_unchanged_result(1) [OF a]
      by (intro profiler_ok_storage [OF assms]) (simp_all add: ok_createChildCoroutineStorage s_def)
  qed
  with s show ?thesis
    by (simp add: coroutineCreated_def Let_def s_def [symmetric] split: sum.splits)
qed

lemma ok_pause_coroutine:
  assumes "profiler_ok pf"
  shows "profiler_ok (pause_coroutine self now r c pf)"
proof -
  have p: "profiler_ok (charge_usage self now r c pf)"
    using assms by (rule ok_charge_usage)
  then show ?thesis
    using assms
    by (auto simp: pause_coroutine_def Let_def intro!: profiler_ok_storage [OF p] ok_update_coroutine
        profiler_okD(1) split: option.splits)
qed

lemma ok_record_suspension:
  assumes "profiler_ok pf"
  shows "profiler_ok (snd (record_suspension env start ms c pf))"
  using assms
  by (auto simp: record_suspension_def Let_def profiler_ok_def ongoing_unchanged_result
      intro: ok_addSuspensionInfo split: sum.splits prod.splits)

lemma ok_coroutineSuspended:
  assumes "profiler_ok pf"
  shows "profiler_ok (snd (coroutineSuspended env self now r frames start c pf))"
  using assms
  by (auto simp: coroutineSuspended_def Let_def intro!: ok_record_suspension ok_pause_coroutine
      split: option.splits)

lemma ok_coroutineResumed:
  assumes "profiler_ok pf"
  shows "profiler_ok (snd (coroutineResumed self r now now' c pf))"
  using assms
  by (auto simp: coroutineResumed_def Let_def profiler_ok_def
      intro!: ok_update_suspension ok_update_coroutine split: option.splits sum.splits)

lemma ok_coroutineCompleted:
  assumes "profiler_ok pf"
  shows "profiler_ok (snd (coroutineCompleted self finish now r c pf))"
proof -
  have "profiler_ok (pf\<lparr>current_coroutine_id := x,
      pf_storage := update_coroutine a (\<lambda>ci. ci\<lparr>ci_end := finish\<rparr>) (pf_storage pf)\<rparr>)" for x a
    using assms by (auto simp: profiler_ok_def intro!: ok_update_coroutine)
  with assms show ?thesis
    by (auto simp: coroutineCompleted_def Let_def intro!: ok_charge_usage split: option.splits)
qed

lemma ok_process_record:
  assumes "profiler_ok pf"
  shows "profiler_ok (snd (process_record env raw pf))"
  using assms
  by (auto simp: process_record_def Let_def profiler_ok_def ongoing_unchanged_result
      intro: ok_addProcessedTrace split: sum.splits prod.splits)

lemma processTraces_invariant:
  assumes "P pf"
    and "\<forall>pf x s. P pf \<longrightarrow> removeRawTraceHeader (pf_storage pf) = Inr (x, s) \<longrightarrow> P (pf\<lparr>pf_storage := s\<rparr>)"
    and "\<forall>pf raw. P pf \<longrightarrow> P (snd (process_record env raw pf))"
  shows "P (snd (processTraces env pf))"
  using assms
proof (induction env pf rule: processTraces.induct)
  case (1 env pf)
  show ?case
  proof (cases "removeRawTraceHeader (pf_storage pf)")
    case (Inl e)
    then show ?thesis using 1 by (subst processTraces.simps) simp
  next
    case (Inr p)
    obtain x s where p: "p = (x, s)" by (cases p)
    have ok: "P (pf\<lparr>pf_storage := s\<rparr>)"
      using Inr p 1(2,3) by blast
    show ?thesis
    proof (cases x)
      case None
      then show ?thesis using Inr p ok by (subst processTraces.simps) simp
    next
      case (Some raw)
      obtain y pf' where y: "process_record env raw (pf\<lparr>pf_storage := s\<rparr>) = (y, pf')"
        by fastforce
      then have "P pf'" using 1(4) ok by (metis snd_conv)
      then show ?thesis
        using "1.IH" [OF Inr p [symmetric] Some y [symmetric]] 1(3,4) Inr p Some y
        by (subst processTraces.simps) (auto split: sum.splits)
    qed
  qed
qed

lemma ok_processTraces: "profiler_ok pf \<Longrightarrow> profiler_ok (snd (processTraces env pf))"
  by (rule processTraces_invariant)
    (auto simp: ok_process_record ongoing_unchanged_result
      intro: profiler_ok_storage ok_removeRawTraceHeader [OF profiler_okD(1)])

lemma ok_profiler_exec:
  assumes "profiler_ok pf"
  shows "profiler_ok (snd (profiler_exec he env ev pf))"
proof -
  note s = profiler_okD(1) [OF assms]
  have "profiler_ok (snd (gcFinish t pf))" for t
    using assms ok_gcFinish [OF s, of t]
    by (auto simp: gcFinish_def ongoing_unchanged_result intro!: profiler_ok_storage split: sum.splits)
  moreover have "profiler_ok (snd (profiler_exec he env Cleaner_clean pf))"
    using assms ok_clean [OF s]
    by (auto simp: ongoing_unchanged_result intro!: profiler_ok_storage split: sum.splits)
  ultimately show ?thesis
    using assms s
    by (cases ev)
      (auto simp: ok_traceStart ok_traceEnd ok_coroutineCreated ok_coroutineSuspended
        ok_coroutineResumed ok_coroutineCompleted ok_processTraces gcStart_def ok_mark ok_gcStart
        ok_addRawTrace intro!: profiler_ok_storage)
qed

lemma ok_profiler_run: "profiler_ok pf \<Longrightarrow> profiler_ok (profiler_run he env evs pf)"
  by (induction evs arbitrary: pf) (simp_all add: ok_profiler_exec)

section \<open>The tables of names\<close>

lemma tables_process_record:
  assumes "tables_ok env (pf_tables pf)"
  shows "tables_ok env (pf_tables (snd (process_record env raw pf)))"
proof -
  have "tables_ok env (snd (record_frames env raw (pf_tables pf)))"
    using assms by (auto simp: record_frames_def Let_def process_instructions_tables split: option.splits)
  with assms show ?thesis
    by (auto simp: process_record_def Let_def split: sum.splits prod.splits)
qed

lemma tables_processTraces:
  "tables_ok env (pf_tables pf) \<Longrightarrow> tables_ok env (pf_tables (snd (processTraces env pf)))"
  by (rule processTraces_invariant [where P = "\<lambda>pf. tables_ok env (pf_tables pf)"])
    (simp_all add: tables_process_record)

lemma tables_suspended:
  assumes "tables_ok env (pf_tables pf)"
  shows "tables_ok env (pf_tables (snd (coroutineSuspended env self now r frames start c pf)))"
proof -
  have p: "pf_tables (pause_coroutine self now r a p) = pf_tables p" for a p
    by (simp add: pause_coroutine_def Let_def split: option.splits)
  have "tables_ok env (pf_tables (snd (record_suspension env start ms c p)))"
    if "tables_ok env (pf_tables p)" for ms p
    using process_methods_fails(2) [OF that, of ms]
    by (auto simp: record_suspension_def Let_def split: sum.splits prod.splits)
  with assms show ?thesis by (simp add: coroutineSuspended_def Let_def p split: option.splits)
qed

lemma tables_keep [simp]:
  "pf_tables (snd (traceStart he self t1 t2 start c pf)) = pf_tables pf"
  "pf_tables (snd (coroutineCreated self t1 t2 c pf)) = pf_tables pf"
  "pf_tables (snd (coroutineResumed self r now now' c pf)) = pf_tables pf"
  "pf_tables (snd (coroutineCompleted self now now' r c pf)) = pf_tables pf"
  "pf_tables (snd (write_trace i pf)) = pf_tables pf"
  "pf_tables (snd (findOngoingTrace c pf)) = pf_tables pf"
  "pf_tables (removeOngoingTrace c pf) = pf_tables pf"
  by (auto simp: traceStart_def coroutineCreated_def coroutineResumed_def coroutineCompleted_def
      write_trace_def findOngoingTrace_def removeOngoingTrace_def Let_def split_def
      split: option.splits sum.splits)

lemma tables_traceEnd [simp]: "pf_tables (snd (traceEnd he self now r finish c pf)) = pf_tables pf"
  by (simp add: traceEnd_def Let_def split_def split: option.splits)

lemma tables_profiler_exec:
  assumes "tables_ok env (pf_tables pf)"
  shows "tables_ok env (pf_tables (snd (profiler_exec he env ev pf)))"
  using assms
  by (cases ev) (auto simp: tables_suspended tables_processTraces gcStart_def gcFinish_def split: sum.splits)

section \<open>When a handler throws\<close>

lemma getCoroutineInfo_cases:
  assumes "storage_ok s"
  obtains "getCoroutineInfo c s = None" and "\<not> known s c"
  | a ci where "getCoroutineInfo c s = Some a" and "known s c"
      and "cm_find c (coroutine_info_map s) = Some (Some a)" and "cells (coroutine_infos s) a = Some ci"
      and "om_view (coroutine_info_map s) (coroutine_infos s) c = Some ci"
proof (cases "known s c")
  case False
  then show ?thesis using that(1) by (simp add: getCoroutineInfo_def known_def)
next
  case True
  then have k: "cm_contains c (coroutine_info_map s)" by (simp add: known_def)
  obtain a ci where "cm_find c (coroutine_info_map s) = Some (Some a)"
    "cells (coroutine_infos s) a = Some ci"
    "om_view (coroutine_info_map s) (coroutine_infos s) c = Some ci"
    "cm_get None c (coroutine_info_map s) = (Some a, coroutine_info_map s)"
    using om_object [OF storage_okD(5,6) [OF assms] k] by blast
  with that(2) True k show ?thesis by (simp add: getCoroutineInfo_def)
qed

lemma addSuspensionInfo_known:
  assumes "storage_ok s" and "known s (si_coroutine_id si)"
  shows "\<exists>s'. addSuspensionInfo si s = Inr s'"
proof (cases rule: getCoroutineInfo_cases [OF assms(1), of "si_coroutine_id si"])
  case (2 a ci)
  then show ?thesis by (simp add: addSuspensionInfo_def cm_at_find Let_def split_def)
qed (use assms(2) in simp)

definition handler_fails :: "hash_env \<Rightarrow> method_env \<Rightarrow> profiler_event \<Rightarrow> profiler \<Rightarrow> bool" where
  "handler_fails he env ev pf =
     (case ev of
        Trace_start self _ _ _ c \<Rightarrow>
          findThread self (pf_jvm pf) = None
          \<or> cm_contains (trace_id he self c) (ongoing_trace_info_map (pf_storage pf))
      | Trace_end self _ _ _ _ \<Rightarrow> findThread self (pf_jvm pf) = None
      | Coroutine_suspended _ _ _ frames _ c \<Rightarrow>
          known (pf_storage pf) c
          \<and> (case frames of
                None \<Rightarrow> False
              | Some ms \<Rightarrow> those (map (pure_method_frame env) (take suspension_stack_depth ms)) = None)
      | Gc_finished t \<Rightarrow> exec_fails (Gc_finish t) (pf_storage pf)
      | Cleaner_clean \<Rightarrow> exec_fails Clean (pf_storage pf)
      | _ \<Rightarrow> False)"

lemma traceStart_fails:
  "(\<exists>e. fst (traceStart he self t1 t2 start c pf) = Inl e) \<longleftrightarrow>
     findThread self (pf_jvm pf) = None
     \<or> cm_contains (trace_id he self c) (ongoing_trace_info_map (pf_storage pf))"
  by (auto simp: traceStart_def Let_def split_def addOngoingTraceInfo_def cm_insert_def
      split: option.splits)

lemma write_trace_total:
  assumes "storage_ok (pf_storage pf)"
  shows "\<exists>ks. write_perfetto info (pf_storage pf) = Inr ks
    \<and> write_trace info pf =
       (Inr (), pf\<lparr>pf_output_counter := pf_output_counter pf + 1,
                   pf_files := pf_files pf @ [(trace_file pf, ks)]\<rparr>)"
  using write_perfetto_rule [where I = "\<lambda>_ _ _. True" and info = info, OF assms]
  by (auto simp: write_trace_def Let_def)

lemma traceEnd_total:
  assumes "profiler_ok pf" and "findThread self (pf_jvm pf) = Some a"
  shows "fst (traceEnd he self now r finish c pf) = Inr ()"
proof -
  have p: "profiler_ok (pf\<lparr>pf_jvm := add_current_traces (-1) a (pf_jvm pf)\<rparr>)"
    using assms(1) by (simp add: profiler_ok_def)
  have "fst (write_trace i (removeOngoingTrace k (snd (findOngoingTrace d q)))) = Inr ()"
    if "profiler_ok q" for i k d q
    using write_trace_total [of "removeOngoingTrace k (snd (findOngoingTrace d q))" i]
      profiler_okD(1) [OF ok_find_remove [OF that]] by auto
  with p assms(2) show ?thesis
    by (simp add: traceEnd_def Let_def split_def ok_charge_usage split: option.splits)
qed

lemma coroutineCreated_total:
  assumes "profiler_ok pf"
  shows "fst (coroutineCreated self t1 t2 c pf) = Inr ()"
proof -
  let ?s = "createCoroutineInfo t1 t2 c (pf_storage pf)"
  have "storage_ok ?s" using assms by (simp add: profiler_ok_def ok_createCoroutineInfo)
  from addChildCoroutine_fails [OF this, of c "current_coroutine_id pf self"] show ?thesis
    by (auto simp: coroutineCreated_def Let_def containsChildCoroutineStorage_def split: sum.splits)
qed

lemma known_update [simp]:
  "known (update_coroutine a f s) c = known s c" "known (update_suspension b g s) c = known s c"
  by (simp_all add: known_def update_coroutine_def update_suspension_def)

lemma known_pause [simp]: "known (pf_storage (pause_coroutine self now r a pf)) c = known (pf_storage pf) c"
  by (simp add: pause_coroutine_def Let_def known_def update_coroutine_def split: option.splits)

lemma record_suspension_fails:
  assumes "profiler_ok pf" and "tables_ok env (pf_tables pf)" and "known (pf_storage pf) c"
  shows "(\<exists>e. fst (record_suspension env start ms c pf) = Inl e) \<longleftrightarrow>
     those (map (pure_method_frame env) ms) = None"
proof -
  have "\<exists>s'. addSuspensionInfo \<lparr>si_coroutine_id = c, si_start = start, si_end = 0, si_stack_trace = fs\<rparr>
      (pf_storage pf) = Inr s'" for fs
    by (rule addSuspensionInfo_known [OF profiler_okD(1) [OF assms(1)]]) (simp add: assms(3))
  then have "addSuspensionInfo \<lparr>si_coroutine_id = c, si_start = start, si_end = 0, si_stack_trace = fs\<rparr>
      (pf_storage pf) \<noteq> Inl e" for fs e
    by (metis sum.distinct(1))
  then show ?thesis
    using process_methods_fails(1) [OF assms(2), of ms]
    by (auto simp: record_suspension_def Let_def split: sum.splits prod.splits)
qed

lemma coroutineSuspended_fails:
  assumes "profiler_ok pf" and "tables_ok env (pf_tables pf)"
  shows "(\<exists>e. fst (coroutineSuspended env self now r frames start c pf) = Inl e) \<longleftrightarrow>
    known (pf_storage pf) c
    \<and> (case frames of
          None \<Rightarrow> False
        | Some ms \<Rightarrow> those (map (pure_method_frame env) (take suspension_stack_depth ms)) = None)"
proof -
  define pf1 where "pf1 = pf\<lparr>current_coroutine_id := (current_coroutine_id pf)(self := NOT_FOUND)\<rparr>"
  have pf1: "profiler_ok pf1" "pf_storage pf1 = pf_storage pf" "pf_tables pf1 = pf_tables pf"
    using assms(1) by (simp_all add: pf1_def)
  show ?thesis
  proof (cases rule: getCoroutineInfo_cases [OF profiler_okD(1) [OF assms(1)], of c])
    case 1
    then show ?thesis by (simp add: coroutineSuspended_def Let_def)
  next
    case (2 a ci)
    define pf2 where "pf2 = pause_coroutine self now r a pf1"
    have "profiler_ok pf2" "tables_ok env (pf_tables pf2)" "known (pf_storage pf2) c"
      using pf1 2 assms by (simp_all add: pf2_def ok_pause_coroutine)
        (simp add: pause_coroutine_def Let_def split: option.splits)
    note f = record_suspension_fails [OF this]
    have e: "fst (coroutineSuspended env self now r frames start c pf) =
        (case frames of
           None \<Rightarrow> Inr ()
         | Some ms \<Rightarrow> if take suspension_stack_depth ms = [] then Inr ()
             else fst (record_suspension env start (take suspension_stack_depth ms) c pf2))"
      using 2 pf1(2) by (auto simp: coroutineSuspended_def Let_def pf1_def pf2_def Suc_le_eq
          simp del: take_eq_Nil split: option.splits)
    show ?thesis unfolding e using 2 f by (auto simp del: take_eq_Nil split: option.splits)
  qed
qed

lemma coroutineResumed_total:
  assumes "profiler_ok pf"
  shows "fst (coroutineResumed self r now now' c pf) = Inr ()"
proof (cases rule: getCoroutineInfo_cases [OF profiler_okD(1) [OF assms], of c])
  case 1
  then show ?thesis by (simp add: coroutineResumed_def Let_def)
next
  case (2 a ci)
  then show ?thesis
    by (auto simp: coroutineResumed_def Let_def getLastSuspensionInfo_def update_coroutine_def
        known_def fst_cm_get heap_simps split: option.splits)
qed

lemma handler_fails_iff:
  assumes "profiler_ok pf" and "tables_ok env (pf_tables pf)" and "ev \<noteq> Process_traces"
  shows "(\<exists>e. fst (profiler_exec he env ev pf) = Inl e) \<longleftrightarrow> handler_fails he env ev pf"
proof (cases ev)
  case (Trace_end self now r finish c)
  then show ?thesis
    using traceEnd_total [OF assms(1), of self]
    by (cases "findThread self (pf_jvm pf)") (auto simp: handler_fails_def traceEnd_def)
next
  case (Coroutine_suspended self now r frames start c)
  with coroutineSuspended_fails [OF assms(1,2)] show ?thesis by (simp add: handler_fails_def)
next
  case (Gc_finished t)
  with gcFinish_fails [of t "pf_storage pf"] show ?thesis
    by (auto simp: handler_fails_def exec_fails_def gcFinish_def split: sum.splits)
qed (use assms in \<open>auto simp: handler_fails_def traceStart_fails coroutineCreated_total
    coroutineResumed_total coroutineCompleted_def gcStart_def gcFinish_def exec_fails_def Let_def
    clean_fails [symmetric] split: option.splits sum.splits\<close>)

section \<open>A small instance\<close>

text \<open>
  A JVM with one registered thread that names every method, for the instances of the theorems.
\<close>

definition example_hash :: hash_env where
  "example_hash = \<lparr>hash_thread_id = (\<lambda>t. t + 100), hash_pthread = (\<lambda>t. t)\<rparr>"

definition example_env :: method_env where
  "example_env =
     \<lparr>GetMethodName = (\<lambda>_. Some (''run'', ''()V'')), GetClassSignature = (\<lambda>_. Some ''LMain;''),
      getNativeFunctionInfo = (\<lambda>_. None)\<rparr>"

definition example_profiler :: profiler where
  "example_profiler =
     profiler_new (addCurrentThread 0 ''main'' 3 (4096, 8192) jvm_threads_new) 5 ''/tmp'' 1000"

lemma example_ok:
  "profiler_ok example_profiler" "tables_ok env (pf_tables example_profiler)"
  by (simp_all add: example_profiler_def profiler_ok_new threads_ok_new threads_ok_add)
    (simp add: profiler_new_def tables_ok_new)

lemma example_thread: "findThread 3 (pf_jvm example_profiler) = Some 0"
  by (simp add: example_profiler_def profiler_new_def findThread_def addCurrentThread_def
      jvm_threads_new_def heap_alloc_def heap_empty_def cl_find_eq cl_push_back_def cl_new_def
      has_thread_id_def thread_info_new_def Let_def)

section \<open>Properties\<close>

text \<open>
  C2. Every event handler keeps the profiler well-formed, whatever the history: the storage
  invariant, the registry of threads, the entries of the running traces, and the agreement of the
  tables of names with the JVM hold after any sequence of events, also when some of the handlers
  throw.
\<close>

theorem profiler_invariant:
  assumes "profiler_ok pf" and "tables_ok env (pf_tables pf)"
  shows "profiler_ok (profiler_run he env evs pf) \<and> tables_ok env (pf_tables (profiler_run he env evs pf))"
  using assms
  by (induction evs arbitrary: pf) (simp_all add: ok_profiler_exec tables_profiler_exec)

theorem profiler_invariant_witness:
  "profiler_ok (profiler_run example_hash example_env
     [Trace_start 3 10 11 12 7, Trace_start 3 10 11 13 7, Process_traces] example_profiler)"
  using profiler_invariant [OF example_ok(1) example_ok(2)] by blast

text \<open>
  C12. Exactly when a handler throws or dereferences a null pointer, in a well-formed state:
  starting a trace on an unregistered thread or twice, ending a trace on an unregistered thread,
  recording a suspension whose stack has a method the JVM cannot name, finishing a garbage
  collection or cleaning when the list of collections is too short. All other handlers succeed.
\<close>

theorem handler_failures:
  assumes "profiler_ok pf" and "tables_ok env (pf_tables pf)" and "ev \<noteq> Process_traces"
  shows "(\<exists>e. fst (profiler_exec he env ev pf) = Inl e) \<longleftrightarrow> handler_fails he env ev pf"
  using assms by (rule handler_fails_iff)

theorem handler_failures_witness:
  "(\<exists>e. fst (profiler_exec example_hash example_env (Trace_start 4 10 11 12 7) example_profiler) = Inl e)
   \<longleftrightarrow> handler_fails example_hash example_env (Trace_start 4 10 11 12 7) example_profiler"
  by (rule handler_failures [OF example_ok(1) example_ok(2)]) simp

end
