(* ===== verification/Trace_Lifecycle.thy ===== *)
theory Trace_Lifecycle
  imports Profiler_Invariant
begin

text \<open>
  What the profiler does with a trace from its start to its end: which entry of the map of running
  traces the end finds, when a file is written, and what happens when starts and ends do not match.
\<close>

section \<open>The entry of a running trace\<close>

abbreviation ongoing :: "profiler \<Rightarrow> (jlong, trace_info) concurrent_map" where
  "ongoing pf \<equiv> ongoing_trace_info_map (pf_storage pf)"

definition ends_trace :: "hash_env \<Rightarrow> jlong \<Rightarrow> profiler_event \<Rightarrow> bool" where
  "ends_trace he i ev =
     (case ev of Trace_end self _ _ _ c \<Rightarrow> trace_id he self c = i | _ \<Rightarrow> False)"

lemma ongoing_other_handlers [simp]:
  "ongoing (snd (coroutineCreated self t1 t2 c pf)) = ongoing pf"
  "ongoing (snd (coroutineResumed self r now now' c pf)) = ongoing pf"
  "ongoing (snd (coroutineCompleted self finish now r c pf)) = ongoing pf"
  "ongoing (snd (gcStart now pf)) = ongoing pf"
  "ongoing (snd (gcFinish now pf)) = ongoing pf"
  "ongoing (snd (process_record env raw pf)) = ongoing pf"
  "ongoing (pause_coroutine self now r a pf) = ongoing pf"
  "ongoing (snd (record_suspension env start ms c pf)) = ongoing pf"
  by (auto simp: coroutineCreated_def coroutineResumed_def coroutineCompleted_def gcStart_def
      gcFinish_def process_record_def pause_coroutine_def record_suspension_def Let_def
      ongoing_unchanged_result split: option.splits sum.splits prod.splits)

lemma ongoing_suspended [simp]:
  "ongoing (snd (coroutineSuspended env self now r frames start c pf)) = ongoing pf"
  by (simp add: coroutineSuspended_def Let_def split: option.splits)

lemma ongoing_processTraces [simp]: "ongoing (snd (processTraces env pf)) = ongoing pf"
  by (rule processTraces_invariant [where P = "\<lambda>q. ongoing q = ongoing pf"])
    (simp_all add: ongoing_unchanged_result)

lemma ongoing_write_trace [simp]: "ongoing (snd (write_trace i pf)) = ongoing pf"
  by (simp add: write_trace_def Let_def split: sum.splits)

lemma ongoing_write_trace_eq: "write_trace i pf = (x, pf') \<Longrightarrow> ongoing pf' = ongoing pf"
  using ongoing_write_trace [of i pf] by simp

lemma addOngoing_keeps:
  "cm_find i (ongoing_trace_info_map s) = Some info \<Longrightarrow>
     cm_find i (ongoing_trace_info_map (snd (addOngoingTraceInfo t s))) = Some info"
  by (auto simp: addOngoingTraceInfo_def Let_def split_def cm_find_insert)

lemma ongoing_traceStart:
  assumes "cm_find i (ongoing pf) = Some info"
  shows "cm_find i (ongoing (snd (traceStart he self t1 t2 start c pf))) = Some info"
  by (cases "c = -2"; cases "findThread self (pf_jvm pf)")
    (simp_all add: assms traceStart_def Let_def split_def addOngoing_keeps)

lemma ongoing_entry:
  assumes "ongoing_ok m" and "cm_find k m = Some info"
  shows "ti_coroutine_id info = k \<or> ti_coroutine_id info = 0"
  using assms unfolding ongoing_ok_def trace_info_default_def
  by (metis trace_info.select_convs(1))

lemma find_remove_ongoing:
  "cm_find i (ongoing (removeOngoingTrace k (snd (findOngoingTrace d pf)))) =
     (if i = k then None else cm_find i (snd (cm_get trace_info_default d (ongoing pf))))"
  by (simp add: removeOngoingTrace_def findOngoingTrace_def removeOngoingTraceInfo_def
      findOngoingTraceInfo_def Let_def split_def cm_find_erase)

lemma fst_findOngoingTrace:
  "fst (findOngoingTrace d pf) =
     (case cm_find d (ongoing pf) of Some info \<Rightarrow> info | None \<Rightarrow> trace_info_default)"
  by (simp add: findOngoingTrace_def findOngoingTraceInfo_def Let_def split_def fst_cm_get)

lemma ongoing_traceEnd:
  assumes "profiler_ok pf" and "cm_find i (ongoing pf) = Some info" and "i \<noteq> 0"
    and "trace_id he self c \<noteq> i"
  shows "cm_find i (ongoing (snd (traceEnd he self now r finish c pf))) = Some info"
proof -
  have n: "i \<noteq> ti_coroutine_id (fst (findOngoingTrace (trace_id he self c) pf'))"
    if "ongoing pf' = ongoing pf" for pf'
  proof (cases "cm_find (trace_id he self c) (ongoing pf)")
    case None
    with that assms(3) show ?thesis by (simp add: fst_findOngoingTrace trace_info_default_def)
  next
    case (Some x)
    from ongoing_entry [OF profiler_okD(3) [OF assms(1)] this] that Some assms(3,4) show ?thesis
      by (auto simp: fst_findOngoingTrace)
  qed
  from assms(2,4) show ?thesis
    by (simp add: traceEnd_def Let_def split_def find_remove_ongoing cm_find_get n
        split: option.splits)
qed

lemma exec_keeps_ongoing:
  assumes "profiler_ok pf" and "cm_find i (ongoing pf) = Some info" and "i \<noteq> 0"
    and "\<not> ends_trace he i ev"
  shows "cm_find i (ongoing (snd (profiler_exec he env ev pf))) = Some info"
  using assms
  by (cases ev)
    (auto simp: ongoing_traceStart ongoing_traceEnd ends_trace_def ongoing_unchanged_result
      split: sum.splits)

lemma run_keeps_ongoing:
  assumes "profiler_ok pf" and "cm_find i (ongoing pf) = Some info" and "i \<noteq> 0"
    and "\<forall>ev\<in>set evs. \<not> ends_trace he i ev"
  shows "cm_find i (ongoing (profiler_run he env evs pf)) = Some info"
  using assms
  by (induction evs arbitrary: pf) (simp_all add: ok_profiler_exec exec_keeps_ongoing)

section \<open>Constants of a profiler\<close>

lemma threshold_keep [simp]:
  "pf_threshold (snd (traceStart he self t1 t2 start c pf)) = pf_threshold pf"
  "pf_threshold (snd (coroutineCreated self t1 t2 c pf)) = pf_threshold pf"
  "pf_threshold (snd (coroutineResumed self r now now' c pf)) = pf_threshold pf"
  "pf_threshold (snd (coroutineCompleted self finish now r c pf)) = pf_threshold pf"
  "pf_threshold (snd (gcStart now pf)) = pf_threshold pf"
  "pf_threshold (snd (gcFinish now pf)) = pf_threshold pf"
  "pf_threshold (snd (process_record env raw pf)) = pf_threshold pf"
  "pf_threshold (pause_coroutine self now r a pf) = pf_threshold pf"
  "pf_threshold (snd (record_suspension env start ms c pf)) = pf_threshold pf"
  "pf_threshold (snd (write_trace i pf)) = pf_threshold pf"
  "pf_threshold (snd (findOngoingTrace k pf)) = pf_threshold pf"
  "pf_threshold (removeOngoingTrace k pf) = pf_threshold pf"
  by (auto simp: traceStart_def coroutineCreated_def coroutineResumed_def coroutineCompleted_def
      gcStart_def gcFinish_def process_record_def pause_coroutine_def record_suspension_def
      write_trace_def findOngoingTrace_def removeOngoingTrace_def Let_def split_def
      split: option.splits sum.splits prod.splits)

lemma threshold_exec [simp]: "pf_threshold (snd (profiler_exec he env ev pf)) = pf_threshold pf"
proof -
  have "pf_threshold (snd (processTraces env pf)) = pf_threshold pf"
    by (rule processTraces_invariant [where P = "\<lambda>q. pf_threshold q = pf_threshold pf"]) simp_all
  then show ?thesis
    by (cases ev)
      (auto simp: coroutineSuspended_def traceEnd_def Let_def split_def split: option.splits sum.splits)
qed

lemma threshold_run [simp]: "pf_threshold (profiler_run he env evs pf) = pf_threshold pf"
  by (induction evs arbitrary: pf) simp_all

section \<open>The end of a trace\<close>

text \<open>The state in which the end of a trace looks at its duration.\<close>

definition end_state ::
  "pthread_t \<Rightarrow> trace_time \<Rightarrow> usage_reading \<Rightarrow> jlong \<Rightarrow> addr \<Rightarrow> addr \<Rightarrow> profiler \<Rightarrow> profiler" where
  "end_state self now r i a c pf =
     (let q = charge_usage self now r c (pf\<lparr>pf_jvm := add_current_traces (-1) a (pf_jvm pf)\<rparr>)
      in removeOngoingTrace (ti_coroutine_id (fst (findOngoingTrace i q))) (snd (findOngoingTrace i q)))"

lemma end_state_fields [simp]:
  "pf_threshold (end_state self now r i a c pf) = pf_threshold pf"
  "pf_files (end_state self now r i a c pf) = pf_files pf"
  "trace_file (end_state self now r i a c pf) = trace_file pf"
  "pf_output_counter (end_state self now r i a c pf) = pf_output_counter pf"
  "pf_jvm (end_state self now r i a c pf) = add_current_traces (-1) a (pf_jvm pf)"
  by (simp_all add: end_state_def Let_def removeOngoingTrace_def findOngoingTrace_def split_def
      trace_file_def)

lemma end_state_ok: "profiler_ok pf \<Longrightarrow> profiler_ok (end_state self now r i a c pf)"
  by (simp add: end_state_def Let_def ok_find_remove ok_charge_usage profiler_ok_def
      [of "pf\<lparr>pf_jvm := _\<rparr>"] profiler_okD)

lemma traceEnd_eq:
  assumes "findThread self (pf_jvm pf) = Some a"
    and "getCoroutineInfo (trace_id he self c) (pf_storage pf) = Some p"
  shows "traceEnd he self now r finish c pf =
    (let i = trace_id he self c;
         info = (case cm_find i (ongoing pf) of Some info \<Rightarrow> info | None \<Rightarrow> trace_info_default);
         q = end_state self now r i a p pf
     in if sint (finish - ti_start info) > sint (pf_threshold pf)
        then write_trace (info\<lparr>ti_end := finish\<rparr>) q else (Inr (), q))"
  using assms
  by (simp add: traceEnd_def end_state_def Let_def split_def fst_findOngoingTrace tt_minus_def)

lemma traceStart_started:
  assumes "traceStart he self t1 t2 start c pf = (Inr (), pf1)"
  shows "cm_find (trace_id he self c) (ongoing pf1) =
      Some \<lparr>ti_coroutine_id = trace_id he self c, ti_start = start, ti_end = 0\<rparr>"
    and "pf_threshold pf1 = pf_threshold pf"
proof -
  from assms show "cm_find (trace_id he self c) (ongoing pf1) =
      Some \<lparr>ti_coroutine_id = trace_id he self c, ti_start = start, ti_end = 0\<rparr>"
    by (cases "c = -2")
      (auto simp: traceStart_def Let_def split_def addOngoingTraceInfo_def cm_find_insert
        cm_insert_def cm_contains_def cm_find_def split: option.splits if_splits)
  from assms show "pf_threshold pf1 = pf_threshold pf"
    using threshold_keep(1) [of he self t1 t2 start c pf] by simp
qed

lemma traceStart_jvm:
  "findThread self (pf_jvm pf) = Some a \<Longrightarrow>
     pf_jvm (snd (traceStart he self t1 t2 start c pf)) = add_current_traces 1 a (pf_jvm pf)"
  by (cases "c = -2") (simp_all add: traceStart_def Let_def split_def)

lemma traceStart_files:
  "pf_files (snd (traceStart he self t1 t2 start c pf)) = pf_files pf"
  "trace_file (snd (traceStart he self t1 t2 start c pf)) = trace_file pf"
  by (auto simp: traceStart_def Let_def split_def trace_file_def split: option.splits)

lemma trace_file_storage [simp]: "trace_file (pf\<lparr>pf_storage := s\<rparr>) = trace_file pf"
  by (simp add: trace_file_def)

lemma example_files: "pf_files example_profiler = []" "trace_file example_profiler = ''/tmp/trace0.pftrace''"
proof -
  have "nat_to_string 0 = ''0''"
    by code_simp
  then have "to_string (sint (0 :: i32)) = ''0''"
    by (simp add: to_string_def)
  then show "pf_files example_profiler = []" "trace_file example_profiler = ''/tmp/trace0.pftrace''"
    by (simp_all add: example_profiler_def profiler_new_def trace_file_def)
qed

lemma known_create:
  "known (createCoroutineInfo t1 t2 c s) d \<longleftrightarrow> d = c \<or> known s d"
  "known (createChildCoroutineStorage c s) d = known s d"
  "known (snd (addOngoingTraceInfo info s)) d = known s d"
  by (auto simp: known_def createCoroutineInfo_def createChildCoroutineStorage_def om_insert_def
      addOngoingTraceInfo_def Let_def split_def cm_contains_find cm_find_insert)

lemma traceStart_known:
  "known (pf_storage (snd (traceStart he self t1 t2 start (-2) pf))) (hash_thread_id he self)"
  "known (pf_storage pf) d \<Longrightarrow> known (pf_storage (snd (traceStart he self t1 t2 start c pf))) d"
  by (auto simp: traceStart_def Let_def split_def known_create split: option.splits)

lemma end_state_ongoing:
  "cm_find i (ongoing (end_state self now r i a p pf)) =
     (let info = (case cm_find i (ongoing pf) of Some info \<Rightarrow> info | None \<Rightarrow> trace_info_default)
      in if ti_coroutine_id info = i then None else Some info)"
  by (auto simp: end_state_def Let_def find_remove_ongoing cm_find_get fst_findOngoingTrace
      split: option.splits)

lemma traceEnd_running:
  assumes "profiler_ok pf" and "findThread self (pf_jvm pf) = Some a"
    and "known (pf_storage pf) (trace_id he self c)"
    and "cm_find (trace_id he self c) (ongoing pf) = Some info"
    and "ti_coroutine_id info = trace_id he self c"
  shows "\<exists>pf'. traceEnd he self now r finish c pf = (Inr (), pf')
    \<and> pf_jvm pf' = add_current_traces (-1) a (pf_jvm pf)
    \<and> cm_find (trace_id he self c) (ongoing pf') = None
    \<and> (if sint (finish - ti_start info) > sint (pf_threshold pf)
        then \<exists>ks. write_perfetto (info\<lparr>ti_end := finish\<rparr>) (pf_storage pf') = Inr ks
               \<and> pf_files pf' = pf_files pf @ [(trace_file pf, ks)]
        else pf_files pf' = pf_files pf)"
proof -
  obtain p where p: "getCoroutineInfo (trace_id he self c) (pf_storage pf) = Some p"
    using assms(3) by (cases rule: getCoroutineInfo_cases [OF profiler_okD(1) [OF assms(1)],
          of "trace_id he self c"]) auto
  define q where "q = end_state self now r (trace_id he self c) a p pf"
  have q: "profiler_ok q" "cm_find (trace_id he self c) (ongoing q) = None"
    using assms by (simp_all add: q_def end_state_ok end_state_ongoing)
  have e: "traceEnd he self now r finish c pf =
      (if sint (finish - ti_start info) > sint (pf_threshold pf)
       then write_trace (info\<lparr>ti_end := finish\<rparr>) q else (Inr (), q))"
    using traceEnd_eq [OF assms(2) p] assms(4) by (simp add: q_def)
  obtain ks where "write_perfetto (info\<lparr>ti_end := finish\<rparr>) (pf_storage q) = Inr ks"
    "write_trace (info\<lparr>ti_end := finish\<rparr>) q =
       (Inr (), q\<lparr>pf_output_counter := pf_output_counter q + 1,
                 pf_files := pf_files q @ [(trace_file q, ks)]\<rparr>)"
    using write_trace_total [OF profiler_okD(1) [OF q(1)]] by blast
  with q(2) show ?thesis unfolding e by (simp add: q_def)
qed

section \<open>Properties\<close>



text \<open>
  Starting a trace that is already running throws, and the exception leaves its mark: the
  running trace keeps its start time, but the thread's count of running traces has been raised and
  nothing lowers it again, so that the thread is sampled although the trace it counts for does not
  exist.
\<close>

lemma nested_start_throws:
  assumes "findThread self (pf_jvm pf) = Some a"
    and "cm_find (trace_id he self c) (ongoing pf) = Some info"
  shows "fst (traceStart he self t1 t2 start c pf) =
      Inl (Runtime_error (''Found trace that already started: '' @ to_string (sint (trace_id he self c))))
    \<and> cm_find (trace_id he self c) (ongoing (snd (traceStart he self t1 t2 start c pf))) = Some info
    \<and> pf_jvm (snd (traceStart he self t1 t2 start c pf)) = add_current_traces 1 a (pf_jvm pf)"
proof (intro conjI)
  show "fst (traceStart he self t1 t2 start c pf) =
      Inl (Runtime_error (''Found trace that already started: '' @ to_string (sint (trace_id he self c))))"
    using assms
    by (cases "c = -2")
      (simp_all add: traceStart_def Let_def split_def addOngoingTraceInfo_def cm_insert_def
        cm_contains_find)
qed (simp_all add: assms ongoing_traceStart traceStart_jvm)

text \<open>
  C30. An end without a start is not ignored. For a known coroutine whose trace is not running the
  lookup creates an entry with start 0 and identifier 0, and the removal then removes the entry of
  identifier 0 instead: afterwards the identifier counts as running, every later start of a trace
  for it throws, and a trace that does run under identifier 0 is forgotten.
\<close>

theorem unmatched_end_blocks_start:
  assumes "profiler_ok pf" and "findThread self (pf_jvm pf) = Some a"
    and "known (pf_storage pf) (trace_id he self c)" and "trace_id he self c \<noteq> 0"
    and "cm_find (trace_id he self c) (ongoing pf) = None"
  shows "\<exists>pf'. traceEnd he self now r finish c pf = (Inr (), pf')
    \<and> cm_find (trace_id he self c) (ongoing pf') = Some trace_info_default
    \<and> cm_find 0 (ongoing pf') = None
    \<and> (\<exists>e. fst (traceStart he self t1 t2 start c pf') = Inl e)"
proof -
  let ?i = "trace_id he self c"
  obtain p where p: "getCoroutineInfo ?i (pf_storage pf) = Some p"
    using assms(3) by (cases rule: getCoroutineInfo_cases [OF profiler_okD(1) [OF assms(1)], of ?i]) auto
  define q where "q = end_state self now r ?i a p pf"
  have "fst (findOngoingTrace ?i q') = trace_info_default" if "ongoing q' = ongoing pf" for q'
    using assms(5) that by (simp add: fst_findOngoingTrace)
  then have q0: "cm_find 0 (ongoing q) = None"
    by (simp add: q_def end_state_def Let_def find_remove_ongoing trace_info_default_def)
  have qi: "cm_find ?i (ongoing q) = Some trace_info_default"
    using assms(4,5) by (simp add: q_def end_state_ongoing trace_info_default_def)
  obtain pf' where t: "traceEnd he self now r finish c pf = (Inr (), pf')"
    using traceEnd_total [OF assms(1,2)] by (metis prod.collapse)
  have o: "ongoing pf' = ongoing q"
    using t unfolding traceEnd_eq [OF assms(2) p] Let_def q_def [symmetric]
    by (auto dest: ongoing_write_trace_eq split: if_splits)
  then show ?thesis
    using t q0 qi traceStart_fails [of he self t1 t2 start c pf'] by (auto simp: cm_contains_find)
qed

theorem unmatched_end_blocks_start_witness:
  "\<exists>pf'. traceEnd example_hash 3 20 (Linux_rusage None) 21 7
       (example_profiler\<lparr>pf_storage := createCoroutineInfo 1 2 7 storage_new\<rparr>) = (Inr (), pf')
    \<and> (\<exists>e. fst (traceStart example_hash 3 1 2 30 7 pf') = Inl e)"
proof -
  let ?pf = "example_profiler\<lparr>pf_storage := createCoroutineInfo 1 2 7 storage_new\<rparr>"
  have e: "pf_storage example_profiler = storage_new"
    by (simp add: example_profiler_def profiler_new_def)
  have ok: "profiler_ok ?pf"
    using example_ok(1) by (intro profiler_ok_storage) (simp_all add: ok_createCoroutineInfo storage_ok_new e)
  have t: "findThread 3 (pf_jvm ?pf) = Some 0" by (simp add: example_thread)
  have k: "known (pf_storage ?pf) (trace_id example_hash 3 7)"
    by (simp add: known_create trace_id_def)
  have "trace_id example_hash 3 7 \<noteq> 0" and "cm_find (trace_id example_hash 3 7) (ongoing ?pf) = None"
    by (simp_all add: trace_id_def) (simp add: storage_new_def)
  from unmatched_end_blocks_start [OF ok t k this, of 20 "Linux_rusage None" 21 1 2 30] show ?thesis
    by blast
qed

end
