(* ===== verification/Coroutine_Accounting.thy ===== *)
theory Coroutine_Accounting
  imports Trace_Lifecycle
begin

text \<open>
  What the handlers record for a coroutine, read through the abstract storage: its running time,
  its suspensions and its children.
\<close>

section \<open>Reading a coroutine\<close>

definition cinfo :: "profiler \<Rightarrow> jlong \<Rightarrow> coroutine_info option" where
  "cinfo pf = as_coroutines (storage_abs (pf_storage pf))"

definition csuspensions :: "profiler \<Rightarrow> jlong \<Rightarrow> suspension_info list option" where
  "csuspensions pf = as_suspensions (storage_abs (pf_storage pf))"

lemma cinfo_known:
  assumes "profiler_ok pf"
  shows "cinfo pf c \<noteq> None \<longleftrightarrow> known (pf_storage pf) c"
  using om_view_contains [OF storage_okD(5,6) [OF profiler_okD(1) [OF assms]], of c]
  by (simp add: cinfo_def storage_abs_def known_def)

lemma cinfo_pointer:
  assumes "profiler_ok pf" and "cinfo pf c = Some ci"
  obtains a ci' where "getCoroutineInfo c (pf_storage pf) = Some a"
    and "cm_find c (coroutine_info_map (pf_storage pf)) = Some (Some a)"
    and "cells (coroutine_infos (pf_storage pf)) a = Some ci'" and "ci = coroutine_core ci'"
    and "csuspensions pf c = Some (suspension_view (suspensions (pf_storage pf)) ci')"
proof (cases rule: getCoroutineInfo_cases [OF profiler_okD(1) [OF assms(1)], of c])
  case 1
  then show ?thesis using cinfo_known [OF assms(1), of c] assms(2) by simp
next
  case (2 a ci')
  then show ?thesis
    using that assms(2) by (simp add: cinfo_def csuspensions_def storage_abs_def)
qed

lemma core_fields [simp]:
  "ci_last_resume (coroutine_core ci) = ci_last_resume ci"
  "ci_wall_clock_running_time (coroutine_core ci) = ci_wall_clock_running_time ci"
  "ci_start (coroutine_core ci) = ci_start ci" "ci_end (coroutine_core ci) = ci_end ci"
  by (simp_all add: coroutine_core_def)

lemma abs_update_coroutine:
  assumes "storage_ok s" and "cm_find c (coroutine_info_map s) = Some (Some a)"
    and "\<And>ci. ci_suspensions_list (f ci) = ci_suspensions_list ci"
  shows "storage_abs (update_coroutine a f s) =
    (storage_abs s)\<lparr>as_coroutines := (as_coroutines (storage_abs s))
       (c := map_option (\<lambda>ci. coroutine_core (f ci)) (om_view (coroutine_info_map s) (coroutine_infos s) c))\<rparr>"
proof -
  have "suspension_view h (f ci) = suspension_view h ci" for h ci
    by (simp add: suspension_view_def assms(3))
  then show ?thesis
    using om_view_update [OF storage_okD(5) [OF assms(1)] assms(2), of f]
    by (auto simp: storage_abs_def update_coroutine_def fun_eq_iff option.map_comp comp_def)
qed

text \<open>An assignment to the object of a coroutine, seen from outside.\<close>

lemma cinfo_update:
  assumes "profiler_ok pf" and "cinfo pf c = Some ci"
    and "getCoroutineInfo c (pf_storage pf) = Some a"
    and "\<And>ci. ci_suspensions_list (f ci) = ci_suspensions_list ci"
    and "\<And>ci. coroutine_core (f ci) = f (coroutine_core ci)"
  shows "cinfo (pf\<lparr>pf_storage := update_coroutine a f (pf_storage pf)\<rparr>) = (cinfo pf)(c \<mapsto> f ci)"
    and "csuspensions (pf\<lparr>pf_storage := update_coroutine a f (pf_storage pf)\<rparr>) = csuspensions pf"
proof -
  obtain b ci' where b: "getCoroutineInfo c (pf_storage pf) = Some b"
    "cm_find c (coroutine_info_map (pf_storage pf)) = Some (Some b)"
    "cells (coroutine_infos (pf_storage pf)) b = Some ci'" "ci = coroutine_core ci'"
    using cinfo_pointer [OF assms(1,2)] by blast
  have "b = a" using b(1) assms(3) by simp
  with b have v: "om_view (coroutine_info_map (pf_storage pf)) (coroutine_infos (pf_storage pf)) c = Some ci'"
    and m: "cm_find c (coroutine_info_map (pf_storage pf)) = Some (Some a)"
    by (simp_all add: om_view_def)
  note u = abs_update_coroutine [OF profiler_okD(1) [OF assms(1)] m assms(4)]
  show "cinfo (pf\<lparr>pf_storage := update_coroutine a f (pf_storage pf)\<rparr>) = (cinfo pf)(c \<mapsto> f ci)"
    and "csuspensions (pf\<lparr>pf_storage := update_coroutine a f (pf_storage pf)\<rparr>) = csuspensions pf"
    using u v b(4) assms(5) by (simp_all add: cinfo_def csuspensions_def)
qed

lemma core_usage:
  "coroutine_core (fst (calculate_resource_usage now r ru ci)) =
     fst (calculate_resource_usage now r ru (coroutine_core ci))"
  by (auto simp: calculate_resource_usage_def Let_def add_wall_clock_def add_cpu_time_def
      add_switches_def coroutine_core_def split: usage_reading.splits option.splits)

lemma charge_usage_eq:
  assumes "profiler_ok pf" and "getCoroutineInfo c (pf_storage pf) = Some a"
  shows "charge_usage self now r a pf =
    pf\<lparr>pf_storage := update_coroutine a
          (\<lambda>ci. fst (calculate_resource_usage now r (current_rusage pf self) ci)) (pf_storage pf),
       current_rusage := (current_rusage pf)(self := update_perf_counters r (current_rusage pf self))\<rparr>"
proof (cases rule: getCoroutineInfo_cases [OF profiler_okD(1) [OF assms(1)], of c])
  case 1
  then show ?thesis using assms(2) by simp
next
  case (2 b ci)
  with assms(2) have ci: "cells (coroutine_infos (pf_storage pf)) a = Some ci" by simp
  then have "heap_update a (\<lambda>_. x) (coroutine_infos (pf_storage pf)) =
      heap_update a (\<lambda>ci. fst (calculate_resource_usage now r (current_rusage pf self) ci))
        (coroutine_infos (pf_storage pf))"
    if "x = fst (calculate_resource_usage now r (current_rusage pf self) ci)" for x
    using that by (simp add: heap_update_def)
  with ci show ?thesis
    by (simp add: charge_usage_def Let_def split_def update_coroutine_def usage_counters)
qed

lemma cinfo_fields [simp]:
  "cinfo (pf\<lparr>current_rusage := x\<rparr>) = cinfo pf" "csuspensions (pf\<lparr>current_rusage := x\<rparr>) = csuspensions pf"
  "cinfo (pf\<lparr>current_coroutine_id := y\<rparr>) = cinfo pf"
  "csuspensions (pf\<lparr>current_coroutine_id := y\<rparr>) = csuspensions pf"
  "cinfo (pf\<lparr>pf_tables := z\<rparr>) = cinfo pf" "csuspensions (pf\<lparr>pf_tables := z\<rparr>) = csuspensions pf"
  by (simp_all add: cinfo_def csuspensions_def)

lemma cinfo_charge:
  assumes "profiler_ok pf" and "cinfo pf c = Some ci" and "getCoroutineInfo c (pf_storage pf) = Some a"
  shows "cinfo (charge_usage self now r a pf) =
      (cinfo pf)(c \<mapsto> fst (calculate_resource_usage now r (current_rusage pf self) ci))"
    and "csuspensions (charge_usage self now r a pf) = csuspensions pf"
proof -
  let ?f = "\<lambda>ci. fst (calculate_resource_usage now r (current_rusage pf self) ci)"
  show "cinfo (charge_usage self now r a pf) = (cinfo pf)(c \<mapsto> ?f ci)"
    and "csuspensions (charge_usage self now r a pf) = csuspensions pf"
    using cinfo_update [OF assms, of ?f] charge_usage_eq [OF assms(1,3)]
    by (simp_all add: usage_keeps core_usage)
qed

section \<open>Handlers\<close>

lemma getCoroutineInfo_update [simp]:
  "getCoroutineInfo c (update_coroutine a f s) = getCoroutineInfo c s"
  by (simp add: getCoroutineInfo_def update_coroutine_def)

lemma getCoroutineInfo_charge [simp]:
  "getCoroutineInfo c (pf_storage (charge_usage self now r a pf)) = getCoroutineInfo c (pf_storage pf)"
  by (simp add: getCoroutineInfo_def)

lemma cinfo_pause:
  assumes "profiler_ok pf" and "cinfo pf c = Some ci" and "getCoroutineInfo c (pf_storage pf) = Some a"
  shows "cinfo (pause_coroutine self now r a pf) =
      (cinfo pf)(c \<mapsto> if sint (ci_last_resume ci) > 0
         then (fst (calculate_resource_usage now r (current_rusage pf self) ci))\<lparr>ci_last_resume := 0\<rparr>
         else ci)"
    and "csuspensions (pause_coroutine self now r a pf) = csuspensions pf"
proof -
  obtain ci' where ci': "cells (coroutine_infos (pf_storage pf)) a = Some ci'"
    "ci_last_resume ci' = ci_last_resume ci"
    using cinfo_pointer [OF assms(1,2)] assms(3) by (metis core_fields(1) option.inject)
  let ?q = "charge_usage self now r a pf"
  let ?u = "fst (calculate_resource_usage now r (current_rusage pf self) ci)"
  have q: "profiler_ok ?q" "cinfo ?q c = Some ?u" "getCoroutineInfo c (pf_storage ?q) = Some a"
    using assms by (simp_all add: ok_charge_usage cinfo_charge)
  let ?z = "\<lambda>ci. ci\<lparr>ci_last_resume := 0\<rparr>"
  have "cinfo (?q\<lparr>pf_storage := update_coroutine a ?z (pf_storage ?q)\<rparr>) = (cinfo ?q)(c \<mapsto> ?z ?u)"
    and "csuspensions (?q\<lparr>pf_storage := update_coroutine a ?z (pf_storage ?q)\<rparr>) = csuspensions ?q"
    using cinfo_update [OF q, of ?z] by (simp_all add: coroutine_core_def)
  then show "cinfo (pause_coroutine self now r a pf) =
      (cinfo pf)(c \<mapsto> if sint (ci_last_resume ci) > 0 then ?u\<lparr>ci_last_resume := 0\<rparr> else ci)"
    and "csuspensions (pause_coroutine self now r a pf) = csuspensions pf"
    using ci' assms by (auto simp: pause_coroutine_def Let_def cinfo_charge)
qed

lemma cinfo_record_suspension:
  assumes "profiler_ok pf"
  shows "cinfo (snd (record_suspension env start ms c pf)) = cinfo pf"
proof -
  obtain x mt where x: "process_methods env ms (pf_tables pf) = (x, mt)" by fastforce
  show ?thesis
  proof (cases x)
    case (Inl e)
    with x show ?thesis by (simp add: record_suspension_def)
  next
    case (Inr frames)
    let ?si = "\<lparr>si_coroutine_id = c, si_start = start, si_end = 0, si_stack_trace = frames\<rparr>"
    show ?thesis
    proof (cases "addSuspensionInfo ?si (pf_storage pf)")
      case (Inr s')
      with abs_addSuspensionInfo [OF profiler_okD(1) [OF assms] Inr] x \<open>x = Inr frames\<close> show ?thesis
        by (simp add: record_suspension_def cinfo_def Let_def)
    qed (use x Inr in \<open>simp add: record_suspension_def Let_def\<close>)
  qed
qed

definition suspend_state ::
  "pthread_t \<Rightarrow> trace_time \<Rightarrow> usage_reading \<Rightarrow> addr \<Rightarrow> profiler \<Rightarrow> profiler" where
  "suspend_state self now r a pf =
     pause_coroutine self now r a
       (pf\<lparr>current_coroutine_id := (current_coroutine_id pf)(self := NOT_FOUND)\<rparr>)"

lemma coroutineSuspended_eq:
  assumes "getCoroutineInfo c (pf_storage pf) = Some a"
  shows "coroutineSuspended env self now r frames start c pf =
    (let q = suspend_state self now r a pf in
     case frames of
       None \<Rightarrow> (Inr (), q)
     | Some ms \<Rightarrow> if ms = [] then (Inr (), q)
         else record_suspension env start (take suspension_stack_depth ms) c q)"
  using assms
  by (auto simp: coroutineSuspended_def suspend_state_def Let_def suspension_stack_depth_def
      Suc_le_eq split: option.splits)

lemma suspend_state_cinfo:
  assumes "profiler_ok pf" and "cinfo pf c = Some ci" and "getCoroutineInfo c (pf_storage pf) = Some a"
  shows "cinfo (suspend_state self now r a pf) =
      (cinfo pf)(c \<mapsto> if sint (ci_last_resume ci) > 0
         then (fst (calculate_resource_usage now r (current_rusage pf self) ci))\<lparr>ci_last_resume := 0\<rparr>
         else ci)"
    and "csuspensions (suspend_state self now r a pf) = csuspensions pf"
    and "profiler_ok (suspend_state self now r a pf)"
  using cinfo_pause [of "pf\<lparr>current_coroutine_id := (current_coroutine_id pf)(self := NOT_FOUND)\<rparr>" c ci a]
    assms
  by (simp_all add: suspend_state_def ok_pause_coroutine)

lemma cinfo_suspended:
  assumes "profiler_ok pf" and "cinfo pf c = Some ci"
  shows "cinfo (snd (coroutineSuspended env self now r frames start c pf)) =
      (cinfo pf)(c \<mapsto> if sint (ci_last_resume ci) > 0
         then (fst (calculate_resource_usage now r (current_rusage pf self) ci))\<lparr>ci_last_resume := 0\<rparr>
         else ci)"
proof -
  obtain a where a: "getCoroutineInfo c (pf_storage pf) = Some a"
    using cinfo_pointer [OF assms] by blast
  note q = suspend_state_cinfo [OF assms a, of self now r]
  have "cinfo (snd (coroutineSuspended env self now r frames start c pf)) =
      cinfo (suspend_state self now r a pf)"
    by (simp add: coroutineSuspended_eq [OF a] Let_def cinfo_record_suspension [OF q(3)]
        split: option.splits)
  with q(1) show ?thesis by simp
qed

lemma cinfo_update_suspension [simp]:
  "cinfo (pf\<lparr>pf_storage := update_suspension b g (pf_storage pf)\<rparr>) = cinfo pf"
  by (simp add: cinfo_def storage_abs_def update_suspension_def)

text \<open>The state of \<open>coroutineResumed\<close> after the counters and the time of the resumption are set.\<close>

definition resume_state ::
  "pthread_t \<Rightarrow> usage_reading \<Rightarrow> trace_time \<Rightarrow> jlong \<Rightarrow> addr \<Rightarrow> profiler \<Rightarrow> profiler" where
  "resume_state self r now c a pf =
     pf\<lparr>current_coroutine_id := (current_coroutine_id pf)(self := c),
        current_rusage := (current_rusage pf)(self := update_perf_counters r (current_rusage pf self)),
        pf_storage := update_coroutine a (\<lambda>ci. ci\<lparr>ci_last_resume := now\<rparr>) (pf_storage pf)\<rparr>"

lemma resume_state_cinfo:
  assumes "profiler_ok pf" and "cinfo pf c = Some ci" and "getCoroutineInfo c (pf_storage pf) = Some a"
  shows "cinfo (resume_state self r now c a pf) = (cinfo pf)(c \<mapsto> ci\<lparr>ci_last_resume := now\<rparr>)"
    and "csuspensions (resume_state self r now c a pf) = csuspensions pf"
    and "profiler_ok (resume_state self r now c a pf)"
proof -
  let ?z = "\<lambda>ci :: coroutine_info. ci\<lparr>ci_last_resume := now\<rparr>"
  have e: "resume_state self r now c a pf =
      (pf\<lparr>pf_storage := update_coroutine a ?z (pf_storage pf)\<rparr>)
        \<lparr>current_coroutine_id := (current_coroutine_id pf)(self := c),
         current_rusage := (current_rusage pf)(self := update_perf_counters r (current_rusage pf self))\<rparr>"
    by (simp add: resume_state_def)
  show "cinfo (resume_state self r now c a pf) = (cinfo pf)(c \<mapsto> ?z ci)"
    and "csuspensions (resume_state self r now c a pf) = csuspensions pf"
    unfolding e using cinfo_update [OF assms, of ?z] by (simp_all add: coroutine_core_def)
  show "profiler_ok (resume_state self r now c a pf)"
    unfolding e using assms(1) by (auto simp: profiler_ok_def intro!: ok_update_coroutine)
qed

lemma coroutineResumed_eq:
  assumes "getCoroutineInfo c (pf_storage pf) = Some a"
  shows "coroutineResumed self r now now' c pf =
    (let q = resume_state self r now c a pf in
     case getLastSuspensionInfo c (pf_storage q) of
       Inl e \<Rightarrow> (Inl e, q)
     | Inr None \<Rightarrow> (Inr (), q)
     | Inr (Some b) \<Rightarrow>
         (Inr (), q\<lparr>pf_storage := update_suspension b (\<lambda>si. si\<lparr>si_end := now'\<rparr>) (pf_storage q)\<rparr>))"
  using assms by (simp add: coroutineResumed_def resume_state_def Let_def split: sum.splits option.splits)

lemma cinfo_resumed:
  assumes "profiler_ok pf" and "cinfo pf c = Some ci"
  shows "cinfo (snd (coroutineResumed self r now now' c pf)) = (cinfo pf)(c \<mapsto> ci\<lparr>ci_last_resume := now\<rparr>)"
proof -
  obtain a where a: "getCoroutineInfo c (pf_storage pf) = Some a"
    using cinfo_pointer [OF assms] by blast
  then show ?thesis
    using resume_state_cinfo(1) [OF assms a]
    by (simp add: coroutineResumed_eq Let_def split: sum.splits option.splits)
qed

lemma cinfo_completed:
  assumes "profiler_ok pf" and "cinfo pf c = Some ci"
  shows "cinfo (snd (coroutineCompleted self finish now r c pf)) =
    (cinfo pf)(c \<mapsto> fst (calculate_resource_usage now r (current_rusage pf self) (ci\<lparr>ci_end := finish\<rparr>)))"
proof -
  obtain a where a: "getCoroutineInfo c (pf_storage pf) = Some a"
    using cinfo_pointer [OF assms] by blast
  define pf1 where "pf1 = pf\<lparr>current_coroutine_id := (current_coroutine_id pf)(self := NOT_FOUND)\<rparr>"
  have p: "profiler_ok pf1" "cinfo pf1 c = Some ci" "getCoroutineInfo c (pf_storage pf1) = Some a"
    using assms a by (simp_all add: pf1_def)
  let ?z = "\<lambda>ci :: coroutine_info. ci\<lparr>ci_end := finish\<rparr>"
  let ?q = "pf1\<lparr>pf_storage := update_coroutine a ?z (pf_storage pf1)\<rparr>"
  have u: "cinfo ?q = (cinfo pf1)(c \<mapsto> ?z ci)"
    by (rule cinfo_update(1) [OF p]) (simp_all add: coroutine_core_def)
  have q: "profiler_ok ?q" "cinfo ?q c = Some (?z ci)" "getCoroutineInfo c (pf_storage ?q) = Some a"
    using p u by (auto simp: profiler_ok_def intro!: ok_update_coroutine)
  have "snd (coroutineCompleted self finish now r c pf) = charge_usage self now r a ?q"
    using a by (simp add: coroutineCompleted_def Let_def pf1_def)
  with cinfo_charge(1) [OF q, of self now r] u show ?thesis by (simp add: pf1_def)
qed

section \<open>Running intervals\<close>

text \<open>
  A coroutine runs in intervals: it is resumed on some thread and suspended later, on the same or
  another thread. \<open>ri_readings\<close> are the resource readings at the two events.
\<close>

record run_interval =
  ri_thread :: pthread_t
  ri_readings :: "usage_reading \<times> usage_reading"
  ri_resumed :: trace_time
  ri_suspended :: trace_time
  ri_frames :: "jmethodID list option"

definition interval_events :: "jlong \<Rightarrow> run_interval \<Rightarrow> profiler_event list" where
  "interval_events c i =
     [Coroutine_resumed (ri_thread i) (fst (ri_readings i)) (ri_resumed i) (ri_resumed i) c,
      Coroutine_suspended (ri_thread i) (ri_suspended i) (snd (ri_readings i)) (ri_frames i)
        (ri_suspended i) c]"

definition interval_length :: "run_interval \<Rightarrow> trace_time" where
  "interval_length i = ri_suspended i - ri_resumed i"

lemma interval_accounting:
  assumes "profiler_ok pf" and "cinfo pf c = Some ci" and "0 < sint (ri_resumed i)"
  shows "\<exists>ci'. cinfo (profiler_run he env (interval_events c i) pf) c = Some ci'
    \<and> ci_wall_clock_running_time ci' = ci_wall_clock_running_time ci + interval_length i
    \<and> ci_last_resume ci' = 0"
proof -
  define pf1 where "pf1 = snd (coroutineResumed (ri_thread i) (fst (ri_readings i)) (ri_resumed i) (ri_resumed i) c pf)"
  have p: "profiler_ok pf1" "cinfo pf1 c = Some (ci\<lparr>ci_last_resume := ri_resumed i\<rparr>)"
    using assms(1) cinfo_resumed [OF assms(1,2)] by (simp_all add: pf1_def ok_coroutineResumed)
  from cinfo_suspended [OF p] assms(3) show ?thesis
    by (simp add: interval_events_def pf1_def [symmetric] usage_wall_clock interval_length_def)
qed

lemma profiler_run_append:
  "profiler_run he env (xs @ ys) pf = profiler_run he env ys (profiler_run he env xs pf)"
  by (induction xs arbitrary: pf) simp_all

lemma intervals_accounting:
  assumes "profiler_ok pf" and "cinfo pf c = Some ci" and "\<forall>i\<in>set is. 0 < sint (ri_resumed i)"
  shows "\<exists>ci'. cinfo (profiler_run he env (concat (map (interval_events c) is)) pf) c = Some ci'
    \<and> ci_wall_clock_running_time ci' =
        ci_wall_clock_running_time ci + sum_list (map interval_length is)
    \<and> (is \<noteq> [] \<longrightarrow> ci_last_resume ci' = 0)"
  using assms
proof (induction "is" arbitrary: pf ci)
  case Nil
  then show ?case by simp
next
  case (Cons i "is")
  let ?pf = "profiler_run he env (interval_events c i) pf"
  obtain ci1 where c1: "cinfo ?pf c = Some ci1"
    "ci_wall_clock_running_time ci1 = ci_wall_clock_running_time ci + interval_length i"
    "ci_last_resume ci1 = 0"
    using interval_accounting [OF Cons.prems(1,2), of i he env] Cons.prems(3) by auto
  show ?case
  proof (cases "is = []")
    case True
    with c1 show ?thesis by simp
  next
    case False
    with Cons.IH [OF ok_profiler_run [OF Cons.prems(1)] c1(1)] c1(2) Cons.prems(3) show ?thesis
      by (auto simp: profiler_run_append algebra_simps)
  qed
qed

section \<open>Suspensions\<close>

text \<open>What a resumption does to the suspensions of a coroutine.\<close>

fun close_first :: "trace_time \<Rightarrow> suspension_info list \<Rightarrow> suspension_info list" where
  "close_first t [] = []"
| "close_first t (si # sis) = (if si_end si = 0 then si\<lparr>si_end := t\<rparr> # sis else si # close_first t sis)"

lemma close_first_view:
  assumes "\<forall>a\<in>set as. cells h a \<noteq> None" and "distinct as"
  shows "map (\<lambda>a. the (cells (case find (suspension_open h) as of
            None \<Rightarrow> h | Some b \<Rightarrow> heap_update b (\<lambda>si. si\<lparr>si_end := t\<rparr>) h) a)) as =
    close_first t (map (\<lambda>a. the (cells h a)) as)"
  using assms
proof (induction "as")
  case Nil
  then show ?case by simp
next
  case (Cons a "as")
  then obtain si where si: "cells h a = Some si" by auto
  show ?case
  proof (cases "si_end si = 0")
    case True
    with si Cons.prems show ?thesis
      by (auto simp: suspension_open_def tt_eq_def heap_simps)
  next
    case False
    have "cells (case find (suspension_open h) as of
            None \<Rightarrow> h | Some b \<Rightarrow> heap_update b (\<lambda>si. si\<lparr>si_end := t\<rparr>) h) a = Some si"
      using si Cons.prems(2) find_prefix [of "suspension_open h" "as"]
      by (auto simp: heap_simps split: option.splits)
    moreover have "\<not> suspension_open h a"
      using False si by (simp add: suspension_open_def tt_eq_def)
    ultimately show ?thesis using False si Cons by simp
  qed
qed

lemma suspension_list_ok:
  assumes "profiler_ok pf" and "cells (coroutine_infos (pf_storage pf)) a = Some ci"
  shows "distinct (cl_list (ci_suspensions_list ci))"
    and "\<forall>b\<in>set (cl_list (ci_suspensions_list ci)). cells (suspensions (pf_storage pf)) b \<noteq> None"
  using storage_okD(8) [OF profiler_okD(1) [OF assms(1)]] assms(2)
  by (auto simp: suspensions_ok_def heap_ok_def)

lemma cinfo_csuspensions: "csuspensions pf c = Some sis \<Longrightarrow> \<exists>ci. cinfo pf c = Some ci"
  by (auto simp: cinfo_def csuspensions_def storage_abs_def)

lemma csuspensions_resumed:
  assumes "profiler_ok pf" and "csuspensions pf c = Some sis"
  shows "csuspensions (snd (coroutineResumed self r now now' c pf)) c = Some (close_first now' sis)"
proof -
  obtain ci where ci: "cinfo pf c = Some ci"
    using cinfo_csuspensions [OF assms(2)] by blast
  obtain a where a: "getCoroutineInfo c (pf_storage pf) = Some a"
    using cinfo_pointer [OF assms(1) ci] by blast
  define q where "q = resume_state self r now c a pf"
  have q: "profiler_ok q" "cinfo q c = Some (ci\<lparr>ci_last_resume := now\<rparr>)" "csuspensions q c = Some sis"
    using resume_state_cinfo [OF assms(1) ci a] assms(2) by (simp_all add: q_def)
  obtain b ci' where b: "getCoroutineInfo c (pf_storage q) = Some b"
    "cm_find c (coroutine_info_map (pf_storage q)) = Some (Some b)"
    "cells (coroutine_infos (pf_storage q)) b = Some ci'"
    "csuspensions q c = Some (suspension_view (suspensions (pf_storage q)) ci')"
    using cinfo_pointer [OF q(1,2)] by blast
  let ?h = "suspensions (pf_storage q)" and ?as = "cl_list (ci_suspensions_list ci')"
  have g: "getLastSuspensionInfo c (pf_storage q) = Inr (find (suspension_open ?h) ?as)"
    using b by (simp add: getLastSuspensionInfo_def cm_contains_find fst_cm_get cl_find_eq)
  have v: "om_view (coroutine_info_map (pf_storage q)) (coroutine_infos (pf_storage q)) c = Some ci'"
    using b(2,3) by (simp add: om_view_def)
  have s: "sis = map (\<lambda>a. the (cells ?h a)) ?as"
    using b(4) q(3) by (simp add: suspension_view_def)
  note cf = close_first_view [OF suspension_list_ok(2,1) [OF q(1) b(3)], of now']
  show ?thesis
  proof (cases "find (suspension_open ?h) ?as")
    case None
    with g q(3) cf s show ?thesis
      by (simp add: coroutineResumed_eq [OF a] q_def [symmetric] Let_def)
  next
    case (Some d)
    have "csuspensions (q\<lparr>pf_storage := update_suspension d (\<lambda>si. si\<lparr>si_end := now'\<rparr>) (pf_storage q)\<rparr>) c =
        Some (close_first now' sis)"
      using cf Some s v
      by (simp add: csuspensions_def storage_abs_def update_suspension_def suspension_view_def)
    with g Some show ?thesis
      by (simp add: coroutineResumed_eq [OF a] q_def [symmetric] Let_def)
  qed
qed

lemma csuspensions_suspended:
  assumes "profiler_ok pf" and "tables_ok env (pf_tables pf)" and "csuspensions pf c = Some sis"
    and "ms \<noteq> []" and "those (map (pure_method_frame env) (take suspension_stack_depth ms)) = Some fs"
  shows "csuspensions (snd (coroutineSuspended env self now r (Some ms) start c pf)) c =
    Some (sis @ [\<lparr>si_coroutine_id = c, si_start = start, si_end = 0, si_stack_trace = fs\<rparr>])"
proof -
  obtain ci where ci: "cinfo pf c = Some ci"
    using cinfo_csuspensions [OF assms(3)] by blast
  obtain a where a: "getCoroutineInfo c (pf_storage pf) = Some a"
    using cinfo_pointer [OF assms(1) ci] by blast
  define q where "q = suspend_state self now r a pf"
  have q: "profiler_ok q" "csuspensions q c = Some sis" "cinfo q c \<noteq> None"
    using suspend_state_cinfo [OF assms(1) ci a] assms(3) by (simp_all add: q_def)
  have "tables_ok env (pf_tables q)"
    using assms(2) by (simp add: q_def suspend_state_def pause_coroutine_def Let_def split: option.splits)
  from process_methods_ok [OF this assms(5)] obtain mt
    where m: "process_methods env (take suspension_stack_depth ms) (pf_tables q) = (Inr fs, mt)" by blast
  let ?si = "\<lparr>si_coroutine_id = c, si_start = start, si_end = 0, si_stack_trace = fs\<rparr>"
  obtain s' where s': "addSuspensionInfo ?si (pf_storage q) = Inr s'"
    using addSuspensionInfo_known [OF profiler_okD(1) [OF q(1)], of ?si] cinfo_known [OF q(1), of c] q(3)
    by auto
  from abs_addSuspensionInfo [OF profiler_okD(1) [OF q(1)] s'] q(2)
  have "as_suspensions (storage_abs s') c = Some (sis @ [?si])"
    by (simp add: csuspensions_def map_append_def)
  with m s' assms(4) show ?thesis
    by (simp add: coroutineSuspended_eq [OF a] q_def [symmetric] Let_def record_suspension_def
        csuspensions_def)
qed

lemma close_first_snoc:
  assumes "\<forall>si\<in>set sis. si_end si \<noteq> 0" and "si_end x = 0"
  shows "close_first t (sis @ [x]) = sis @ [x\<lparr>si_end := t\<rparr>]"
  using assms by (induction sis) simp_all

section \<open>Children\<close>

lemma children_abs: "children s p = (case as_children (storage_abs s) p of Some cs \<Rightarrow> cs | None \<Rightarrow> [])"
  by (simp add: children_def storage_abs_def split: option.splits)

lemma coroutine_reach_mono:
  assumes "coroutine_reach s r c" and "\<And>d. known s d \<Longrightarrow> known s' d"
    and "\<And>p. set (children s p) \<subseteq> set (children s' p)"
  shows "coroutine_reach s' r c"
  using assms(1)
proof induction
  case root
  show ?case by (rule coroutine_reach.root)
next
  case (child c d)
  then show ?case using assms(2,3) by (blast intro: coroutine_reach.child)
qed

lemma coroutineCreated_children:
  fixes t1 t2 :: trace_time and c :: jlong
  assumes "profiler_ok pf" and "containsChildCoroutineStorage (current_coroutine_id pf self) (pf_storage pf)"
  defines "s' \<equiv> pf_storage (snd (coroutineCreated self t1 t2 c pf))"
  shows "children s' p = children (pf_storage pf) p @ (if p = current_coroutine_id pf self then [c] else [])"
    and "known s' d \<longleftrightarrow> d = c \<or> known (pf_storage pf) d"
proof -
  let ?p = "current_coroutine_id pf self"
  define s1 where "s1 = createCoroutineInfo t1 t2 c (pf_storage pf)"
  have ok1: "storage_ok s1"
    using assms(1) by (simp add: s1_def profiler_ok_def ok_createCoroutineInfo)
  have c1: "child_coroutines_map s1 = child_coroutines_map (pf_storage pf)"
    "child_lists s1 = child_lists (pf_storage pf)"
    by (simp_all add: s1_def createCoroutineInfo_def Let_def split_def)
  have p1: "cm_contains ?p (child_coroutines_map s1)"
    using assms(2) c1 by (simp add: containsChildCoroutineStorage_def)
  obtain s2 where s2: "addChildCoroutine c ?p s1 = Inr s2"
    using addChildCoroutine_fails [OF ok1, of c ?p] p1 by (cases "addChildCoroutine c ?p s1") auto
  have ok2: "storage_ok s2" by (rule ok_addChildCoroutine [OF ok1 s2])
  have s': "s' = createChildCoroutineStorage c s2"
    using s2 p1 by (simp add: s'_def coroutineCreated_def Let_def s1_def [symmetric]
        containsChildCoroutineStorage_def)
  have a: "as_children (storage_abs s') =
      map_create c [] (map_append ?p c (as_children (storage_abs (pf_storage pf))))"
    using abs_createChildCoroutineStorage [OF ok2, of c] abs_addChildCoroutine [OF ok1 s2] c1
    by (simp add: s' storage_abs_def)
  show "children s' p = children (pf_storage pf) p @ (if p = ?p then [c] else [])"
    unfolding children_abs a by (auto simp: map_create_def map_append_def split: option.splits)
  have "known s2 d = known s1 d"
    using s2 by (auto simp: known_def addChildCoroutine_def Let_def split_def split: option.splits)
  then show "known s' d \<longleftrightarrow> d = c \<or> known (pf_storage pf) d"
    by (simp add: s' known_create s1_def)
qed

lemma cinfo_traceEnd:
  assumes "profiler_ok pf" and "findThread self (pf_jvm pf) = Some a"
    and "cinfo pf (trace_id he self c) = Some ci"
  shows "cinfo (snd (traceEnd he self now r finish c pf)) =
    (cinfo pf)(trace_id he self c \<mapsto> fst (calculate_resource_usage now r (current_rusage pf self) ci))"
proof -
  let ?i = "trace_id he self c"
  obtain p where p: "getCoroutineInfo ?i (pf_storage pf) = Some p"
    using cinfo_pointer [OF assms(1,3)] by blast
  define pf1 where "pf1 = pf\<lparr>pf_jvm := add_current_traces (-1) a (pf_jvm pf)\<rparr>"
  have p1: "profiler_ok pf1" "cinfo pf1 ?i = Some ci" "getCoroutineInfo ?i (pf_storage pf1) = Some p"
    using assms p by (simp_all add: pf1_def profiler_ok_def cinfo_def)
  have w: "cinfo (snd (write_trace i q)) = cinfo q" for i q
    by (simp add: write_trace_def Let_def cinfo_def split: sum.splits)
  have f: "cinfo (removeOngoingTrace k (snd (findOngoingTrace d q))) = cinfo q" for k d q
    by (simp add: cinfo_def storage_abs_def removeOngoingTrace_def findOngoingTrace_def
        removeOngoingTraceInfo_def findOngoingTraceInfo_def Let_def split_def)
  have "cinfo (snd (traceEnd he self now r finish c pf)) = cinfo (charge_usage self now r p pf1)"
    by (simp add: traceEnd_eq [OF assms(2) p] Let_def end_state_def pf1_def [symmetric] w f)
  with cinfo_charge(1) [OF p1] show ?thesis by (simp add: pf1_def cinfo_def)
qed

section \<open>A small instance\<close>

definition example_coroutine :: profiler where
  "example_coroutine = example_profiler\<lparr>pf_storage := createCoroutineInfo 1 2 7 storage_new\<rparr>"

lemma example_coroutine_facts:
  "profiler_ok example_coroutine" "cinfo example_coroutine 7 = Some (coroutine_info_new 1 2)"
  "csuspensions example_coroutine 7 = Some []" "tables_ok env (pf_tables example_coroutine)"
  "findThread 3 (pf_jvm example_coroutine) = Some 0"
proof -
  show "profiler_ok example_coroutine"
    unfolding example_coroutine_def using example_ok(1) by (intro profiler_ok_storage)
      (simp_all add: ok_createCoroutineInfo storage_ok_new example_profiler_def profiler_new_def)
  have "as_coroutines (storage_abs storage_new) 7 = None" "as_suspensions (storage_abs storage_new) 7 = None"
    by (simp_all add: storage_abs_def storage_new_def om_view_def)
  then show "cinfo example_coroutine 7 = Some (coroutine_info_new 1 2)"
    and "csuspensions example_coroutine 7 = Some []"
    using abs_createCoroutineInfo [OF storage_ok_new, of 1 2 7]
    by (simp_all add: cinfo_def csuspensions_def example_coroutine_def map_create_def)
qed (simp_all add: example_coroutine_def example_ok example_thread)

section \<open>Properties\<close>

text \<open>
  C8. The running time of a coroutine is the sum of its running intervals. A coroutine that is
  resumed and suspended any number of times, on any threads, and finally resumed and completed, is
  charged the total length of these intervals (64-bit arithmetic) on top of what it had, and its
  end is the time of completion. This holds whatever the resource readings and stack traces are.
\<close>

theorem running_time_is_sum:
  assumes "profiler_ok pf" and "cinfo pf c = Some ci" and "\<forall>i\<in>set is. 0 < sint (ri_resumed i)"
  shows "\<exists>ci'. cinfo (profiler_run he env
      (concat (map (interval_events c) is)
       @ [Coroutine_resumed self r res res' c, Coroutine_completed self' finish now r' c]) pf) c = Some ci'
    \<and> ci_wall_clock_running_time ci' =
        ci_wall_clock_running_time ci + sum_list (map interval_length is) + (now - res)
    \<and> ci_end ci' = finish"
proof -
  let ?pf = "profiler_run he env (concat (map (interval_events c) is)) pf"
  obtain ci1 where c1: "cinfo ?pf c = Some ci1"
    "ci_wall_clock_running_time ci1 = ci_wall_clock_running_time ci + sum_list (map interval_length is)"
    using intervals_accounting [OF assms, of he env] by blast
  define pf2 where "pf2 = snd (coroutineResumed self r res res' c ?pf)"
  have ok: "profiler_ok ?pf" using assms(1) by (rule ok_profiler_run)
  have p2: "profiler_ok pf2" "cinfo pf2 c = Some (ci1\<lparr>ci_last_resume := res\<rparr>)"
    using ok_coroutineResumed [OF ok] cinfo_resumed [OF ok c1(1)] by (simp_all add: pf2_def)
  from cinfo_completed [OF p2, of self' finish now r'] c1(2) show ?thesis
    by (simp add: profiler_run_append pf2_def [symmetric] usage_wall_clock usage_keeps)
qed

theorem running_time_is_sum_witness:
  "\<exists>ci'. cinfo (profiler_run example_hash example_env
      (concat (map (interval_events 7)
         [\<lparr>ri_thread = 3, ri_readings = (Linux_rusage None, Linux_rusage None), ri_resumed = 10,
           ri_suspended = 25, ri_frames = None\<rparr>])
       @ [Coroutine_resumed 3 (Linux_rusage None) 40 40 7, Coroutine_completed 3 50 50 (Linux_rusage None) 7])
      example_coroutine) 7 = Some ci'
    \<and> ci_wall_clock_running_time ci' = 25"
proof -
  let ?is = "[\<lparr>ri_thread = 3, ri_readings = (Linux_rusage None, Linux_rusage None), ri_resumed = 10,
           ri_suspended = 25, ri_frames = None\<rparr> :: run_interval]"
  from running_time_is_sum [OF example_coroutine_facts(1,2), of ?is example_hash example_env 3 "Linux_rusage None" 40 40 3 50 50 "Linux_rusage None"]
  show ?thesis by (auto simp: interval_length_def coroutine_info_new_def)
qed

text \<open>
  C31. Ending a trace after the traced coroutine has completed charges its last interval a second
  time: completion does not reset the time of the last resumption, and the end of the trace adds
  the time since that resumption again.
\<close>

theorem trace_end_counts_again:
  assumes "profiler_ok pf" and "cinfo pf c = Some ci" and "c \<noteq> -2"
    and "findThread self' (pf_jvm pf) = Some a"
  shows "\<exists>ci'. cinfo (profiler_run he env
      [Coroutine_completed self finish now r c, Trace_end self' now' r' finish' c] pf) c = Some ci'
    \<and> ci_wall_clock_running_time ci' =
        ci_wall_clock_running_time ci + (now - ci_last_resume ci) + (now' - ci_last_resume ci)"
proof -
  define pf1 where "pf1 = snd (coroutineCompleted self finish now r c pf)"
  let ?u = "fst (calculate_resource_usage now r (current_rusage pf self) (ci\<lparr>ci_end := finish\<rparr>))"
  have i: "trace_id he self' c = c" using assms(3) by (simp add: trace_id_def)
  have p1: "profiler_ok pf1" "cinfo pf1 (trace_id he self' c) = Some ?u"
    using ok_coroutineCompleted [OF assms(1)] cinfo_completed [OF assms(1,2)]
    by (simp_all add: pf1_def i)
  have "pf_jvm pf1 = pf_jvm pf"
    by (simp add: pf1_def coroutineCompleted_def Let_def split: option.splits)
  with assms(4) have "findThread self' (pf_jvm pf1) = Some a" by simp
  from cinfo_traceEnd [OF p1(1) this p1(2)] show ?thesis
    by (simp add: i pf1_def [symmetric] usage_wall_clock usage_keeps)
qed

theorem trace_end_counts_again_witness:
  "\<exists>ci'. cinfo (profiler_run example_hash example_env
      [Coroutine_completed 3 20 20 (Linux_rusage None) 7, Trace_end 3 30 (Linux_rusage None) 30 7]
      example_coroutine) 7 = Some ci'
    \<and> ci_wall_clock_running_time ci' = 46"
proof -
  from trace_end_counts_again [OF example_coroutine_facts(1,2) _ example_coroutine_facts(5), where he = example_hash and env = example_env and self = 3
      and finish = 20 and now = 20 and r = "Linux_rusage None" and now' = 30
      and r' = "Linux_rusage None" and finish' = 30]
  show ?thesis by (auto simp: coroutine_info_new_def)
qed

text \<open>
  C17. A suspension is recorded with its stack trace and closed by the next resumption: if the JVM
  can name the methods on the stack and all earlier suspensions of the coroutine are closed,
  suspending and resuming it appends one suspension, with the start, the end and the first sixty
  frames. In general a resumption closes the oldest open suspension of the coroutine, and only
  that one.
\<close>

theorem suspension_round_trip:
  assumes "profiler_ok pf" and "tables_ok env (pf_tables pf)" and "csuspensions pf c = Some sis"
  shows "csuspensions (snd (coroutineResumed self r now now' c pf)) c = Some (close_first now' sis)
    \<and> (ms \<noteq> [] \<and> those (map (pure_method_frame env) (take suspension_stack_depth ms)) = Some fs
         \<and> (\<forall>si\<in>set sis. si_end si \<noteq> 0)
       \<longrightarrow> csuspensions (profiler_run he env
             [Coroutine_suspended self sus r (Some ms) start c, Coroutine_resumed self' r' now now' c] pf) c =
           Some (sis @ [\<lparr>si_coroutine_id = c, si_start = start, si_end = now', si_stack_trace = fs\<rparr>]))"
proof (intro conjI impI; (elim conjE)?)
  show "csuspensions (snd (coroutineResumed self r now now' c pf)) c = Some (close_first now' sis)"
    by (rule csuspensions_resumed [OF assms(1,3)])
next
  assume m: "ms \<noteq> []" "those (map (pure_method_frame env) (take suspension_stack_depth ms)) = Some fs"
    and cl: "\<forall>si\<in>set sis. si_end si \<noteq> 0"
  define pf1 where "pf1 = snd (coroutineSuspended env self sus r (Some ms) start c pf)"
  have "profiler_ok pf1" using assms(1) by (simp add: pf1_def ok_coroutineSuspended)
  from csuspensions_resumed [OF this csuspensions_suspended [OF assms m, of self sus r start,
        folded pf1_def], of self' r' now now']
  show "csuspensions (profiler_run he env
      [Coroutine_suspended self sus r (Some ms) start c, Coroutine_resumed self' r' now now' c] pf) c =
    Some (sis @ [\<lparr>si_coroutine_id = c, si_start = start, si_end = now', si_stack_trace = fs\<rparr>])"
    using cl by (simp add: pf1_def [symmetric] close_first_snoc)
qed

theorem suspension_round_trip_witness:
  "csuspensions (profiler_run example_hash example_env
     [Coroutine_suspended 3 10 (Linux_rusage None) (Some [77]) 10 7,
      Coroutine_resumed 3 (Linux_rusage None) 15 15 7]
     example_coroutine) 7 =
   Some [\<lparr>si_coroutine_id = 7, si_start = 10, si_end = 15,
          si_stack_trace = [\<lparr>sf_frame = ''run()V'', sf_base = ''LMain''\<rparr>]\<rparr>]"
proof -
  from suspension_round_trip [OF example_coroutine_facts(1,4,3), where ms = "[77]"] show ?thesis
    by (simp add: pure_method_frame_def example_env_def suspension_stack_depth_def)
qed

text \<open>
  C18. A coroutine that is created while a coroutine of a trace runs on the thread becomes part of
  the trace: if the running coroutine is reachable from the traced one and has child storage, then
  the new coroutine is known and reachable afterwards, and so is everything that was before. With
  the property on the drawn coroutines, this puts it into the trace file.
\<close>

theorem created_coroutine_joins_trace:
  assumes "profiler_ok pf" and "current_coroutine_id pf self = p"
    and "containsChildCoroutineStorage p (pf_storage pf)"
    and "coroutine_reach (pf_storage pf) root p" and "known (pf_storage pf) p"
  shows "fst (coroutineCreated self t1 t2 c pf) = Inr ()
    \<and> coroutine_reach (pf_storage (snd (coroutineCreated self t1 t2 c pf))) root c
    \<and> known (pf_storage (snd (coroutineCreated self t1 t2 c pf))) c
    \<and> (\<forall>d. coroutine_reach (pf_storage pf) root d \<longrightarrow>
           coroutine_reach (pf_storage (snd (coroutineCreated self t1 t2 c pf))) root d)"
proof -
  have st: "containsChildCoroutineStorage (current_coroutine_id pf self) (pf_storage pf)"
    using assms(2,3) by simp
  let ?s = "pf_storage (snd (coroutineCreated self t1 t2 c pf))"
  note ch = coroutineCreated_children [OF assms(1) st, of t1 t2 c]
  have mono: "coroutine_reach ?s root d" if "coroutine_reach (pf_storage pf) root d" for d
    by (rule coroutine_reach_mono [OF that]) (simp_all add: ch)
  have "coroutine_reach ?s root c"
    using assms(2,5) by (intro coroutine_reach.child [OF mono [OF assms(4)]]) (simp_all add: ch)
  then show ?thesis using mono coroutineCreated_total [OF assms(1)] by (simp add: ch)
qed

theorem created_coroutine_joins_trace_witness:
  "let pf = example_profiler\<lparr>pf_storage :=
         createChildCoroutineStorage 7 (createCoroutineInfo 1 2 7 storage_new),
       current_coroutine_id := (\<lambda>_. 7)\<rparr>
   in coroutine_reach (pf_storage (snd (coroutineCreated 3 5 6 8 pf))) 7 8"
proof -
  let ?s = "createChildCoroutineStorage 7 (createCoroutineInfo 1 2 7 storage_new)"
  let ?pf = "example_profiler\<lparr>pf_storage := ?s, current_coroutine_id := (\<lambda>_. 7)\<rparr>"
  have "profiler_ok (example_profiler\<lparr>pf_storage := ?s\<rparr>)"
    using example_ok(1) by (intro profiler_ok_storage)
      (simp_all add: ok_createCoroutineInfo ok_createChildCoroutineStorage storage_ok_new
        example_profiler_def profiler_new_def)
  then have ok: "profiler_ok ?pf" by simp
  have c: "containsChildCoroutineStorage 7 (pf_storage ?pf)"
    by (simp add: containsChildCoroutineStorage_def createChildCoroutineStorage_def Let_def split_def
        om_insert_def cm_contains_find cm_find_insert)
  from created_coroutine_joins_trace [OF ok _ c coroutine_reach.root, of 3 5 6 8] show ?thesis
    by (simp add: known_create)
qed

end
