(* ===== verification/Sample_Processing.thy ===== *)
theory Sample_Processing
  imports Coroutine_Accounting
begin

text \<open>
  The path of a sample through the profiler: raw records are taken from the queue in order, their
  frames are named, and the results are filed under the coroutine of the sample.
\<close>

section \<open>What a raw record becomes\<close>

definition processed_of :: "method_env \<Rightarrow> jvm_threads \<Rightarrow> raw_call_trace_record \<Rightarrow> processed_trace_record option" where
  "processed_of env j raw =
     (case (thread_name (findThread (rr_thread raw) j) j, rr_trace raw) of
        (Inr name, Some trace) \<Rightarrow>
          if length (at_instructions trace) < nat (sint (rr_trace_count raw)) then None
          else map_option
            (\<lambda>fs. \<lparr>pr_stack_trace = fs, pr_thread_name = name, pr_time = rr_time raw\<rparr>)
            (those (map (pure_frame env) (take (nat (sint (rr_trace_count raw))) (at_instructions trace))))
      | _ \<Rightarrow> None)"

definition samples :: "profiler \<Rightarrow> jlong \<Rightarrow> processed_trace_record list" where
  "samples pf c = (case as_processed (storage_abs (pf_storage pf)) c of Some rs \<Rightarrow> rs | None \<Rightarrow> [])"

lemma map_nth_upt: "n \<le> length xs \<Longrightarrow> map (\<lambda>i. f (xs ! i)) [0..<n] = map f (take n xs)"
  by (rule nth_equalityI) auto

lemma record_frames_ok:
  assumes "tables_ok env mt" and "processed_of env j raw = Some pr"
  shows "\<exists>mt'. record_frames env raw mt = (Inr (pr_stack_trace pr), mt') \<and> tables_ok env mt'"
proof -
  from assms(2) obtain trace where t: "rr_trace raw = Some trace"
    "nat (sint (rr_trace_count raw)) \<le> length (at_instructions trace)"
    "those (map (pure_frame env) (take (nat (sint (rr_trace_count raw))) (at_instructions trace))) =
       Some (pr_stack_trace pr)"
    by (auto simp: processed_of_def split: sum.splits option.splits if_splits)
  then have "those (map (\<lambda>i. pure_frame env (at_instructions trace ! i))
      [0..<nat (sint (rr_trace_count raw))]) = Some (pr_stack_trace pr)"
    by (simp add: map_nth_upt)
  with process_instructions_ok [OF assms(1) _ this] t show ?thesis
    by (simp add: record_frames_def Let_def)
qed

lemma process_record_ok:
  assumes "profiler_ok pf" and "tables_ok env (pf_tables pf)"
    and "processed_of env (pf_jvm pf) raw = Some pr"
  shows "\<exists>pf'. process_record env raw pf = (Inr (), pf') \<and> profiler_ok pf' \<and> tables_ok env (pf_tables pf')
    \<and> pf_jvm pf' = pf_jvm pf \<and> raw_list (pf_storage pf') = raw_list (pf_storage pf)
    \<and> (\<forall>c. samples pf' c = samples pf c @ (if c = rr_coroutine_id raw then [pr] else []))"
proof -
  obtain name where n: "thread_name (findThread (rr_thread raw) (pf_jvm pf)) (pf_jvm pf) = Inr name"
    and pr: "pr = \<lparr>pr_stack_trace = pr_stack_trace pr, pr_thread_name = name, pr_time = rr_time raw\<rparr>"
    using assms(3) by (auto simp: processed_of_def split: sum.splits option.splits if_splits)
  obtain mt where mt: "record_frames env raw (pf_tables pf) = (Inr (pr_stack_trace pr), mt)"
    "tables_ok env mt"
    using record_frames_ok [OF assms(2,3)] by blast
  obtain s' where s': "addProcessedTrace (rr_coroutine_id raw) pr (pf_storage pf) = Inr s'"
    using exec_fails_iff [OF profiler_okD(1) [OF assms(1)], of "Add_processed (rr_coroutine_id raw) pr"]
    by (cases "addProcessedTrace (rr_coroutine_id raw) pr (pf_storage pf)") (auto simp: exec_fails_def)
  have e: "process_record env raw pf = (Inr (), pf\<lparr>pf_tables := mt, pf_storage := s'\<rparr>)"
    using n mt(1) s' pr by (simp add: process_record_def Let_def)
  have "profiler_ok (pf\<lparr>pf_tables := mt, pf_storage := s'\<rparr>)"
    using ok_process_record [OF assms(1), of env raw] e by simp
  moreover have "samples (pf\<lparr>pf_tables := mt, pf_storage := s'\<rparr>) c =
      samples pf c @ (if c = rr_coroutine_id raw then [pr] else [])" for c
    using abs_addProcessedTrace [OF profiler_okD(1) [OF assms(1)] s']
    by (simp add: samples_def map_append_def split: option.splits)
  ultimately show ?thesis
    using e mt(2) addProcessedTrace_raw_list [OF s'] by simp
qed

lemma removeRawTraceHeader_cases:
  "removeRawTraceHeader s =
     (case cl_list (raw_list s) of
        [] \<Rightarrow> Inr (None, s)
      | r # rs \<Rightarrow> Inr (Some r, s\<lparr>raw_list := (raw_list s)\<lparr>cl_list := rs\<rparr>\<rparr>))"
  by (simp add: removeRawTraceHeader_def cl_pop_front_cases split: list.splits)

lemma processTraces_ok:
  assumes "profiler_ok pf" and "tables_ok env (pf_tables pf)" and "cl_list (raw_list (pf_storage pf)) = rs"
    and "map (processed_of env (pf_jvm pf)) rs = map Some ps"
  shows "\<exists>pf'. processTraces env pf = (Inr (), pf') \<and> cl_list (raw_list (pf_storage pf')) = []
    \<and> (\<forall>c. samples pf' c = samples pf c @ map snd (filter (\<lambda>(r, p). rr_coroutine_id r = c) (zip rs ps)))"
  using assms
proof (induction rs arbitrary: pf ps)
  case Nil
  then show ?case
    by (subst processTraces.simps) (simp add: removeRawTraceHeader_cases)
next
  case (Cons r rs)
  then obtain p ps' where ps: "ps = p # ps'" "processed_of env (pf_jvm pf) r = Some p"
    "map (processed_of env (pf_jvm pf)) rs = map Some ps'"
    by (cases ps) auto
  define s where "s = (pf_storage pf)\<lparr>raw_list := (raw_list (pf_storage pf))\<lparr>cl_list := rs\<rparr>\<rparr>"
  have h: "removeRawTraceHeader (pf_storage pf) = Inr (Some r, s)"
    using Cons.prems(3) by (simp add: removeRawTraceHeader_cases s_def)
  have a: "profiler_ok (pf\<lparr>pf_storage := s\<rparr>)" "tables_ok env (pf_tables (pf\<lparr>pf_storage := s\<rparr>))"
    "processed_of env (pf_jvm (pf\<lparr>pf_storage := s\<rparr>)) r = Some p"
    using Cons.prems(1,2) ps ok_removeRawTraceHeader [OF profiler_okD(1) h]
    by (auto intro!: profiler_ok_storage simp: s_def)
  obtain pf1 where p1: "process_record env r (pf\<lparr>pf_storage := s\<rparr>) = (Inr (), pf1)" "profiler_ok pf1"
    "tables_ok env (pf_tables pf1)" "pf_jvm pf1 = pf_jvm pf" "raw_list (pf_storage pf1) = raw_list s"
    "\<forall>c. samples pf1 c = samples (pf\<lparr>pf_storage := s\<rparr>) c @ (if c = rr_coroutine_id r then [p] else [])"
    using process_record_ok [OF a] by auto
  have "samples (pf\<lparr>pf_storage := s\<rparr>) c = samples pf c" for c
    by (simp add: samples_def storage_abs_def s_def)
  with p1 h Cons.IH [OF p1(2,3), of ps'] ps show ?case
    by (subst processTraces.simps) (auto simp: s_def)
qed

section \<open>Properties\<close>

text \<open>
  C7. Every raw sample is delivered once, in order, to its coroutine. If the threads of the queued
  samples are registered, their instruction arrays are long enough and the JVM can name their
  methods, then processing empties the queue without an error, and the samples of every coroutine
  are the ones it had followed by its share of the queue, in the order of the queue, each with the
  frames, the thread name and the time of its raw record.
\<close>

theorem samples_are_delivered:
  assumes "profiler_ok pf" and "tables_ok env (pf_tables pf)"
    and "map (processed_of env (pf_jvm pf)) (cl_list (raw_list (pf_storage pf))) = map Some ps"
  shows "\<exists>pf'. processTraces env pf = (Inr (), pf') \<and> cl_list (raw_list (pf_storage pf')) = []
    \<and> (\<forall>c. samples pf' c = samples pf c
         @ map snd (filter (\<lambda>(r, p). rr_coroutine_id r = c) (zip (cl_list (raw_list (pf_storage pf))) ps)))"
  by (rule processTraces_ok [OF assms(1,2) _ assms(3)]) simp

text \<open>The instance: one sample of thread 3 with one Java frame and one native frame.\<close>

definition example_trace :: async_trace where
  "example_trace = async_trace_new
     [\<lparr>instruction = 77, frame = 0, java_frame = True\<rparr>, \<lparr>instruction = 5, frame = 0, java_frame = False\<rparr>]
     2 3 4096 8192"

theorem samples_are_delivered_witness:
  "\<exists>pf'. processTraces example_env
       (example_coroutine\<lparr>pf_storage := addRawTrace 50 example_trace 7 storage_new\<rparr>) = (Inr (), pf')
    \<and> samples pf' 7 =
       [\<lparr>pr_stack_trace = [\<lparr>sf_frame = ''run()V'', sf_base = ''LMain''\<rparr>,
                            \<lparr>sf_frame = ''unknown_native'', sf_base = ''''\<rparr>],
         pr_thread_name = ''main'', pr_time = 50\<rparr>]"
proof -
  let ?pf = "example_coroutine\<lparr>pf_storage := addRawTrace 50 example_trace 7 storage_new\<rparr>"
  have s: "ongoing example_coroutine = ongoing_trace_info_map storage_new"
    by (simp add: example_coroutine_def)
  have ok: "profiler_ok ?pf" "tables_ok example_env (pf_tables ?pf)"
    using example_coroutine_facts(1,4)
    by (simp_all add: profiler_ok_storage ok_addRawTrace storage_ok_new s)
  let ?r = "\<lparr>rr_time = 50, rr_trace_count = 2, rr_trace = Some example_trace, rr_thread = 3,
    rr_coroutine_id = 7\<rparr>"
  let ?p = "\<lparr>pr_stack_trace = [\<lparr>sf_frame = ''run()V'', sf_base = ''LMain''\<rparr>,
     \<lparr>sf_frame = ''unknown_native'', sf_base = ''''\<rparr>], pr_thread_name = ''main'', pr_time = 50\<rparr>"
  have r: "cl_list (raw_list (pf_storage ?pf)) = [?r]"
    by (simp add: addRawTrace_def storage_new_def cl_new_def cl_push_back_def
        raw_call_trace_record_new_def example_trace_def async_trace_new_def)
  have j: "pf_jvm example_coroutine = pf_jvm example_profiler" by (simp add: example_coroutine_def)
  have "thread_name (Some 0) (pf_jvm example_profiler) = Inr ''main''"
    by (simp add: thread_name_def example_profiler_def profiler_new_def addCurrentThread_def
        jvm_threads_new_def heap_alloc_def heap_empty_def thread_info_new_def Let_def)
  then have p: "processed_of example_env (pf_jvm ?pf) ?r = Some ?p"
    by (simp add: processed_of_def j example_thread example_trace_def async_trace_new_def
        pure_frame_def pure_method_frame_def example_env_def)
  have "samples ?pf 7 = []"
    by (simp add: samples_def storage_abs_def addRawTrace_def storage_new_def om_view_def)
  with samples_are_delivered [OF ok, of "[?p]"] r p show ?thesis by auto
qed

end
