(* ===== verification/Process_Memory.thy ===== *)
theory Process_Memory
  imports Tracer_Prelude
begin

text \<open>
  The memory of the traced process as the tracer reads it: a partial map from 64-bit addresses to
  bytes, read in little-endian order. Reading an unmapped byte is a fault. The theory also has the
  check whether a pointer may be read, \<open>utils/pointerValidation.cpp\<close>.
\<close>

section \<open>Reading\<close>

type_synonym memory = "u64 \<Rightarrow> u8 option"

definition read_fault :: error where
  "read_fault = Undefined_behaviour ''read of unmapped memory''"

fun read_bytes :: "memory \<Rightarrow> u64 \<Rightarrow> nat \<Rightarrow> u8 list result" where
  "read_bytes m a 0 = Inr []"
| "read_bytes m a (Suc n) =
     (case m a of
        None \<Rightarrow> Inl read_fault
      | Some b \<Rightarrow> rbind (read_bytes m (a + 1) n) (\<lambda>bs. Inr (b # bs)))"

fun le_nat :: "u8 list \<Rightarrow> nat" where
  "le_nat [] = 0"
| "le_nat (b # bs) = unat b + 256 * le_nat bs"

definition read_u64 :: "memory \<Rightarrow> u64 \<Rightarrow> u64 result" where
  "read_u64 m a = rbind (read_bytes m a 8) (\<lambda>bs. Inr (word_of_nat (le_nat bs)))"

definition read_i32 :: "memory \<Rightarrow> u64 \<Rightarrow> i32 result" where
  "read_i32 m a = rbind (read_bytes m a 4) (\<lambda>bs. Inr (word_of_nat (le_nat bs)))"

definition read_u16 :: "memory \<Rightarrow> u64 \<Rightarrow> u16 result" where
  "read_u16 m a = rbind (read_bytes m a 2) (\<lambda>bs. Inr (word_of_nat (le_nat bs)))"

definition read_u8 :: "memory \<Rightarrow> u64 \<Rightarrow> u8 result" where
  "read_u8 m a = (case m a of None \<Rightarrow> Inl read_fault | Some b \<Rightarrow> Inr b)"

text \<open>
  A zero-terminated string. The read ends at the first zero byte; \<^const>\<open>None\<close> means that it does
  not end, because no byte of the address space is zero.
\<close>

partial_function (option) read_cstr :: "memory \<Rightarrow> u64 \<Rightarrow> string result option" where
  "read_cstr m a =
     (case m a of
        None \<Rightarrow> Some (Inl read_fault)
      | Some b \<Rightarrow>
          if b = 0 then Some (Inr [])
          else Option.bind (read_cstr m (a + 1))
            (\<lambda>r. Some (rbind r (\<lambda>s. Inr (char_of (unat b) # s)))))"

declare read_cstr.simps [code]

section \<open>Pointer validation\<close>

definition is_aligned :: "u64 \<Rightarrow> bool" where
  "is_aligned p \<longleftrightarrow> p mod 8 = 0"

text \<open>
  On Linux the page that contains the address is passed to \<open>msync\<close>, whose answer is the parameter
  \<open>msync_ok\<close>. On macOS the kernel reports the first region that ends behind the address: its start
  and whether it is readable, or nothing.
\<close>

definition linux_is_valid :: "u64 \<Rightarrow> (u64 \<Rightarrow> bool) \<Rightarrow> u64 \<Rightarrow> bool" where
  "linux_is_valid page_size msync_ok address_ptr = msync_ok (address_ptr div page_size * page_size)"

definition apple_is_valid :: "(u64 \<Rightarrow> (u64 \<times> bool) option) \<Rightarrow> u64 \<Rightarrow> bool" where
  "apple_is_valid region address_ptr =
     (if address_ptr = 0 \<or> \<not> is_aligned address_ptr then False
      else (case region address_ptr of
              None \<Rightarrow> False
            | Some (address, readable) \<Rightarrow> address_ptr \<ge> address \<and> readable))"

section \<open>Lemmas\<close>

lemma read_bytes_mapped:
  assumes "\<forall>i<n. m (a + word_of_nat i) \<noteq> None"
  shows "\<exists>bs. read_bytes m a n = Inr bs \<and> length bs = n"
  using assms
proof (induction n arbitrary: a)
  case 0
  show ?case by simp
next
  case (Suc n)
  obtain b where b: "m a = Some b" using Suc.prems by force
  have "\<forall>i<n. m (a + 1 + word_of_nat i) \<noteq> None"
  proof (intro allI impI)
    fix i
    assume "i < n"
    with Suc.prems have "m (a + word_of_nat (Suc i)) \<noteq> None" by blast
    then show "m (a + 1 + word_of_nat i) \<noteq> None" by (simp add: algebra_simps)
  qed
  from Suc.IH [OF this] b show ?case by auto
qed

lemma read_bytes_numeral:
  "read_bytes m a (numeral k) =
     (case m a of
        None \<Rightarrow> Inl read_fault
      | Some b \<Rightarrow> rbind (read_bytes m (a + 1) (pred_numeral k)) (\<lambda>bs. Inr (b # bs)))"
  by (simp add: numeral_eq_Suc)

lemma read_u64_mapped: "\<forall>i<8. m (a + word_of_nat i) \<noteq> None \<Longrightarrow> \<exists>v. read_u64 m a = Inr v"
  using read_bytes_mapped [of 8 m a] by (auto simp: read_u64_def)

text \<open>The page of an address: it starts at or below the address and ends above it.\<close>

lemma linux_page:
  fixes page_size :: u64
  assumes "page_size \<noteq> 0"
  shows "p div page_size * page_size \<le> p" and "p - p div page_size * page_size < page_size"
  using assms word_mod_less_divisor [of page_size p]
  by (simp_all add: word_div_mult_le minus_div_mult_eq_mod word_neq_0_conv)

lemma read_cstr_zero: "m a = Some 0 \<Longrightarrow> read_cstr m a = Some (Inr [])"
  by (subst read_cstr.simps) simp

lemma read_cstr_step:
  "m a = Some b \<Longrightarrow> b \<noteq> 0 \<Longrightarrow> read_cstr m (a + 1) = Some (Inr s) \<Longrightarrow>
     read_cstr m a = Some (Inr (char_of (unat b) # s))"
  by (subst read_cstr.simps) simp

end
