(* ===== verification/Code_Cache.thy ===== *)
theory Code_Cache
  imports Process_Memory
begin

text \<open>
  \<open>vm/jvmCodeCache.h\<close> and \<open>vm/jvmCodeCache.cpp\<close>: how the tracer finds out, from raw memory of the
  JVM, whether an instruction belongs to Java code and which method it belongs to. The code cache
  consists of several heaps; each has a range of addresses and a segment map that leads from any
  segment of a block to its first segment.
\<close>

section \<open>State\<close>

text \<open>The offsets of the fields, resolved when the code cache is constructed.\<close>

record code_cache =
  compiledMethod_offset :: u64
  constMethod_offset :: u64
  constants_offset :: u64
  methodIdNum_offset :: u64
  poolHolder_offset :: u64
  jmethodIds_offset :: u64
  codeBlobName_offset :: u64
  memory_offset :: u64
  segmap_offset :: u64
  log2SegmentSize_offset :: u64
  low_offset :: u64
  high_offset :: u64
  heaps_data :: u64
  heaps_length :: u64
  heap_block_type_size :: u64

section \<open>Address ranges\<close>

definition heap_at :: "code_cache \<Rightarrow> memory \<Rightarrow> nat \<Rightarrow> u64 result" where
  "heap_at cc m i = read_u64 m (heaps_data cc + word_of_nat (8 * i))"

definition heap_range :: "code_cache \<Rightarrow> memory \<Rightarrow> u64 \<Rightarrow> (u64 \<times> u64) result" where
  "heap_range cc m heap_ptr =
     (let memory_ptr = heap_ptr + memory_offset cc in
      rbind (read_u64 m (memory_ptr + low_offset cc)) (\<lambda>low.
      rbind (read_u64 m (memory_ptr + high_offset cc)) (\<lambda>high. Inr (low, high))))"

text \<open>The loops over the heaps take the index and the number of heaps that are left.\<close>

fun isJavaFrame_loop :: "code_cache \<Rightarrow> memory \<Rightarrow> u64 \<Rightarrow> nat \<Rightarrow> nat \<Rightarrow> bool result" where
  "isJavaFrame_loop cc m ip i 0 = Inr False"
| "isJavaFrame_loop cc m ip i (Suc n) =
     rbind (heap_at cc m i) (\<lambda>heap_ptr.
     rbind (heap_range cc m heap_ptr) (\<lambda>(low, high).
       if low \<le> ip \<and> ip < high then Inr True else isJavaFrame_loop cc m ip (Suc i) n))"

definition isJavaFrame :: "code_cache \<Rightarrow> memory \<Rightarrow> u64 \<Rightarrow> bool result" where
  "isJavaFrame cc m ip =
     rbind (read_i32 m (heaps_length cc)) (\<lambda>len. isJavaFrame_loop cc m ip 0 (nat (sint len)))"

section \<open>Blocks\<close>

text \<open>
  The walk over the segment map: every entry says how far to go back, and 0 marks the start of a
  block. The index is a \<open>size_t\<close> and wraps; \<^const>\<open>None\<close> means that the walk does not end.
\<close>

partial_function (option) find_block :: "memory \<Rightarrow> u64 \<Rightarrow> u64 \<Rightarrow> u64 result option" where
  "find_block m seg_map seg_idx =
     (case read_u8 m (seg_map + seg_idx) of
        Inl e \<Rightarrow> Some (Inl e)
      | Inr b \<Rightarrow> if b > 0 then find_block m seg_map (seg_idx - ucast b) else Some (Inr seg_idx))"

declare find_block.simps [code]

text \<open>The identifier of a method, through its constant method and the holder of its constants.\<close>

definition cached_id :: "memory \<Rightarrow> u64 \<Rightarrow> u16 \<Rightarrow> u64 result" where
  "cached_id m jmethodIds idnum =
     (if jmethodIds = 0 then Inr 0
      else rbind (read_u64 m jmethodIds) (\<lambda>count.
        if count > ucast idnum then read_u64 m (jmethodIds + 8 * (ucast idnum + 1)) else Inr 0))"

definition interpreted_id :: "(u64 \<Rightarrow> bool) \<Rightarrow> code_cache \<Rightarrow> memory \<Rightarrow> u64 \<Rightarrow> u64 result" where
  "interpreted_id is_valid cc m fp =
     (if \<not> is_valid fp then Inr 0 else
      rbind (read_u64 m (fp - 24)) (\<lambda>method_ptr.
      if \<not> is_valid method_ptr then Inr 0 else
      rbind (read_u64 m (method_ptr + constMethod_offset cc)) (\<lambda>constMethod_ptr.
      if \<not> is_valid constMethod_ptr then Inr 0 else
      rbind (read_u16 m (constMethod_ptr + methodIdNum_offset cc)) (\<lambda>idnum.
      rbind (read_u64 m (constMethod_ptr + constants_offset cc)) (\<lambda>constantPool_ptr.
      if \<not> is_valid constantPool_ptr then Inr 0 else
      rbind (read_u64 m (constantPool_ptr + poolHolder_offset cc)) (\<lambda>poolHolder_ptr.
      if \<not> is_valid poolHolder_ptr then Inr 0 else
      if \<not> is_valid (poolHolder_ptr + jmethodIds_offset cc) then Inr 0 else
      rbind (read_u64 m (poolHolder_ptr + jmethodIds_offset cc)) (\<lambda>jmethodIds.
      rbind (cached_id m jmethodIds idnum) (\<lambda>method_id.
      if \<not> is_valid method_id then Inr 0 else Inr method_id))))))))"

definition compiled_id :: "code_cache \<Rightarrow> memory \<Rightarrow> u64 \<Rightarrow> u64 result" where
  "compiled_id cc m heapBlockAddr =
     rbind (read_u64 m (heapBlockAddr + compiledMethod_offset cc)) (\<lambda>method_ptr.
     rbind (read_u64 m (method_ptr + constMethod_offset cc)) (\<lambda>constMethod_ptr.
     rbind (read_u16 m (constMethod_ptr + methodIdNum_offset cc)) (\<lambda>idnum.
     rbind (read_u64 m (constMethod_ptr + constants_offset cc)) (\<lambda>constantPool_ptr.
     rbind (read_u64 m (constantPool_ptr + poolHolder_offset cc)) (\<lambda>poolHolder_ptr.
     rbind (read_u64 m (poolHolder_ptr + jmethodIds_offset cc)) (\<lambda>jmethodIds.
     cached_id m jmethodIds idnum))))))"

text \<open>\<open>strstr(s, t) != nullptr\<close>.\<close>

fun has_substring :: "string \<Rightarrow> string \<Rightarrow> bool" where
  "has_substring pat [] = (pat = [])"
| "has_substring pat (c # cs) = (take (length pat) (c # cs) = pat \<or> has_substring pat cs)"

text \<open>
  What happens in the heap that contains the instruction: \<open>Some id\<close> is a return from the function,
  \<open>None\<close> goes on with the next heap (a block that is neither the interpreter nor a compiled method).
\<close>

definition block_id ::
  "(u64 \<Rightarrow> bool) \<Rightarrow> code_cache \<Rightarrow> memory \<Rightarrow> u64 \<Rightarrow> u64 \<Rightarrow> u64 option result option" where
  "block_id is_valid cc m heapBlockAddr fp =
     (case read_u64 m (heapBlockAddr + codeBlobName_offset cc) of
        Inl e \<Rightarrow> Some (Inl e)
      | Inr name_ptr \<Rightarrow>
          Option.bind (read_cstr m name_ptr) (\<lambda>r. Some (rbind r (\<lambda>name.
            if name = ''Interpreter'' then rbind (interpreted_id is_valid cc m fp) (\<lambda>i. Inr (Some i))
            else if has_substring ''nmethod'' name
            then rbind (compiled_id cc m heapBlockAddr) (\<lambda>i. Inr (Some i))
            else Inr None))))"

text \<open>A shift of a 64-bit value by a negative number or by 64 and more is undefined.\<close>

definition valid_shift :: "i32 \<Rightarrow> bool" where
  "valid_shift n \<longleftrightarrow> 0 \<le> sint n \<and> sint n < 64"

definition heap_method ::
  "(u64 \<Rightarrow> bool) \<Rightarrow> code_cache \<Rightarrow> memory \<Rightarrow> u64 \<Rightarrow> u64 \<Rightarrow> u64 \<Rightarrow> u64 \<Rightarrow> i32 \<Rightarrow>
     u64 option result option" where
  "heap_method is_valid cc m ip fp heap_ptr low log2_segment_size =
     (case read_u64 m (heap_ptr + segmap_offset cc + low_offset cc) of
        Inl e \<Rightarrow> Some (Inl e)
      | Inr seg_map \<Rightarrow>
          if \<not> valid_shift log2_segment_size then Some (Inl (Undefined_behaviour ''shift''))
          else
            let s = nat (sint log2_segment_size) in
            Option.bind (find_block m seg_map (drop_bit s (ip - low))) (\<lambda>r.
              case r of
                Inl e \<Rightarrow> Some (Inl e)
              | Inr seg_idx \<Rightarrow>
                  block_id is_valid cc m (low + push_bit s seg_idx + heap_block_type_size cc) fp))"

fun getJMethodId_loop ::
  "(u64 \<Rightarrow> bool) \<Rightarrow> code_cache \<Rightarrow> memory \<Rightarrow> u64 \<Rightarrow> u64 \<Rightarrow> nat \<Rightarrow> nat \<Rightarrow> u64 result option" where
  "getJMethodId_loop is_valid cc m ip fp i 0 = Some (Inr 0)"
| "getJMethodId_loop is_valid cc m ip fp i (Suc n) =
     (case rbind (heap_at cc m i) (\<lambda>heap_ptr.
           rbind (read_i32 m (heap_ptr + log2SegmentSize_offset cc)) (\<lambda>log2.
           rbind (heap_range cc m heap_ptr) (\<lambda>(low, high). Inr (heap_ptr, log2, low, high)))) of
        Inl e \<Rightarrow> Some (Inl e)
      | Inr (heap_ptr, log2, low, high) \<Rightarrow>
          if low \<le> ip \<and> ip < high then
            Option.bind (heap_method is_valid cc m ip fp heap_ptr low log2) (\<lambda>r.
              case r of
                Inl e \<Rightarrow> Some (Inl e)
              | Inr (Some method_id) \<Rightarrow> Some (Inr method_id)
              | Inr None \<Rightarrow> getJMethodId_loop is_valid cc m ip fp (Suc i) n)
          else getJMethodId_loop is_valid cc m ip fp (Suc i) n)"

definition getJMethodId ::
  "(u64 \<Rightarrow> bool) \<Rightarrow> code_cache \<Rightarrow> memory \<Rightarrow> u64 \<Rightarrow> u64 \<Rightarrow> u64 result option" where
  "getJMethodId is_valid cc m ip fp =
     (if \<not> is_valid fp then Some (Inr 0)
      else (case read_i32 m (heaps_length cc) of
              Inl e \<Rightarrow> Some (Inl e)
            | Inr len \<Rightarrow> getJMethodId_loop is_valid cc m ip fp 0 (nat (sint len))))"

end
