(* ===== verification/Unwind.thy ===== *)
theory Unwind
  imports Code_Cache Trace_Model
begin

text \<open>
  \<open>profiler/unwind\<close>: the four implementations of \<open>unwind_stack\<close>, which the signal handler calls on
  the interrupted thread. On ARM the frame records on the stack are followed by hand; on x86-64 the
  frames come from libunwind, whose cursor is a parameter of the model. Every implementation fills
  the array of the sample and leaves the number of frames in its \<open>size\<close>.
\<close>

section \<open>What the implementations share\<close>

text \<open>The two lookups of the class \<open>JVM\<close> that an implementation calls.\<close>

record jvm_lookup =
  lk_isJavaFrame :: "u64 \<Rightarrow> bool result"
  lk_getJMethodId :: "u64 \<Rightarrow> u64 \<Rightarrow> u64 result option"

definition jvm_lookup_of :: "(u64 \<Rightarrow> bool) \<Rightarrow> code_cache \<Rightarrow> memory \<Rightarrow> jvm_lookup" where
  "jvm_lookup_of is_valid cc m =
     \<lparr>lk_isJavaFrame = isJavaFrame cc m, lk_getJMethodId = getJMethodId is_valid cc m\<rparr>"

definition is_pointer_in_stack :: "u64 \<Rightarrow> u64 \<Rightarrow> u64 \<Rightarrow> bool" where
  "is_pointer_in_stack p lo hi \<longleftrightarrow> p \<ge> lo \<and> p < hi"

text \<open>
  A write to an element of the array; outside of it the behaviour is undefined. The index is an
  \<open>int\<close> that starts at 0 and only grows; it stays below the length of the array.
\<close>

definition set_instruction :: "nat \<Rightarrow> instruction_info \<Rightarrow> async_trace \<Rightarrow> async_trace result" where
  "set_instruction i x t =
     (if i < length (at_instructions t) then Inr (t\<lparr>at_instructions := (at_instructions t)[i := x]\<rparr>)
      else Inl (Undefined_behaviour ''instructions''))"

definition native_info :: "u64 \<Rightarrow> u64 \<Rightarrow> instruction_info" where
  "native_info ip fp = \<lparr>instruction = ip, frame = fp, java_frame = False\<rparr>"

definition java_info :: "u64 \<Rightarrow> instruction_info" where
  "java_info jmethodId = \<lparr>instruction = jmethodId, frame = 0, java_frame = True\<rparr>"

text \<open>An unwinder changes nothing of a sample but the elements of its array.\<close>

definition frames_only :: "async_trace \<Rightarrow> async_trace \<Rightarrow> bool" where
  "frames_only t t' \<longleftrightarrow>
     length (at_instructions t') = length (at_instructions t)
     \<and> t' = t\<lparr>at_instructions := at_instructions t'\<rparr>"

lemma frames_only_refl [simp, intro]: "frames_only t t"
  by (simp add: frames_only_def)

lemma frames_only_trans [trans]: "frames_only t u \<Longrightarrow> frames_only u v \<Longrightarrow> frames_only t v"
  unfolding frames_only_def by (metis async_trace.update_convs(1) async_trace.surjective)

lemma frames_onlyD:
  assumes "frames_only t t'"
  shows "at_size t' = at_size t" and "length (at_instructions t') = length (at_instructions t)"
    and "at_thread_id t' = at_thread_id t" and "at_ready t' = at_ready t"
    and "at_coroutine_id t' = at_coroutine_id t" and "at_stack_lo t' = at_stack_lo t"
    and "at_stack_hi t' = at_stack_hi t"
proof -
  have e: "t' = t\<lparr>at_instructions := at_instructions t'\<rparr>"
    and "length (at_instructions t') = length (at_instructions t)"
    using assms by (simp_all add: frames_only_def)
  then show "length (at_instructions t') = length (at_instructions t)" by simp
  show "at_size t' = at_size t" "at_thread_id t' = at_thread_id t" "at_ready t' = at_ready t"
    "at_coroutine_id t' = at_coroutine_id t" "at_stack_lo t' = at_stack_lo t"
    "at_stack_hi t' = at_stack_hi t"
    by (subst e, simp)+
qed

lemma set_instruction_frames_only: "set_instruction i x t = Inr t' \<Longrightarrow> frames_only t t'"
  by (auto simp: set_instruction_def frames_only_def split: if_splits)

section \<open>ARM\<close>

text \<open>
  One round of the loop. First the frame is recorded; the flag says whether it was \<open>processed\<close>.
\<close>

definition record_frame ::
  "jvm_lookup \<Rightarrow> u64 \<Rightarrow> u64 \<Rightarrow> nat \<Rightarrow> async_trace \<Rightarrow> (bool \<times> async_trace) result option" where
  "record_frame jvm ip fp trace_index t =
     (case lk_isJavaFrame jvm ip of
        Inl e \<Rightarrow> Some (Inl e)
      | Inr java \<Rightarrow>
          if \<not> java then
            Some (rbind (set_instruction trace_index (native_info ip fp) t) (\<lambda>t. Inr (True, t)))
          else
            Option.bind (lk_getJMethodId jvm ip fp) (\<lambda>r. Some (rbind r (\<lambda>jmethodId.
              rbind (set_instruction trace_index (java_info jmethodId) t) (\<lambda>t.
              Inr (jmethodId \<noteq> 0, t))))))"

text \<open>
  Then the next frame is read from the stack: the frame pointer is the address of a pair of the
  caller's frame pointer and its return address. \<open>strip\<close> removes the authentication bits of a
  pointer on macOS and is the identity on Linux. \<^const>\<open>None\<close> leaves the loop.
\<close>

definition next_frame ::
  "(u64 \<Rightarrow> u64) \<Rightarrow> memory \<Rightarrow> u64 \<Rightarrow> u64 \<Rightarrow> u64 \<times> u64 \<times> u64 \<Rightarrow> (u64 \<times> u64 \<times> u64) option result" where
  "next_frame strip m lo hi f =
     (let (ip, last_fp, lr) = f in
      rbind (read_u64 m (strip last_fp)) (\<lambda>fp.
        if \<not> is_pointer_in_stack (fp + 8) lo hi \<or> fp mod 8 \<noteq> 0 \<or> fp < last_fp \<or> fp = 0 \<or> lr = 0
        then Inr None
        else rbind (read_u64 m (strip (fp + 8))) (\<lambda>lr'. Inr (Some (strip lr, fp, lr')))))"

lemma record_frame_frames_only:
  "record_frame jvm ip fp i t = Some (Inr (p, t')) \<Longrightarrow> frames_only t t'"
  by (auto simp: record_frame_def rbind_eq_Inr bind_eq_Some_conv set_instruction_frames_only
      split: sum.splits if_splits)

function aarch64_loop ::
  "(u64 \<Rightarrow> u64) \<Rightarrow> jvm_lookup \<Rightarrow> memory \<Rightarrow> u64 \<Rightarrow> u64 \<Rightarrow> u64 \<times> u64 \<times> u64 \<Rightarrow> nat \<Rightarrow> async_trace \<Rightarrow>
     (nat \<times> async_trace) result option" where
  "aarch64_loop strip jvm m lo hi f trace_index t =
     (case record_frame jvm (fst f) (fst (snd f)) trace_index t of
        None \<Rightarrow> None
      | Some (Inl e) \<Rightarrow> Some (Inl e)
      | Some (Inr (processed, t')) \<Rightarrow>
          (case next_frame strip m lo hi f of
             Inl e \<Rightarrow> Some (Inl e)
           | Inr None \<Rightarrow> Some (Inr (Suc trace_index, t'))
           | Inr (Some f') \<Rightarrow>
               if processed \<and> int (Suc trace_index) < sint (at_size t')
               then aarch64_loop strip jvm m lo hi f' (Suc trace_index) t'
               else Some (Inr (Suc trace_index, t'))))"
  by pat_completeness auto
termination
proof (relation "measure (\<lambda>(strip, jvm, m, lo, hi, f, i, t). nat (sint (at_size t)) - i)", simp)
  fix strip jvm m lo hi i t and f f' :: "u64 \<times> u64 \<times> u64" and r :: "(bool \<times> async_trace) result"
    and x p t' y
  assume "record_frame jvm (fst f) (fst (snd f)) i t = Some r" "r = Inr x" "(p, t') = x"
    and s: "p \<and> int (Suc i) < sint (at_size t')"
  then have "record_frame jvm (fst f) (fst (snd f)) i t = Some (Inr (p, t'))" by simp
  then have "at_size t' = at_size t" by (rule frames_onlyD(1) [OF record_frame_frames_only])
  with s show "((strip, jvm, m, lo, hi, f', Suc i, t'), strip, jvm, m, lo, hi, f, i, t)
      \<in> measure (\<lambda>(strip, jvm, m, lo, hi, f, i, t). nat (sint (at_size t)) - i)"
    by simp arith
qed

declare aarch64_loop.simps [simp del]

definition finish_unwind :: "(nat \<times> async_trace) result option \<Rightarrow> async_trace result option" where
  "finish_unwind r =
     Option.bind r (\<lambda>r. Some (rbind r (\<lambda>(trace_index, t). Inr (t\<lparr>at_size := word_of_nat trace_index\<rparr>))))"

definition aarch64_unwind_stack ::
  "(u64 \<Rightarrow> u64) \<Rightarrow> jvm_lookup \<Rightarrow> memory \<Rightarrow> u64 \<times> u64 \<times> u64 \<Rightarrow> u64 \<Rightarrow> u64 \<Rightarrow> async_trace \<Rightarrow>
     async_trace result option" where
  "aarch64_unwind_stack strip jvm m registers stack_lo stack_hi t =
     (let (ip, fp, lr) = registers in
      if \<not> is_pointer_in_stack fp stack_lo stack_hi \<or> fp mod 8 \<noteq> 0 \<or> fp = 0 \<or> ip = 0
      then Some (Inr (t\<lparr>at_size := 0\<rparr>))
      else finish_unwind (aarch64_loop strip jvm m stack_lo stack_hi (ip, fp, lr) 0 t))"

definition apple_aarch64_unwind_stack ::
  "(u64 \<Rightarrow> u64) \<Rightarrow> jvm_lookup \<Rightarrow> memory \<Rightarrow> u64 \<times> u64 \<times> u64 \<Rightarrow> u64 \<Rightarrow> u64 \<Rightarrow> async_trace \<Rightarrow>
     async_trace result option" where
  "apple_aarch64_unwind_stack strip_pointer = aarch64_unwind_stack strip_pointer"

definition linux_aarch64_unwind_stack ::
  "jvm_lookup \<Rightarrow> memory \<Rightarrow> u64 \<times> u64 \<times> u64 \<Rightarrow> u64 \<Rightarrow> u64 \<Rightarrow> async_trace \<Rightarrow>
     async_trace result option" where
  "linux_aarch64_unwind_stack = aarch64_unwind_stack (\<lambda>p. p)"

section \<open>x86-64\<close>

text \<open>
  libunwind: a cursor of any type with the operations the code calls. A step tells whether its
  result was positive and gives the new cursor; registers are read and set; the name of the
  procedure is known or not. The results of reading and setting registers are not checked by the
  code.
\<close>

datatype unw_reg =
  UNW_REG_IP | UNW_X86_64_RAX | UNW_X86_64_RDX | UNW_X86_64_RCX | UNW_X86_64_RBX | UNW_X86_64_RSI
  | UNW_X86_64_RDI | UNW_X86_64_RBP | UNW_X86_64_RSP | UNW_X86_64_R8 | UNW_X86_64_R9 | UNW_X86_64_R10
  | UNW_X86_64_R11 | UNW_X86_64_R12 | UNW_X86_64_R13 | UNW_X86_64_R14 | UNW_X86_64_R15

record 'c unwinder =
  unw_step :: "'c \<Rightarrow> bool \<times> 'c"
  unw_get_reg :: "'c \<Rightarrow> unw_reg \<Rightarrow> u64"
  unw_set_reg :: "'c \<Rightarrow> unw_reg \<Rightarrow> u64 \<Rightarrow> 'c"
  unw_get_proc_name :: "'c \<Rightarrow> string option"

subsection \<open>Linux\<close>

text \<open>
  The frames of the signal handler are skipped until the interrupted instruction is reached or there
  is no further frame; \<^const>\<open>None\<close> means that the skipping does not end.
\<close>

partial_function (option) linux_skip :: "'c unwinder \<Rightarrow> u64 \<Rightarrow> 'c \<Rightarrow> 'c option" where
  "linux_skip u rip cursor =
     (let (more, cursor) = unw_step u cursor in
      if \<not> more then Some cursor
      else if unw_get_reg u cursor UNW_REG_IP = rip then Some cursor
      else linux_skip u rip cursor)"

declare linux_skip.simps [code]

text \<open>
  A Java frame whose frame pointer does not lie in the stack leaves the element as it is.
\<close>

definition linux_x86_64_record ::
  "jvm_lookup \<Rightarrow> u64 \<Rightarrow> u64 \<Rightarrow> u64 \<Rightarrow> u64 \<Rightarrow> nat \<Rightarrow> async_trace \<Rightarrow> async_trace result option" where
  "linux_x86_64_record jvm lo hi ip rbp trace_index t =
     (case lk_isJavaFrame jvm ip of
        Inl e \<Rightarrow> Some (Inl e)
      | Inr java \<Rightarrow>
          if \<not> java then Some (set_instruction trace_index (native_info ip rbp) t)
          else if is_pointer_in_stack rbp lo hi then
            Option.bind (lk_getJMethodId jvm ip rbp) (\<lambda>r. Some (rbind r (\<lambda>jmethod_id.
              set_instruction trace_index (java_info jmethod_id) t)))
          else Some (Inr t))"

lemma linux_x86_64_record_frames_only:
  "linux_x86_64_record jvm lo hi ip rbp i t = Some (Inr t') \<Longrightarrow> frames_only t t'"
  by (auto simp: linux_x86_64_record_def rbind_eq_Inr bind_eq_Some_conv set_instruction_frames_only
      split: sum.splits if_splits)

function linux_x86_64_loop ::
  "'c unwinder \<Rightarrow> jvm_lookup \<Rightarrow> u64 \<Rightarrow> u64 \<Rightarrow> 'c \<Rightarrow> u64 \<Rightarrow> u64 \<Rightarrow> nat \<Rightarrow> async_trace \<Rightarrow>
     (nat \<times> async_trace) result option" where
  "linux_x86_64_loop u jvm lo hi cursor rbp lrbp trace_index t =
     (if lrbp \<noteq> 0 \<and> lrbp < rbp then Some (Inr (trace_index, t))
      else
        (case linux_x86_64_record jvm lo hi (unw_get_reg u cursor UNW_REG_IP)
                (unw_get_reg u cursor UNW_X86_64_RBP) trace_index t of
           None \<Rightarrow> None
         | Some (Inl e) \<Rightarrow> Some (Inl e)
         | Some (Inr t') \<Rightarrow>
             let rbp' = unw_get_reg u cursor UNW_X86_64_RBP;
                 (more, cursor') = unw_step u cursor
             in if more \<and> int (Suc trace_index) < sint (at_size t')
                then linux_x86_64_loop u jvm lo hi cursor' rbp' rbp' (Suc trace_index) t'
                else Some (Inr (Suc trace_index, t'))))"
  by pat_completeness auto
termination
proof (relation "measure (\<lambda>(u, jvm, lo, hi, c, rbp, lrbp, i, t). nat (sint (at_size t)) - i)", simp)
  fix u :: "'c unwinder" and jvm lo hi c c' rbp lrbp i t t' x y more rbp'
  assume "linux_x86_64_record jvm lo hi (unw_get_reg u c UNW_REG_IP) (unw_get_reg u c UNW_X86_64_RBP) i t
      = Some x" "x = Inr t'" and s: "more \<and> int (Suc i) < sint (at_size t')"
  then have "at_size t' = at_size t" using frames_onlyD(1) linux_x86_64_record_frames_only by blast
  with s show "((u, jvm, lo, hi, c', rbp', rbp', Suc i, t'), u, jvm, lo, hi, c, rbp, lrbp, i, t)
      \<in> measure (\<lambda>(u, jvm, lo, hi, c, rbp, lrbp, i, t). nat (sint (at_size t)) - i)"
    by simp arith
qed

declare linux_x86_64_loop.simps [simp del]

text \<open>
  \<open>rbp\<close> has no value yet when the loop is entered without a step; the loop does not read it then,
  because \<open>lrbp\<close> is 0.
\<close>

definition linux_x86_64_unwind_stack ::
  "'c unwinder \<Rightarrow> jvm_lookup \<Rightarrow> u64 \<Rightarrow> 'c \<Rightarrow> u64 \<Rightarrow> u64 \<Rightarrow> async_trace \<Rightarrow> async_trace result option" where
  "linux_x86_64_unwind_stack u jvm rip cursor stack_lo stack_hi t =
     Option.bind (linux_skip u rip cursor) (\<lambda>cursor.
       finish_unwind (linux_x86_64_loop u jvm stack_lo stack_hi cursor 0 0 0 t))"

subsection \<open>macOS\<close>

definition recovered_registers :: "unw_reg list" where
  "recovered_registers =
     [UNW_X86_64_RAX, UNW_X86_64_RDX, UNW_X86_64_RCX, UNW_X86_64_RBX, UNW_X86_64_RSI, UNW_X86_64_RDI,
      UNW_X86_64_RBP, UNW_X86_64_R8, UNW_X86_64_R9, UNW_X86_64_R10, UNW_X86_64_R11, UNW_X86_64_R12,
      UNW_X86_64_R13, UNW_X86_64_R14, UNW_X86_64_R15, UNW_REG_IP, UNW_X86_64_RSP]"

text \<open>\<open>ucontext\<close> gives the registers that the kernel saved at an address.\<close>

definition recover_frame :: "'c unwinder \<Rightarrow> (u64 \<Rightarrow> unw_reg \<Rightarrow> u64) \<Rightarrow> 'c \<Rightarrow> 'c" where
  "recover_frame u ucontext cursor =
     (let saved = ucontext (unw_get_reg u cursor UNW_X86_64_RBX)
      in fold (\<lambda>r c. unw_set_reg u c r (saved r)) recovered_registers cursor)"

partial_function (option) apple_skip ::
  "'c unwinder \<Rightarrow> (u64 \<Rightarrow> unw_reg \<Rightarrow> u64) \<Rightarrow> 'c \<Rightarrow> 'c option" where
  "apple_skip u ucontext cursor =
     (let (more, cursor) = unw_step u cursor in
      if \<not> more then Some cursor
      else if unw_get_proc_name u cursor = Some ''_sigtramp'' then Some (recover_frame u ucontext cursor)
      else apple_skip u ucontext cursor)"

declare apple_skip.simps [code]

definition apple_x86_64_record ::
  "(u64 \<Rightarrow> bool) \<Rightarrow> jvm_lookup \<Rightarrow> u64 \<Rightarrow> u64 \<Rightarrow> u64 \<Rightarrow> u64 \<Rightarrow> nat \<Rightarrow> async_trace \<Rightarrow>
     (bool \<times> async_trace) result option" where
  "apple_x86_64_record dladdr jvm lo hi ip rbp trace_index t =
     (if dladdr ip then
        Some (rbind (set_instruction trace_index (native_info ip rbp) t) (\<lambda>t. Inr (True, t)))
      else if is_pointer_in_stack rbp lo hi then
        Option.bind (lk_getJMethodId jvm ip rbp) (\<lambda>r. Some (rbind r (\<lambda>jmethodId.
          rbind (set_instruction trace_index (java_info jmethodId) t) (\<lambda>t. Inr (jmethodId \<noteq> 0, t)))))
      else Some (Inr (False, t)))"

lemma apple_x86_64_record_frames_only:
  "apple_x86_64_record dladdr jvm lo hi ip rbp i t = Some (Inr (p, t')) \<Longrightarrow> frames_only t t'"
  by (auto simp: apple_x86_64_record_def rbind_eq_Inr bind_eq_Some_conv set_instruction_frames_only
      split: sum.splits if_splits)

text \<open>The frame that is recorded last is counted only if the loop ends by its condition.\<close>

function apple_x86_64_loop ::
  "'c unwinder \<Rightarrow> (u64 \<Rightarrow> bool) \<Rightarrow> jvm_lookup \<Rightarrow> u64 \<Rightarrow> u64 \<Rightarrow> 'c \<Rightarrow> u64 \<Rightarrow> u64 \<Rightarrow> nat \<Rightarrow> async_trace \<Rightarrow>
     (nat \<times> async_trace) result option" where
  "apple_x86_64_loop u dladdr jvm lo hi cursor ip rbp trace_index t =
     (case apple_x86_64_record dladdr jvm lo hi ip rbp trace_index t of
        None \<Rightarrow> None
      | Some (Inl e) \<Rightarrow> Some (Inl e)
      | Some (Inr (processed, t')) \<Rightarrow>
          let (more, cursor') = unw_step u cursor in
          if \<not> more then Some (Inr (trace_index, t'))
          else
            let ip' = unw_get_reg u cursor' UNW_REG_IP; rbp' = unw_get_reg u cursor' UNW_X86_64_RBP in
            if ip = ip' \<or> rbp' = 0 then Some (Inr (trace_index, t'))
            else if processed \<and> int (Suc trace_index) < sint (at_size t')
            then apple_x86_64_loop u dladdr jvm lo hi cursor' ip' rbp' (Suc trace_index) t'
            else Some (Inr (Suc trace_index, t')))"
  by pat_completeness auto
termination
proof (relation "measure (\<lambda>(u, d, jvm, lo, hi, c, ip, rbp, i, t). nat (sint (at_size t)) - i)", simp)
  fix u :: "'c unwinder" and d jvm lo hi c c' ip rbp i t p t' r x ip' rbp'
  assume "apple_x86_64_record d jvm lo hi ip rbp i t = Some r" "r = Inr x" "(p, t') = x"
    and s: "p \<and> int (Suc i) < sint (at_size t')"
  then have "apple_x86_64_record d jvm lo hi ip rbp i t = Some (Inr (p, t'))" by simp
  then have "at_size t' = at_size t" by (rule frames_onlyD(1) [OF apple_x86_64_record_frames_only])
  with s show "((u, d, jvm, lo, hi, c', ip', rbp', Suc i, t'), u, d, jvm, lo, hi, c, ip, rbp, i, t)
      \<in> measure (\<lambda>(u, d, jvm, lo, hi, c, ip, rbp, i, t). nat (sint (at_size t)) - i)"
    by simp arith
qed

declare apple_x86_64_loop.simps [simp del]

definition apple_x86_64_unwind_stack ::
  "'c unwinder \<Rightarrow> (u64 \<Rightarrow> unw_reg \<Rightarrow> u64) \<Rightarrow> (u64 \<Rightarrow> bool) \<Rightarrow> jvm_lookup \<Rightarrow> 'c \<Rightarrow> u64 \<Rightarrow> u64 \<Rightarrow>
     async_trace \<Rightarrow> async_trace result option" where
  "apple_x86_64_unwind_stack u ucontext dladdr jvm cursor stack_lo stack_hi t =
     Option.bind (apple_skip u ucontext cursor) (\<lambda>cursor.
       finish_unwind (apple_x86_64_loop u dladdr jvm stack_lo stack_hi cursor
         (unw_get_reg u cursor UNW_REG_IP) (unw_get_reg u cursor UNW_X86_64_RBP) 0 t))"

end
