(* ===== verification/Unwind_Spec.thy ===== *)
theory Unwind_Spec
  imports Unwind
begin

text \<open>
  What the unwinders promise. The locale \<open>stack_unwinder\<close> is the contract the signal handler relies
  on; it is interpreted for all four platforms. For ARM, where the tracer follows the stack itself,
  the loop is shown to read only inside the stack, to end, and to compute what a reference
  definition on lists says; for Linux on x86-64 it is shown to visit the frames of libunwind in
  order.
\<close>

section \<open>The contract\<close>

text \<open>
  The first argument of \<open>unwind\<close> is what the interrupted thread presents: the memory and the
  registers or the cursor at that moment.
\<close>

locale stack_unwinder =
  fixes unwind :: "'x \<Rightarrow> u64 \<Rightarrow> u64 \<Rightarrow> async_trace \<Rightarrow> async_trace result option"
  assumes unwind_keeps:
      "unwind x lo hi t = Some (Inr t') \<Longrightarrow> frames_only t (t'\<lparr>at_size := at_size t\<rparr>)"
    and unwind_size:
      "unwind x lo hi t = Some (Inr t') \<Longrightarrow> 0 < sint (at_size t) \<Longrightarrow>
         0 \<le> sint (at_size t') \<and> sint (at_size t') \<le> sint (at_size t)"
begin

lemma unwind_fields:
  assumes "unwind x lo hi t = Some (Inr t')"
  shows "length (at_instructions t') = length (at_instructions t)"
    and "at_thread_id t' = at_thread_id t" and "at_ready t' = at_ready t"
    and "at_stack_lo t' = at_stack_lo t" and "at_stack_hi t' = at_stack_hi t"
  using frames_onlyD [OF unwind_keeps [OF assms]] by simp_all

text \<open>The frames of a sample lie in its array.\<close>

lemma unwind_in_range:
  assumes "unwind x lo hi t = Some (Inr t')" and "0 < sint (at_size t)"
    and "nat (sint (at_size t)) \<le> length (at_instructions t)"
  shows "nat (sint (at_size t')) \<le> length (at_instructions t')"
  using unwind_size [OF assms(1,2)] unwind_fields(1) [OF assms(1)] assms(3) by linarith

end

text \<open>A loop that ends with an index above its start and within the size meets the contract.\<close>

lemma sint_word_of_nat_index:
  assumes "int n \<le> sint (s :: i64)"
  shows "sint (word_of_nat n :: i64) = int n"
proof -
  have "int n < 2 ^ 63" using assms sint_i64_bounds(2) [of s] by linarith
  then show ?thesis by (simp add: signed_of_nat signed_take_bit_int_eq_self)
qed

lemma finish_unwind_contract:
  assumes "finish_unwind r = Some (Inr t')"
    and "\<And>n t1. r = Some (Inr (n, t1)) \<Longrightarrow>
      frames_only t t1 \<and> (0 < sint (at_size t) \<longrightarrow> int n \<le> sint (at_size t))"
  shows "frames_only t (t'\<lparr>at_size := at_size t\<rparr>)"
    and "0 < sint (at_size t) \<Longrightarrow> 0 \<le> sint (at_size t') \<and> sint (at_size t') \<le> sint (at_size t)"
proof -
  obtain n t1 where r: "r = Some (Inr (n, t1))" and t': "t' = t1\<lparr>at_size := word_of_nat n\<rparr>"
    using assms(1) by (auto simp: finish_unwind_def rbind_eq_Inr bind_eq_Some_conv)
  from assms(2) [OF r] have k: "frames_only t t1" "0 < sint (at_size t) \<longrightarrow> int n \<le> sint (at_size t)"
    by simp_all
  have "t1\<lparr>at_size := at_size t\<rparr> = t1" using frames_onlyD(1) [OF k(1)] by simp
  then show "frames_only t (t'\<lparr>at_size := at_size t\<rparr>)" using k(1) by (simp add: t')
  assume "0 < sint (at_size t)"
  with k(2) have "int n \<le> sint (at_size t)" by simp
  then show "0 \<le> sint (at_size t') \<and> sint (at_size t') \<le> sint (at_size t)"
    using sint_word_of_nat_index by (simp add: t')
qed

section \<open>The four unwinders meet it\<close>

lemma aarch64_loop_contract:
  assumes "aarch64_loop strip jvm m lo hi f i t = Some (Inr (n, t'))"
  shows "frames_only t t' \<and> (int i < sint (at_size t) \<longrightarrow> int n \<le> sint (at_size t))"
  using assms
proof (induction strip jvm m lo hi f i t arbitrary: n t' rule: aarch64_loop.induct)
  case (1 strip jvm m lo hi f i t)
  obtain p t1 where r: "record_frame jvm (fst f) (fst (snd f)) i t = Some (Inr (p, t1))"
    using 1(2) by (subst (asm) aarch64_loop.simps) (auto split: option.splits sum.splits)
  have k: "frames_only t t1" by (rule record_frame_frames_only [OF r])
  note size = frames_onlyD(1) [OF k]
  show ?case
  proof (cases "\<exists>f'. next_frame strip m lo hi f = Inr (Some f') \<and> p \<and> int (Suc i) < sint (at_size t1)")
    case True
    then obtain f' where f': "next_frame strip m lo hi f = Inr (Some f')"
      "p" "int (Suc i) < sint (at_size t1)" by blast
    with 1(2) r have e: "aarch64_loop strip jvm m lo hi f' (Suc i) t1 = Some (Inr (n, t'))"
      by (subst (asm) aarch64_loop.simps) simp
    from 1(1) [OF r _ _ f'(1) _ _ e] f' have "frames_only t1 t'" "int n \<le> sint (at_size t1)" by simp_all
    with k size show ?thesis using frames_only_trans by auto
  next
    case False
    with 1(2) r have "n = Suc i" "t' = t1"
      by (subst (asm) aarch64_loop.simps, auto split: sum.splits option.splits if_splits)+
    with k show ?thesis by auto
  qed
qed

lemma linux_x86_64_loop_contract:
  assumes "linux_x86_64_loop u jvm lo hi c rbp lrbp i t = Some (Inr (n, t'))"
  shows "frames_only t t' \<and> (int i < sint (at_size t) \<longrightarrow> int n \<le> sint (at_size t))"
  using assms
proof (induction u jvm lo hi c rbp lrbp i t arbitrary: n t' rule: linux_x86_64_loop.induct)
  case (1 u jvm lo hi c rbp lrbp i t)
  show ?case
  proof (cases "lrbp \<noteq> 0 \<and> lrbp < rbp")
    case True
    with 1(2) show ?thesis by (subst (asm) linux_x86_64_loop.simps) simp
  next
    case False
    obtain t1 where r: "linux_x86_64_record jvm lo hi (unw_get_reg u c UNW_REG_IP)
        (unw_get_reg u c UNW_X86_64_RBP) i t = Some (Inr t1)"
      using 1(2) False by (subst (asm) linux_x86_64_loop.simps) (auto split: option.splits sum.splits)
    have k: "frames_only t t1" by (rule linux_x86_64_record_frames_only [OF r])
    note size = frames_onlyD(1) [OF k]
    obtain more c' where s: "unw_step u c = (more, c')" by (cases "unw_step u c")
    show ?thesis
    proof (cases "more \<and> int (Suc i) < sint (at_size t1)")
      case True
      let ?rbp = "unw_get_reg u c UNW_X86_64_RBP"
      from 1(2) r s False True have e: "linux_x86_64_loop u jvm lo hi c' ?rbp ?rbp (Suc i) t1 = Some (Inr (n, t'))"
        by (subst (asm) linux_x86_64_loop.simps) (simp add: Let_def)
      from 1(1) [OF False r _ HOL.refl s [symmetric] _ True e] True
      have "frames_only t1 t'" "int n \<le> sint (at_size t1)" by simp_all
      with k size show ?thesis using frames_only_trans by auto
    next
      case nomore: False
      with 1(2) r s False have "n = Suc i" "t' = t1"
        by (subst (asm) linux_x86_64_loop.simps, auto simp: Let_def)+
      with k show ?thesis by auto
    qed
  qed
qed

lemma apple_x86_64_loop_contract:
  assumes "apple_x86_64_loop u d jvm lo hi c ip rbp i t = Some (Inr (n, t'))"
  shows "frames_only t t' \<and> (int i < sint (at_size t) \<longrightarrow> int n \<le> sint (at_size t))"
  using assms
proof (induction u d jvm lo hi c ip rbp i t arbitrary: n t' rule: apple_x86_64_loop.induct)
  case (1 u d jvm lo hi c ip rbp i t)
  obtain p t1 where r: "apple_x86_64_record d jvm lo hi ip rbp i t = Some (Inr (p, t1))"
    using 1(2) by (subst (asm) apple_x86_64_loop.simps) (auto split: option.splits sum.splits)
  have k: "frames_only t t1" by (rule apple_x86_64_record_frames_only [OF r])
  note size = frames_onlyD(1) [OF k]
  obtain more c' where s: "unw_step u c = (more, c')" by (cases "unw_step u c")
  let ?ip = "unw_get_reg u c' UNW_REG_IP" and ?rbp = "unw_get_reg u c' UNW_X86_64_RBP"
  show ?case
  proof (cases "more \<and> ip \<noteq> ?ip \<and> ?rbp \<noteq> 0 \<and> p \<and> int (Suc i) < sint (at_size t1)")
    case True
    then have b: "\<not> \<not> more" "\<not> (ip = ?ip \<or> ?rbp = 0)" "p \<and> int (Suc i) < sint (at_size t1)" by simp_all
    from 1(2) r s True have e: "apple_x86_64_loop u d jvm lo hi c' ?ip ?rbp (Suc i) t1 = Some (Inr (n, t'))"
      by (subst (asm) apple_x86_64_loop.simps) (simp add: Let_def)
    from 1(1) [OF r _ _ s [symmetric] _ b(1) HOL.refl HOL.refl b(2,3) e] True
    have "frames_only t1 t'" "int n \<le> sint (at_size t1)" by simp_all
    with k size show ?thesis using frames_only_trans by auto
  next
    case False
    with 1(2) r s have "(n = i \<or> n = Suc i) \<and> t' = t1"
      by (subst (asm) apple_x86_64_loop.simps) (auto simp: Let_def split: if_splits)
    with k show ?thesis by auto
  qed
qed

lemma aarch64_contract:
  assumes "aarch64_unwind_stack strip jvm m regs lo hi t = Some (Inr t')"
  shows "frames_only t (t'\<lparr>at_size := at_size t\<rparr>)"
    and "0 < sint (at_size t) \<Longrightarrow> 0 \<le> sint (at_size t') \<and> sint (at_size t') \<le> sint (at_size t)"
proof -
  obtain ip fp lr where regs: "regs = (ip, fp, lr)" by (cases regs) auto
  let ?r = "aarch64_loop strip jvm m lo hi (ip, fp, lr) 0 t"
  have l: "frames_only t t1 \<and> (0 < sint (at_size t) \<longrightarrow> int n \<le> sint (at_size t))"
    if "?r = Some (Inr (n, t1))" for n t1
    using aarch64_loop_contract [OF that] by simp
  have c: "t' = t\<lparr>at_size := 0\<rparr> \<or> finish_unwind ?r = Some (Inr t')"
    using assms unfolding aarch64_unwind_stack_def regs Let_def prod.case by (simp split: if_split_asm)
  show "frames_only t (t'\<lparr>at_size := at_size t\<rparr>)"
    using c finish_unwind_contract(1) [OF _ l] by (elim disjE) simp_all
  show "0 \<le> sint (at_size t') \<and> sint (at_size t') \<le> sint (at_size t)" if "0 < sint (at_size t)"
    using c finish_unwind_contract(2) [OF _ l that] that by (elim disjE) simp_all
qed

interpretation linux_aarch64: stack_unwinder
  "\<lambda>(m, regs). linux_aarch64_unwind_stack (jvm_lookup_of is_valid cc m) m regs" for is_valid cc
  by unfold_locales (auto simp: linux_aarch64_unwind_stack_def dest: aarch64_contract)

interpretation apple_aarch64: stack_unwinder
  "\<lambda>(m, regs). apple_aarch64_unwind_stack strip (jvm_lookup_of is_valid cc m) m regs"
  for strip is_valid cc
  by unfold_locales (auto simp: apple_aarch64_unwind_stack_def dest: aarch64_contract)

lemma linux_x86_64_contract:
  assumes "linux_x86_64_unwind_stack u jvm rip c lo hi t = Some (Inr t')"
  shows "frames_only t (t'\<lparr>at_size := at_size t\<rparr>)"
    and "0 < sint (at_size t) \<Longrightarrow> 0 \<le> sint (at_size t') \<and> sint (at_size t') \<le> sint (at_size t)"
proof -
  obtain c' where f: "finish_unwind (linux_x86_64_loop u jvm lo hi c' 0 0 0 t) = Some (Inr t')"
    using assms by (auto simp: linux_x86_64_unwind_stack_def bind_eq_Some_conv)
  have l: "frames_only t t1 \<and> (0 < sint (at_size t) \<longrightarrow> int n \<le> sint (at_size t))"
    if "linux_x86_64_loop u jvm lo hi c' 0 0 0 t = Some (Inr (n, t1))" for n t1
    using linux_x86_64_loop_contract [OF that] by simp
  show "frames_only t (t'\<lparr>at_size := at_size t\<rparr>)" by (rule finish_unwind_contract(1) [OF f l])
  show "0 < sint (at_size t) \<Longrightarrow> 0 \<le> sint (at_size t') \<and> sint (at_size t') \<le> sint (at_size t)"
    by (rule finish_unwind_contract(2) [OF f l])
qed

interpretation linux_x86_64: stack_unwinder
  "\<lambda>(m, rip, c). linux_x86_64_unwind_stack u (jvm_lookup_of is_valid cc m) rip c" for u is_valid cc
  by unfold_locales (auto dest: linux_x86_64_contract)

lemma apple_x86_64_contract:
  assumes "apple_x86_64_unwind_stack u ucontext d jvm c lo hi t = Some (Inr t')"
  shows "frames_only t (t'\<lparr>at_size := at_size t\<rparr>)"
    and "0 < sint (at_size t) \<Longrightarrow> 0 \<le> sint (at_size t') \<and> sint (at_size t') \<le> sint (at_size t)"
proof -
  obtain c' ip rbp where f: "finish_unwind (apple_x86_64_loop u d jvm lo hi c' ip rbp 0 t) = Some (Inr t')"
    using assms by (auto simp: apple_x86_64_unwind_stack_def bind_eq_Some_conv)
  have l: "frames_only t t1 \<and> (0 < sint (at_size t) \<longrightarrow> int n \<le> sint (at_size t))"
    if "apple_x86_64_loop u d jvm lo hi c' ip rbp 0 t = Some (Inr (n, t1))" for n t1
    using apple_x86_64_loop_contract [OF that] by simp
  show "frames_only t (t'\<lparr>at_size := at_size t\<rparr>)" by (rule finish_unwind_contract(1) [OF f l])
  show "0 < sint (at_size t) \<Longrightarrow> 0 \<le> sint (at_size t') \<and> sint (at_size t') \<le> sint (at_size t)"
    by (rule finish_unwind_contract(2) [OF f l])
qed

interpretation apple_x86_64: stack_unwinder
  "\<lambda>(m, c). apple_x86_64_unwind_stack u ucontext d (jvm_lookup_of is_valid cc m) c"
  for u ucontext d is_valid cc
  by unfold_locales (auto dest: apple_x86_64_contract)

section \<open>ARM: the stack is followed safely\<close>

text \<open>
  The reference: a frame is recorded as native with its frame pointer or as a Java method; the list
  of the recorded frames goes on while there is a next frame, the frame was resolved, and the
  budget lasts.
\<close>

definition frame_record :: "jvm_lookup \<Rightarrow> u64 \<times> u64 \<times> u64 \<Rightarrow> (bool \<times> instruction_info) option" where
  "frame_record jvm f =
     (let (ip, fp, lr) = f in
      case lk_isJavaFrame jvm ip of
        Inl _ \<Rightarrow> None
      | Inr False \<Rightarrow> Some (True, native_info ip fp)
      | Inr True \<Rightarrow>
          (case lk_getJMethodId jvm ip fp of
             Some (Inr i) \<Rightarrow> Some (i \<noteq> 0, java_info i)
           | _ \<Rightarrow> None))"

fun unwind_ref ::
  "(u64 \<Rightarrow> u64) \<Rightarrow> jvm_lookup \<Rightarrow> memory \<Rightarrow> u64 \<Rightarrow> u64 \<Rightarrow> u64 \<times> u64 \<times> u64 \<Rightarrow> nat \<Rightarrow> instruction_info list" where
  "unwind_ref strip jvm m lo hi f 0 = []"
| "unwind_ref strip jvm m lo hi f (Suc budget) =
     (case frame_record jvm f of
        None \<Rightarrow> []
      | Some (processed, x) \<Rightarrow>
          x # (case next_frame strip m lo hi f of
                 Inr (Some f') \<Rightarrow> if processed then unwind_ref strip jvm m lo hi f' budget else []
               | _ \<Rightarrow> []))"

text \<open>
  The stack of a thread: aligned bounds, not at address 0, and readable. A frame is good when its
  frame pointer is an aligned address in the stack.
\<close>

definition stack_ok :: "memory \<Rightarrow> u64 \<Rightarrow> u64 \<Rightarrow> bool" where
  "stack_ok m lo hi \<longleftrightarrow>
     0 < lo \<and> lo mod 8 = 0 \<and> hi mod 8 = 0 \<and> (\<forall>a. lo \<le> a \<and> a < hi \<longrightarrow> m a \<noteq> None)"

definition frame_ok :: "u64 \<Rightarrow> u64 \<Rightarrow> u64 \<times> u64 \<times> u64 \<Rightarrow> bool" where
  "frame_ok lo hi f \<longleftrightarrow> is_pointer_in_stack (fst (snd f)) lo hi \<and> fst (snd f) mod 8 = 0"

lemma unat_u64_less: "unat (p :: u64) < 2 ^ 64"
  by (rule order_less_le_trans [OF unsigned_less]) simp

lemma unat_mod_8: "unat (p mod (8 :: u64)) = unat p mod 8"
  by (simp add: unat_mod)

lemma aligned_iff: "p mod (8 :: u64) = 0 \<longleftrightarrow> 8 dvd unat p"
  by (metis unat_mod_8 dvd_eq_mod_eq_0 unat_eq_0)

lemma stack_word_readable:
  assumes "stack_ok m lo hi" and "is_pointer_in_stack p lo hi" and "p mod 8 = 0"
  shows "\<exists>v. read_u64 m p = Inr v"
proof (rule read_u64_mapped, intro allI impI)
  fix i :: nat
  assume i: "i < 8"
  have d: "8 dvd unat p" "8 dvd unat hi" using assms by (simp_all add: stack_ok_def aligned_iff)
  have p: "lo \<le> p" "unat p < unat hi"
    using assms(2) by (simp_all add: is_pointer_in_stack_def word_less_nat_alt)
  have b: "unat p + i < unat hi" using d p i by (elim dvdE) simp
  have "unat hi < 2 ^ 64" by (rule unat_u64_less)
  then have u: "unat (p + word_of_nat i) = unat p + i"
    using b i by (simp add: unat_word_ariths unsigned_of_nat take_bit_eq_mod)
  have "lo \<le> p + word_of_nat i" "p + word_of_nat i < hi"
    using u b p by (simp_all add: word_less_nat_alt word_le_nat_alt)
  then show "m (p + word_of_nat i) \<noteq> None" using assms(1) by (simp add: stack_ok_def)
qed

lemma next_frame_safe:
  assumes "stack_ok m lo hi" and "frame_ok lo hi f"
    and "\<And>p. is_pointer_in_stack p lo hi \<Longrightarrow> strip p = p"
  shows "\<exists>r. next_frame strip m lo hi f = Inr r \<and> (\<forall>f'. r = Some f' \<longrightarrow> frame_ok lo hi f')"
proof -
  obtain ip fp lr where f: "f = (ip, fp, lr)" by (cases f) auto
  have fp: "is_pointer_in_stack fp lo hi" "fp mod 8 = 0" using assms(2) by (simp_all add: f frame_ok_def)
  obtain fp' where r: "read_u64 m fp = Inr fp'" using stack_word_readable [OF assms(1) fp] by blast
  show ?thesis
  proof (cases "\<not> is_pointer_in_stack (fp' + 8) lo hi \<or> fp' mod 8 \<noteq> 0 \<or> fp' < fp \<or> fp' = 0 \<or> lr = 0")
    case True
    with r fp assms(3) show ?thesis by (simp add: next_frame_def f)
  next
    case False
    then have n: "is_pointer_in_stack (fp' + 8) lo hi" "fp' mod 8 = 0" "fp \<le> fp'" by auto
    have a: "(fp' + 8) mod 8 = 0" using n(2) by (simp add: aligned_iff unat_word_ariths) (simp add: mod_mod_cancel dvd_eq_mod_eq_0)
    obtain lr' where r': "read_u64 m (fp' + 8) = Inr lr'"
      using stack_word_readable [OF assms(1) n(1) a] by blast
    have "unat fp' + 8 < 2 ^ 64"
    proof (rule ccontr)
      assume "\<not> unat fp' + 8 < 2 ^ 64"
      then have "unat (fp' + 8) < 8" using unat_u64_less [of fp'] by (simp add: unat_word_ariths le_mod_geq)
      moreover have "8 dvd unat lo" "0 < unat lo"
        using assms(1) by (auto simp: stack_ok_def aligned_iff unat_gt_0)
      ultimately show False
        using n(1) by (auto simp: is_pointer_in_stack_def word_le_nat_alt dest: dvd_imp_le)
    qed
    then have "unat (fp' + 8) = unat fp' + 8" by (simp add: unat_word_ariths)
    then have "is_pointer_in_stack fp' lo hi"
      using n fp(1) by (simp add: is_pointer_in_stack_def word_le_nat_alt word_less_nat_alt)
    with n(2) r r' fp n assms(3) False show ?thesis by (simp add: next_frame_def f frame_ok_def)
  qed
qed

definition lookups_ok :: "jvm_lookup \<Rightarrow> u64 \<Rightarrow> u64 \<Rightarrow> bool" where
  "lookups_ok jvm lo hi \<longleftrightarrow>
     (\<forall>ip. \<exists>b. lk_isJavaFrame jvm ip = Inr b)
     \<and> (\<forall>ip fp. is_pointer_in_stack fp lo hi \<longrightarrow> (\<exists>i. lk_getJMethodId jvm ip fp = Some (Inr i)))"

lemma record_frame_eq:
  assumes "lookups_ok jvm lo hi" and "frame_ok lo hi f" and "i < length (at_instructions t)"
  shows "\<exists>p x. frame_record jvm f = Some (p, x)
    \<and> record_frame jvm (fst f) (fst (snd f)) i t =
        Some (Inr (p, t\<lparr>at_instructions := (at_instructions t)[i := x]\<rparr>))"
proof -
  obtain ip fp lr where f: "f = (ip, fp, lr)" by (cases f) auto
  obtain b j where "lk_isJavaFrame jvm ip = Inr b" "lk_getJMethodId jvm ip fp = Some (Inr j)"
    using assms(1,2) unfolding lookups_ok_def frame_ok_def f by force
  with assms(3) show ?thesis
    by (cases b) (auto simp: f frame_record_def record_frame_def set_instruction_def)
qed

text \<open>One iteration of the loop, when the lookups and the stack are well formed.\<close>

lemma aarch64_loop_step:
  assumes "stack_ok m lo hi" and "lookups_ok jvm lo hi"
    and "\<And>p. is_pointer_in_stack p lo hi \<Longrightarrow> strip p = p"
    and "frame_ok lo hi f" and "i < length (at_instructions t)"
  obtains p x nf where "frame_record jvm f = Some (p, x)" "next_frame strip m lo hi f = Inr nf"
    "\<And>f'. nf = Some f' \<Longrightarrow> frame_ok lo hi f'"
    "aarch64_loop strip jvm m lo hi f i t =
       (case nf of
          Some f' \<Rightarrow>
            if p \<and> int (Suc i) < sint (at_size t)
            then aarch64_loop strip jvm m lo hi f' (Suc i) (t\<lparr>at_instructions := (at_instructions t)[i := x]\<rparr>)
            else Some (Inr (Suc i, t\<lparr>at_instructions := (at_instructions t)[i := x]\<rparr>))
        | None \<Rightarrow> Some (Inr (Suc i, t\<lparr>at_instructions := (at_instructions t)[i := x]\<rparr>)))"
proof -
  obtain p x where r: "frame_record jvm f = Some (p, x)"
    "record_frame jvm (fst f) (fst (snd f)) i t =
       Some (Inr (p, t\<lparr>at_instructions := (at_instructions t)[i := x]\<rparr>))"
    using record_frame_eq [OF assms(2,4,5)] by blast
  obtain nf where nf: "next_frame strip m lo hi f = Inr nf" "\<And>f'. nf = Some f' \<Longrightarrow> frame_ok lo hi f'"
    using next_frame_safe [OF assms(1,4,3)] by blast
  show thesis
  proof (rule that [OF r(1) nf(1)])
    show "frame_ok lo hi f'" if "nf = Some f'" for f' using that by (rule nf(2))
  qed (use r(2) nf(1) in \<open>subst aarch64_loop.simps, simp split: option.splits\<close>)
qed

text \<open>The loop writes the list of the reference behind the elements that are there.\<close>

lemma aarch64_loop_eq:
  assumes "stack_ok m lo hi" and "lookups_ok jvm lo hi"
    and "\<And>p. is_pointer_in_stack p lo hi \<Longrightarrow> strip p = p"
    and "frame_ok lo hi f" and "i < nat (sint (at_size t))"
    and "nat (sint (at_size t)) \<le> length (at_instructions t)"
    and "xs = unwind_ref strip jvm m lo hi f (nat (sint (at_size t)) - i)"
  shows "aarch64_loop strip jvm m lo hi f i t =
    Some (Inr (i + length xs,
      t\<lparr>at_instructions := take i (at_instructions t) @ xs @ drop (i + length xs) (at_instructions t)\<rparr>))"
  using assms(4-7)
proof (induction "nat (sint (at_size t)) - i" arbitrary: i t f xs)
  case 0
  then show ?case by simp
next
  case (Suc b)
  have i: "i < length (at_instructions t)" using Suc.prems by linarith
  obtain p x nf where st: "frame_record jvm f = Some (p, x)" "next_frame strip m lo hi f = Inr nf"
    "\<And>f'. nf = Some f' \<Longrightarrow> frame_ok lo hi f'"
    and lp: "aarch64_loop strip jvm m lo hi f i t =
       (case nf of
          Some f' \<Rightarrow>
            if p \<and> int (Suc i) < sint (at_size t)
            then aarch64_loop strip jvm m lo hi f' (Suc i) (t\<lparr>at_instructions := (at_instructions t)[i := x]\<rparr>)
            else Some (Inr (Suc i, t\<lparr>at_instructions := (at_instructions t)[i := x]\<rparr>))
        | None \<Rightarrow> Some (Inr (Suc i, t\<lparr>at_instructions := (at_instructions t)[i := x]\<rparr>)))"
    using aarch64_loop_step [OF assms(1,2,3) Suc.prems(1) i] by metis
  note u = upd_conv_take_nth_drop [OF i, of x]
  have xs: "xs = x # (case nf of None \<Rightarrow> [] | Some f' \<Rightarrow> if p then unwind_ref strip jvm m lo hi f' b else [])"
    using Suc.prems(4) Suc.hyps(2) [symmetric] st(1,2) by (simp split: option.splits)
  show ?case
  proof (cases "nf \<noteq> None \<and> p \<and> Suc i < nat (sint (at_size t))")
    case True
    then obtain f' where f': "nf = Some f'" "p" "Suc i < nat (sint (at_size t))" by blast
    have "b = nat (sint (at_size t)) - Suc i" "1 + int i < sint (at_size t)"
      using Suc.hyps(2) f'(3) by linarith+
    with Suc.hyps(1) [of "t\<lparr>at_instructions := (at_instructions t)[i := x]\<rparr>" "Suc i" f',
        OF _ st(3) [OF f'(1)] _ _ refl] f' Suc.prems(3) i
    show ?thesis unfolding lp xs by (simp add: u ac_simps)
  next
    case False
    then have "xs = [x]" using Suc.hyps(2) unfolding xs by (cases b) (auto split: option.splits)
    with False show ?thesis unfolding lp by (auto simp: u split: option.splits)
  qed
qed

lemma unwind_ref_length: "length (unwind_ref strip jvm m lo hi f n) \<le> n"
  by (induction n arbitrary: f) (auto split: option.splits sum.splits)

section \<open>Linux on x86-64: the frames of libunwind\<close>

text \<open>
  The reference for libunwind: the frames the cursor visits, up to the budget. The comparison of
  frame pointers at the head of the loop never ends it, because both variables hold the same value
  there.
\<close>

definition x86_frame :: "'c unwinder \<Rightarrow> 'c \<Rightarrow> u64 \<times> u64" where
  "x86_frame u c = (unw_get_reg u c UNW_REG_IP, unw_get_reg u c UNW_X86_64_RBP)"

fun cursor_frames :: "'c unwinder \<Rightarrow> 'c \<Rightarrow> nat \<Rightarrow> (u64 \<times> u64) list" where
  "cursor_frames u c 0 = []"
| "cursor_frames u c (Suc budget) =
     x86_frame u c # (if fst (unw_step u c) then cursor_frames u (snd (unw_step u c)) budget else [])"

definition x86_record :: "jvm_lookup \<Rightarrow> u64 \<Rightarrow> u64 \<Rightarrow> u64 \<times> u64 \<Rightarrow> instruction_info \<Rightarrow> instruction_info" where
  "x86_record jvm lo hi f old =
     (let (ip, rbp) = f in
      if lk_isJavaFrame jvm ip = Inr False then native_info ip rbp
      else if is_pointer_in_stack rbp lo hi then
        (case lk_getJMethodId jvm ip rbp of Some (Inr i) \<Rightarrow> java_info i | _ \<Rightarrow> old)
      else old)"

lemma linux_x86_64_record_eq:
  assumes "lookups_ok jvm lo hi" and "i < length (at_instructions t)"
  shows "linux_x86_64_record jvm lo hi ip rbp i t =
    Some (Inr (t\<lparr>at_instructions :=
      (at_instructions t)[i := x86_record jvm lo hi (ip, rbp) (at_instructions t ! i)]\<rparr>))"
proof -
  obtain b where b: "lk_isJavaFrame jvm ip = Inr b" using assms(1) unfolding lookups_ok_def by blast
  show ?thesis
  proof (cases "b \<and> is_pointer_in_stack rbp lo hi")
    case True
    then obtain j where "lk_getJMethodId jvm ip rbp = Some (Inr j)"
      using assms(1) unfolding lookups_ok_def by blast
    with True b assms(2) show ?thesis
      by (simp add: linux_x86_64_record_def x86_record_def set_instruction_def)
  next
    case False
    with b assms(2) show ?thesis
      by (auto simp: linux_x86_64_record_def x86_record_def set_instruction_def)
  qed
qed

text \<open>One iteration of the loop: the frame of the cursor is written at the index.\<close>

lemma linux_x86_64_loop_step:
  assumes "lookups_ok jvm lo hi" and "lrbp = 0 \<or> lrbp = rbp" and "i < length (at_instructions t)"
    and "x86_frame u c = (ip, rb)" and "unw_step u c = (again, c')"
    and "t' = t\<lparr>at_instructions :=
      (at_instructions t)[i := x86_record jvm lo hi (ip, rb) (at_instructions t ! i)]\<rparr>"
  shows "linux_x86_64_loop u jvm lo hi c rbp lrbp i t =
    (if again \<and> Suc i < nat (sint (at_size t)) then linux_x86_64_loop u jvm lo hi c' rb rb (Suc i) t'
     else Some (Inr (Suc i, t')))"
proof -
  have "\<not> (lrbp \<noteq> 0 \<and> lrbp < rbp)" using assms(2) by auto
  with linux_x86_64_record_eq [OF assms(1,3), of ip rb] assms(4-6) show ?thesis
    by (subst linux_x86_64_loop.simps) (auto simp: x86_frame_def)
qed

text \<open>What the loop leaves in the sample: the frames \<open>fs\<close> from the index \<open>i\<close> on, nothing else.\<close>

definition x86_written :: "jvm_lookup \<Rightarrow> u64 \<Rightarrow> u64 \<Rightarrow> (u64 \<times> u64) list \<Rightarrow> nat \<Rightarrow> async_trace \<Rightarrow> async_trace \<Rightarrow> bool" where
  "x86_written jvm lo hi fs i t t' \<longleftrightarrow>
     frames_only t t'
     \<and> (\<forall>k. k < length (at_instructions t) \<longrightarrow>
          at_instructions t' ! k =
            (if i \<le> k \<and> k < i + length fs then x86_record jvm lo hi (fs ! (k - i)) (at_instructions t ! k)
             else at_instructions t ! k))"

lemma x86_written_single:
  assumes "i < length (at_instructions t)"
  shows "x86_written jvm lo hi [f] i t
    (t\<lparr>at_instructions := (at_instructions t)[i := x86_record jvm lo hi f (at_instructions t ! i)]\<rparr>)"
  using assms by (auto simp: x86_written_def frames_only_def nth_list_update)

lemma x86_written_Cons:
  assumes "x86_written jvm lo hi [f] i t t'" and "x86_written jvm lo hi fs (Suc i) t' t''"
  shows "x86_written jvm lo hi (f # fs) i t t''"
proof -
  have l: "length (at_instructions t') = length (at_instructions t)"
    using assms(1) by (simp add: x86_written_def frames_only_def)
  have "at_instructions t'' ! k = (if i \<le> k \<and> k < i + length (f # fs)
      then x86_record jvm lo hi ((f # fs) ! (k - i)) (at_instructions t ! k) else at_instructions t ! k)"
    if "k < length (at_instructions t)" for k
    using assms that by (cases "k = i") (auto simp: x86_written_def l nth_Cons' not_less_eq_eq)
  with assms frames_only_trans show ?thesis unfolding x86_written_def by blast
qed

lemma linux_x86_64_loop_eq:
  assumes "lookups_ok jvm lo hi" and "lrbp = 0 \<or> lrbp = rbp" and "i < nat (sint (at_size t))"
    and "nat (sint (at_size t)) \<le> length (at_instructions t)"
    and "fs = cursor_frames u c (nat (sint (at_size t)) - i)"
  shows "\<exists>t'. linux_x86_64_loop u jvm lo hi c rbp lrbp i t = Some (Inr (i + length fs, t'))
    \<and> x86_written jvm lo hi fs i t t'"
  using assms(2-5)
proof (induction "nat (sint (at_size t)) - i" arbitrary: i t c rbp lrbp fs)
  case 0
  then show ?case by simp
next
  case (Suc b)
  have i: "i < length (at_instructions t)" using Suc.prems by linarith
  obtain ip rb more c' where f: "x86_frame u c = (ip, rb)" and s: "unw_step u c = (more, c')"
    by (cases "x86_frame u c", cases "unw_step u c")
  define t1 where "t1 = t\<lparr>at_instructions :=
    (at_instructions t)[i := x86_record jvm lo hi (ip, rb) (at_instructions t ! i)]\<rparr>"
  note lp = linux_x86_64_loop_step [OF assms(1) Suc.prems(1) i f s t1_def]
  have w: "x86_written jvm lo hi [(ip, rb)] i t t1"
    unfolding t1_def by (rule x86_written_single [OF i])
  have b: "b = nat (sint (at_size t1)) - Suc i" "at_size t1 = at_size t"
    using Suc.hyps(2) by (simp_all add: t1_def)
  show ?case
  proof (cases "more \<and> Suc i < nat (sint (at_size t))")
    case True
    have fs: "fs = (ip, rb) # cursor_frames u c' b"
      using Suc.prems(4) Suc.hyps(2) [symmetric] f s True by simp
    obtain t' where "linux_x86_64_loop u jvm lo hi c' rb rb (Suc i) t1 =
        Some (Inr (Suc i + length (cursor_frames u c' b), t'))"
      "x86_written jvm lo hi (cursor_frames u c' b) (Suc i) t1 t'"
      using Suc.hyps(1) [OF b(1), where rbp = rb and lrbp = rb and c = c'] Suc.prems(3) True b
      by (auto simp: t1_def)
    with True x86_written_Cons [OF w] show ?thesis by (auto simp: lp fs)
  next
    case False
    then have "fs = [(ip, rb)]"
      using Suc.prems(4) Suc.hyps(2) [symmetric] f s by (cases b) auto
    with False w show ?thesis by (auto simp: lp)
  qed
qed

section \<open>A small stack\<close>

text \<open>Two frames on a stack of 64 bytes; the instruction 5 belongs to the Java method 7.\<close>

definition example_stack :: memory where
  "example_stack a = Some (if a = 64 then 80 else 0)"

definition example_jvm :: jvm_lookup where
  "example_jvm = \<lparr>lk_isJavaFrame = (\<lambda>ip. Inr (ip = 5)), lk_getJMethodId = (\<lambda>_ _. Some (Inr 7))\<rparr>"

definition example_sample :: async_trace where
  "example_sample = async_trace_new (replicate 3 instruction_info_zero) 3 11 64 128"

text \<open>A cursor of libunwind that runs over a list of frames.\<close>

fun list_step :: "(u64 \<times> u64) list \<Rightarrow> bool \<times> (u64 \<times> u64) list" where
  "list_step (x # y # ys) = (True, y # ys)"
| "list_step xs = (False, xs)"

definition list_register :: "(u64 \<times> u64) list \<Rightarrow> unw_reg \<Rightarrow> u64" where
  "list_register xs r =
     (case xs of
        [] \<Rightarrow> 0
      | x # _ \<Rightarrow> if r = UNW_REG_IP then fst x else if r = UNW_X86_64_RBP then snd x else 0)"

definition list_unwinder :: "(u64 \<times> u64) list unwinder" where
  "list_unwinder =
     \<lparr>unw_step = list_step, unw_get_reg = list_register, unw_set_reg = (\<lambda>c _ _. c),
      unw_get_proc_name = (\<lambda>_. None)\<rparr>"

lemma example_lookups_ok: "lookups_ok example_jvm lo hi"
  by (simp add: lookups_ok_def example_jvm_def)

lemma example_stack_ok: "stack_ok example_stack 64 128"
  by (simp add: stack_ok_def example_stack_def)

lemma example_stack_read:
  "read_u64 example_stack 64 = Inr 80" "read_u64 example_stack 80 = Inr 0" "read_u64 example_stack 88 = Inr 0"
  by (simp_all add: read_u64_def read_bytes_numeral example_stack_def)

section \<open>Properties\<close>

text \<open>
  C10. On ARM, unwinding the stack of an interrupted thread is safe and exact. If the stack is
  readable, the method lookups answer, and the array is as long as the size says, then the loop
  ends, reads only inside the stack, and the sample holds the frames of the reference, at most as
  many as fit; the rest of the array and the rest of the sample are unchanged. A frame pointer
  outside of the stack gives an empty sample.
\<close>

theorem aarch64_unwind_exact:
  assumes "stack_ok m lo hi" and "lookups_ok jvm lo hi"
    and "\<forall>p. is_pointer_in_stack p lo hi \<longrightarrow> strip p = p"
    and "0 < sint (at_size t)" and "nat (sint (at_size t)) \<le> length (at_instructions t)"
  shows "aarch64_unwind_stack strip jvm m (ip, fp, lr) lo hi t =
    (if is_pointer_in_stack fp lo hi \<and> fp mod 8 = 0 \<and> ip \<noteq> 0
     then let xs = unwind_ref strip jvm m lo hi (ip, fp, lr) (nat (sint (at_size t))) in
       Some (Inr (t\<lparr>at_instructions := xs @ drop (length xs) (at_instructions t),
         at_size := word_of_nat (length xs)\<rparr>))
     else Some (Inr (t\<lparr>at_size := 0\<rparr>)))"
proof (cases "is_pointer_in_stack fp lo hi \<and> fp mod 8 = 0 \<and> ip \<noteq> 0")
  case True
  have "fp \<noteq> 0" using True assms(1) by (auto simp: stack_ok_def is_pointer_in_stack_def)
  moreover have "frame_ok lo hi (ip, fp, lr)" using True by (simp add: frame_ok_def)
  note aarch64_loop_eq [OF assms(1,2) _ this _ assms(5) HOL.refl, where i = 0 and strip = strip]
  ultimately show ?thesis
    using True assms(3,4) by (simp add: aarch64_unwind_stack_def finish_unwind_def Let_def)
next
  case False
  then show ?thesis by (auto simp: aarch64_unwind_stack_def)
qed

theorem aarch64_unwind_exact_witness:
  "aarch64_unwind_stack (\<lambda>p. p) example_jvm example_stack (3, 64, 5) 64 128 example_sample =
     Some (Inr (example_sample\<lparr>at_instructions := [native_info 3 64, java_info 7, instruction_info_zero],
       at_size := 2\<rparr>))
   \<and> linux_aarch64_unwind_stack example_jvm example_stack (3, 8, 5) 64 128 example_sample =
     Some (Inr (example_sample\<lparr>at_size := 0\<rparr>))"
proof -
  have s: "sint (at_size example_sample) = 3"
    "at_instructions example_sample = [instruction_info_zero, instruction_info_zero, instruction_info_zero]"
    by (simp_all add: example_sample_def async_trace_new_def numeral_3_eq_3)
  have r: "unwind_ref (\<lambda>p. p) example_jvm example_stack 64 128 (3, 64, 5) 3 = [native_info 3 64, java_info 7]"
    by (simp add: numeral_eq_Suc)
      (simp add: frame_record_def example_jvm_def next_frame_def example_stack_read is_pointer_in_stack_def)
  show ?thesis
    using aarch64_unwind_exact [OF example_stack_ok example_lookups_ok, of "\<lambda>p. p" example_sample 3 64 5]
      aarch64_unwind_exact [OF example_stack_ok example_lookups_ok, of "\<lambda>p. p" example_sample 3 8 5]
    by (simp add: s r is_pointer_in_stack_def linux_aarch64_unwind_stack_def)
qed

text \<open>
  C36. On Linux with x86-64 the unwinder records the frames that libunwind reports from the
  interrupted frame on, in order and at most as many as fit; the check that compares two frame
  pointers never ends the loop. An element of a Java frame whose frame pointer lies outside of the
  stack keeps its old value but is counted.
\<close>

theorem linux_x86_64_unwind_exact:
  assumes "linux_skip u rip c0 = Some c" and "lookups_ok jvm lo hi"
    and "0 < sint (at_size t)" and "nat (sint (at_size t)) \<le> length (at_instructions t)"
  shows "\<exists>t'. linux_x86_64_unwind_stack u jvm rip c0 lo hi t = Some (Inr t')
    \<and> at_size t' = word_of_nat (length (cursor_frames u c (nat (sint (at_size t)))))
    \<and> (\<forall>k. k < length (at_instructions t) \<longrightarrow>
         at_instructions t' ! k =
           (if k < length (cursor_frames u c (nat (sint (at_size t))))
            then x86_record jvm lo hi (cursor_frames u c (nat (sint (at_size t))) ! k) (at_instructions t ! k)
            else at_instructions t ! k))"
  using linux_x86_64_loop_eq [OF assms(2) _ _ assms(4) HOL.refl, of 0 0 0 u c] assms(1,3)
  by (auto simp: linux_x86_64_unwind_stack_def finish_unwind_def x86_written_def)

theorem linux_x86_64_unwind_exact_witness:
  "\<exists>t'. linux_x86_64_unwind_stack list_unwinder example_jvm 2 [(1, 0), (2, 70), (5, 80)] 64 128 example_sample
       = Some (Inr t')
     \<and> at_size t' = 2 \<and> at_instructions t' ! 0 = native_info 2 70 \<and> at_instructions t' ! 1 = java_info 7"
proof -
  have s: "sint (at_size example_sample) = 3" "at_instructions example_sample = replicate 3 instruction_info_zero"
    by (simp_all add: example_sample_def async_trace_new_def)
  have c: "linux_skip list_unwinder 2 [(1, 0), (2, 70), (5, 80)] = Some [(2, 70), (5, 80)]"
    by (subst linux_skip.simps) (simp add: list_unwinder_def list_register_def)
  have f: "cursor_frames list_unwinder [(2, 70), (5, 80)] 3 = [(2, 70), (5, 80)]"
    by (simp add: numeral_eq_Suc) (simp add: x86_frame_def list_unwinder_def list_register_def)
  obtain t' where t': "linux_x86_64_unwind_stack list_unwinder example_jvm 2 [(1, 0), (2, 70), (5, 80)] 64 128
      example_sample = Some (Inr t')" "at_size t' = word_of_nat 2"
    "\<forall>k<3. at_instructions t' ! k =
       (if k < 2 then x86_record example_jvm 64 128 ([(2, 70), (5, 80)] ! k)
          (replicate 3 instruction_info_zero ! k) else replicate 3 instruction_info_zero ! k)"
    using linux_x86_64_unwind_exact [OF c example_lookups_ok, of example_sample 64 128] by (auto simp: s f)
  show ?thesis
    using t'(1,2) t'(3) [rule_format, of 0] t'(3) [rule_format, of 1]
    by (simp add: x86_record_def example_jvm_def is_pointer_in_stack_def)
qed

end
