(* ===== verification/Sampling.thy ===== *)
theory Sampling
  imports Sample_Processing Unwind_Spec
begin

text \<open>
  The profiler thread of \<open>startProfiler\<close> and the signal handler \<open>signal_action\<close>. For every thread
  on which a trace runs, the profiler thread publishes an empty sample, sends a signal and waits
  until the handler, which runs on the interrupted thread, has filled the sample. The two sides,
  the event handlers of the application and \<open>stop\<close> are interleaved in a step relation.
\<close>

section \<open>The signal handler\<close>

text \<open>The part of the handler behind the loop that waits for the pointer to the sample.\<close>

definition sample_coroutine_id :: "hash_env \<Rightarrow> i64 \<Rightarrow> async_trace \<Rightarrow> i64" where
  "sample_coroutine_id he current t = (if current = -1 then hash_pthread he (at_thread_id t) else current)"

definition signal_action ::
  "('x \<Rightarrow> u64 \<Rightarrow> u64 \<Rightarrow> async_trace \<Rightarrow> async_trace result option) \<Rightarrow> hash_env \<Rightarrow> 'x \<Rightarrow> i64 \<Rightarrow>
     async_trace \<Rightarrow> async_trace result option" where
  "signal_action unwind he ucontext current trace =
     Option.bind (unwind ucontext (at_stack_lo trace) (at_stack_hi trace) trace) (\<lambda>r.
       Some (rbind r (\<lambda>t.
         Inr (t\<lparr>at_coroutine_id := sample_coroutine_id he current t, at_ready := True\<rparr>))))"

section \<open>The profiler thread\<close>

text \<open>Where the profiler thread is; the list holds the threads that are left in this round.\<close>

datatype sampler_pc =
    Test_active
  | Sample_threads trace_time "addr list"
  | Published trace_time pthread_t "addr list"
  | Waiting trace_time pthread_t "addr list"
  | Finished
  | Terminated error

datatype handler_pc = Idle | Entered | Spinning

record sampling =
  sm_profiler :: profiler
  sm_pc :: sampler_pc
  sm_sample :: "async_trace option"
  sm_trace :: bool
  sm_handler :: "pthread_t \<Rightarrow> handler_pc"
  sm_pending :: "pthread_t set"
  sm_alive :: "pthread_t set"

text \<open>
  \<open>sm_sample\<close> is the sample the profiler thread owns, \<open>sm_trace\<close> says whether \<open>trace_\<close> points to it
  or is null. A thread has at most one pending signal of the kind.
\<close>

definition new_sample :: "thread_info \<Rightarrow> async_trace" where
  "new_sample th = async_trace_new (replicate 30 instruction_info_zero) 30 (th_id th) (th_stack_lo th) (th_stack_hi th)"

definition publish :: "thread_info \<Rightarrow> trace_time \<Rightarrow> addr list \<Rightarrow> sampling \<Rightarrow> sampling" where
  "publish th start rest s =
     s\<lparr>sm_sample := Some (new_sample th), sm_trace := True, sm_pc := Published start (th_id th) rest\<rparr>"

text \<open>The result of \<open>pthread_kill\<close> is not checked: for a thread that has ended nothing happens.\<close>

definition send_signal :: "trace_time \<Rightarrow> pthread_t \<Rightarrow> addr list \<Rightarrow> sampling \<Rightarrow> sampling" where
  "send_signal start tid rest s =
     s\<lparr>sm_pending := (if tid \<in> sm_alive s then insert tid (sm_pending s) else sm_pending s),
       sm_pc := Waiting start tid rest\<rparr>"

definition collect :: "trace_time \<Rightarrow> async_trace \<Rightarrow> trace_time \<Rightarrow> addr list \<Rightarrow> sampling \<Rightarrow> sampling" where
  "collect now t start rest s =
     s\<lparr>sm_trace := False, sm_sample := None, sm_pc := Sample_threads start rest,
       sm_profiler := (sm_profiler s)\<lparr>pf_storage :=
         addRawTrace now t (at_coroutine_id t) (pf_storage (sm_profiler s))\<rparr>\<rparr>"

text \<open>
  The end of a round. An exception of \<open>processTraces\<close> leaves the thread function and ends the
  process. Sleeping does not change the state.
\<close>

definition end_round :: "method_env \<Rightarrow> sampling \<Rightarrow> sampling" where
  "end_round env s =
     (case processTraces env (sm_profiler s) of
        (Inl e, pf) \<Rightarrow> s\<lparr>sm_profiler := pf, sm_pc := Terminated e\<rparr>
      | (Inr _, pf) \<Rightarrow> s\<lparr>sm_profiler := pf, sm_pc := Test_active\<rparr>)"

definition sleep_time :: "i64 \<Rightarrow> trace_time \<Rightarrow> trace_time \<Rightarrow> i64 option" where
  "sleep_time interval start now =
     (let d = interval - tt_minus now start in if 0 < sint d then Some d else None)"

text \<open>The events of the application and of the cleaner thread.\<close>

definition app_event :: "profiler_event \<Rightarrow> bool" where
  "app_event ev = (case ev of Sample _ _ _ \<Rightarrow> False | Process_traces \<Rightarrow> False | _ \<Rightarrow> True)"

inductive sampling_step ::
  "('x \<Rightarrow> u64 \<Rightarrow> u64 \<Rightarrow> async_trace \<Rightarrow> async_trace result option) \<Rightarrow> hash_env \<Rightarrow> method_env \<Rightarrow>
     sampling \<Rightarrow> sampling \<Rightarrow> bool"
  for unwind he env where
  Round: "sm_pc s = Test_active \<Longrightarrow> pf_active (sm_profiler s) \<Longrightarrow>
    sampling_step unwind he env s
      (s\<lparr>sm_pc := Sample_threads now (cl_snapshot (getThreads (pf_jvm (sm_profiler s))))\<rparr>)"
| Finish: "sm_pc s = Test_active \<Longrightarrow> \<not> pf_active (sm_profiler s) \<Longrightarrow>
    sampling_step unwind he env s (s\<lparr>sm_pc := Finished\<rparr>)"
| Skip: "sm_pc s = Sample_threads start (a # rest) \<Longrightarrow>
    cells (thread_heap (pf_jvm (sm_profiler s))) a = Some th \<Longrightarrow> \<not> 0 < sint (th_current_traces th) \<Longrightarrow>
    sampling_step unwind he env s (s\<lparr>sm_pc := Sample_threads start rest\<rparr>)"
| Publish: "sm_pc s = Sample_threads start (a # rest) \<Longrightarrow>
    cells (thread_heap (pf_jvm (sm_profiler s))) a = Some th \<Longrightarrow> 0 < sint (th_current_traces th) \<Longrightarrow>
    sampling_step unwind he env s (publish th start rest s)"
| Kill: "sm_pc s = Published start tid rest \<Longrightarrow>
    sampling_step unwind he env s (send_signal start tid rest s)"
| Collect: "sm_pc s = Waiting start tid rest \<Longrightarrow> sm_sample s = Some t \<Longrightarrow> at_ready t \<Longrightarrow>
    sampling_step unwind he env s (collect now t start rest s)"
| Process: "sm_pc s = Sample_threads start [] \<Longrightarrow> sampling_step unwind he env s (end_round env s)"
| Deliver: "tid \<in> sm_pending s \<Longrightarrow> sm_handler s tid = Idle \<Longrightarrow>
    sampling_step unwind he env s
      (s\<lparr>sm_pending := sm_pending s - {tid}, sm_handler := (sm_handler s)(tid := Entered)\<rparr>)"
| Inactive: "sm_handler s tid = Entered \<Longrightarrow> \<not> pf_active (sm_profiler s) \<Longrightarrow>
    sampling_step unwind he env s (s\<lparr>sm_handler := (sm_handler s)(tid := Idle)\<rparr>)"
| Active: "sm_handler s tid = Entered \<Longrightarrow> pf_active (sm_profiler s) \<Longrightarrow>
    sampling_step unwind he env s (s\<lparr>sm_handler := (sm_handler s)(tid := Spinning)\<rparr>)"
| Fill: "sm_handler s tid = Spinning \<Longrightarrow> sm_trace s \<Longrightarrow> sm_sample s = Some t \<Longrightarrow>
    signal_action unwind he ctx (current_coroutine_id (sm_profiler s) tid) t = Some (Inr t') \<Longrightarrow>
    sampling_step unwind he env s
      (s\<lparr>sm_sample := Some t', sm_handler := (sm_handler s)(tid := Idle)\<rparr>)"
| Event: "app_event ev \<Longrightarrow>
    sampling_step unwind he env s (s\<lparr>sm_profiler := snd (profiler_exec he env ev (sm_profiler s))\<rparr>)"
| Stop: "sampling_step unwind he env s (s\<lparr>sm_profiler := stop (sm_profiler s)\<rparr>)"
| Thread_end: "tid \<in> sm_alive s \<Longrightarrow> sm_handler s tid = Idle \<Longrightarrow>
    sampling_step unwind he env s
      (s\<lparr>sm_alive := sm_alive s - {tid}, sm_pending := sm_pending s - {tid}\<rparr>)"
| Thread_start: "sampling_step unwind he env s
    (s\<lparr>sm_alive := insert tid (sm_alive s),
       sm_profiler := (sm_profiler s)\<lparr>pf_jvm :=
         addCurrentThread err name tid bounds (pf_jvm (sm_profiler s))\<rparr>\<rparr>)"

text \<open>The state in which \<open>startProfiler\<close> starts the thread.\<close>

definition sampling_start :: "profiler \<Rightarrow> pthread_t set \<Rightarrow> sampling" where
  "sampling_start pf alive =
     \<lparr>sm_profiler = snd (startProfiler pf), sm_pc = Test_active, sm_sample = None, sm_trace = False,
      sm_handler = (\<lambda>_. Idle), sm_pending = {}, sm_alive = alive\<rparr>"

abbreviation sampling_steps ::
  "('x \<Rightarrow> u64 \<Rightarrow> u64 \<Rightarrow> async_trace \<Rightarrow> async_trace result option) \<Rightarrow> hash_env \<Rightarrow> method_env \<Rightarrow>
     sampling \<Rightarrow> sampling \<Rightarrow> bool" where
  "sampling_steps unwind he env \<equiv> (sampling_step unwind he env)\<^sup>*\<^sup>*"

end
