(* ===== verification/Method_Lookup.thy ===== *)
theory Method_Lookup
  imports Code_Cache
begin

text \<open>
  What the lookup in the code cache computes on well-formed memory: which addresses count as Java
  code, that the walk over the segment map ends at the start of the block, and which method
  identifier is found for compiled and for interpreted code.
\<close>

section \<open>Address ranges\<close>

definition heaps_readable :: "code_cache \<Rightarrow> memory \<Rightarrow> (u64 \<times> u64 \<times> u64) list \<Rightarrow> bool" where
  "heaps_readable cc m hs \<longleftrightarrow>
     length hs < 2 ^ 31 \<and> read_i32 m (heaps_length cc) = Inr (word_of_nat (length hs))
     \<and> (\<forall>i<length hs. heap_at cc m i = Inr (fst (hs ! i))
           \<and> heap_range cc m (fst (hs ! i)) = Inr (snd (hs ! i)))"

definition in_heap :: "u64 \<Rightarrow> u64 \<times> u64 \<times> u64 \<Rightarrow> bool" where
  "in_heap ip h \<longleftrightarrow> fst (snd h) \<le> ip \<and> ip < snd (snd h)"

lemma isJavaFrame_loop_eq:
  assumes "\<forall>j<n. heap_at cc m (i + j) = Inr (fst (hs ! (i + j)))
    \<and> heap_range cc m (fst (hs ! (i + j))) = Inr (snd (hs ! (i + j)))"
  shows "isJavaFrame_loop cc m ip i n = Inr (\<exists>j<n. in_heap ip (hs ! (i + j)))"
  using assms
proof (induction n arbitrary: i)
  case 0
  show ?case by simp
next
  case (Suc n)
  have h: "heap_at cc m i = Inr (fst (hs ! i))" "heap_range cc m (fst (hs ! i)) = Inr (snd (hs ! i))"
    using Suc.prems [rule_format, of 0] by simp_all
  have "\<forall>j<n. heap_at cc m (Suc i + j) = Inr (fst (hs ! (Suc i + j)))
    \<and> heap_range cc m (fst (hs ! (Suc i + j))) = Inr (snd (hs ! (Suc i + j)))"
    using Suc.prems by (metis Suc_less_eq add_Suc add_Suc_right)
  note IH = Suc.IH [OF this]
  have "(\<exists>j<Suc n. in_heap ip (hs ! (i + j))) \<longleftrightarrow>
      in_heap ip (hs ! i) \<or> (\<exists>j<n. in_heap ip (hs ! (Suc i + j)))"
    by (auto simp: less_Suc_eq_0_disj)
  then show ?case using h IH by (cases "hs ! i") (auto simp: in_heap_def)
qed

lemma isJavaFrame_eq:
  assumes "heaps_readable cc m hs"
  shows "isJavaFrame cc m ip = Inr (\<exists>h\<in>set hs. in_heap ip h)"
proof -
  have "isJavaFrame_loop cc m ip 0 (length hs) = Inr (\<exists>j<length hs. in_heap ip (hs ! (0 + j)))"
    by (rule isJavaFrame_loop_eq) (use assms in \<open>simp add: heaps_readable_def\<close>)
  moreover have "(\<exists>j<length hs. in_heap ip (hs ! j)) \<longleftrightarrow> (\<exists>h\<in>set hs. in_heap ip h)"
    by (metis in_set_conv_nth)
  ultimately show ?thesis
    using assms by (simp add: isJavaFrame_def heaps_readable_def sint_word_of_nat_small)
qed

section \<open>The segment map\<close>

text \<open>
  A block of \<open>n\<close> segments that starts at segment \<open>b\<close>: the entry of its first segment is 0, every
  other entry leads back by at least one segment and not beyond the start.
\<close>

definition segment_block :: "memory \<Rightarrow> u64 \<Rightarrow> u64 \<Rightarrow> nat \<Rightarrow> bool" where
  "segment_block m seg_map b n \<longleftrightarrow>
     m (seg_map + b) = Some 0
     \<and> (\<forall>i. 0 < i \<and> i < n \<longrightarrow>
          (\<exists>v. m (seg_map + (b + word_of_nat i)) = Some v \<and> 0 < unat v \<and> unat v \<le> i))"

lemma find_block_start:
  assumes "segment_block m seg_map b n" and "i < n"
  shows "find_block m seg_map (b + word_of_nat i) = Some (Inr b)"
  using assms(2)
proof (induction i rule: less_induct)
  case (less i)
  show ?case
  proof (cases "i = 0")
    case True
    with assms(1) show ?thesis
      by (subst find_block.simps) (simp add: read_u8_def segment_block_def)
  next
    case False
    then obtain v where v: "m (seg_map + (b + word_of_nat i)) = Some v" "0 < unat v" "unat v \<le> i"
      using assms(1) less.prems by (auto simp: segment_block_def)
    have e: "b + word_of_nat i - ucast v = b + word_of_nat (i - unat v)"
      using v(3) by (simp add: of_nat_diff)
    have f: "find_block m seg_map (b + word_of_nat (i - unat v)) = Some (Inr b)"
      using v False less.prems by (intro less.IH) auto
    have "0 < v" using v(2) by (metis unat_gt_0 word_neq_0_conv)
    then show ?thesis
      using v(1) by (subst find_block.simps) (simp add: read_u8_def e f)
  qed
qed

section \<open>Methods\<close>

text \<open>
  The memory behind a method pointer: the constant method with its number, the constant pool, its
  holder, and the table of identifiers of the holder, which is long enough.
\<close>

record method_chain =
  mc_constMethod :: u64
  mc_idnum :: u16
  mc_constantPool :: u64
  mc_poolHolder :: u64
  mc_jmethodIds :: u64
  mc_count :: u64
  mc_id :: u64

definition method_layout :: "code_cache \<Rightarrow> memory \<Rightarrow> u64 \<Rightarrow> method_chain \<Rightarrow> bool" where
  "method_layout cc m method_ptr k \<longleftrightarrow>
     read_u64 m (method_ptr + constMethod_offset cc) = Inr (mc_constMethod k)
     \<and> read_u16 m (mc_constMethod k + methodIdNum_offset cc) = Inr (mc_idnum k)
     \<and> read_u64 m (mc_constMethod k + constants_offset cc) = Inr (mc_constantPool k)
     \<and> read_u64 m (mc_constantPool k + poolHolder_offset cc) = Inr (mc_poolHolder k)
     \<and> read_u64 m (mc_poolHolder k + jmethodIds_offset cc) = Inr (mc_jmethodIds k)
     \<and> mc_jmethodIds k \<noteq> 0
     \<and> read_u64 m (mc_jmethodIds k) = Inr (mc_count k)
     \<and> mc_count k > ucast (mc_idnum k)
     \<and> read_u64 m (mc_jmethodIds k + 8 * (ucast (mc_idnum k) + 1)) = Inr (mc_id k)"

definition chain_valid :: "(u64 \<Rightarrow> bool) \<Rightarrow> code_cache \<Rightarrow> method_chain \<Rightarrow> bool" where
  "chain_valid is_valid cc k \<longleftrightarrow>
     is_valid (mc_constMethod k) \<and> is_valid (mc_constantPool k) \<and> is_valid (mc_poolHolder k)
     \<and> is_valid (mc_poolHolder k + jmethodIds_offset cc) \<and> is_valid (mc_id k)"

lemma compiled_id_eq:
  assumes "read_u64 m (blk + compiledMethod_offset cc) = Inr method_ptr"
    and "method_layout cc m method_ptr k"
  shows "compiled_id cc m blk = Inr (mc_id k)"
  using assms by (simp add: compiled_id_def method_layout_def cached_id_def)

lemma interpreted_id_eq:
  assumes "is_valid fp" and "read_u64 m (fp - 24) = Inr method_ptr" and "is_valid method_ptr"
    and "method_layout cc m method_ptr k" and "chain_valid is_valid cc k"
  shows "interpreted_id is_valid cc m fp = Inr (mc_id k)"
  using assms by (simp add: interpreted_id_def method_layout_def cached_id_def chain_valid_def)

lemma getJMethodId_loop_skip:
  assumes "\<forall>j<n. heap_at cc m (i + j) = Inr (fst (hs ! (i + j)))
    \<and> heap_range cc m (fst (hs ! (i + j))) = Inr (snd (hs ! (i + j)))
    \<and> (\<exists>v. read_i32 m (fst (hs ! (i + j)) + log2SegmentSize_offset cc) = Inr v)
    \<and> \<not> in_heap ip (hs ! (i + j))"
  shows "getJMethodId_loop is_valid cc m ip fp i (n + k) = getJMethodId_loop is_valid cc m ip fp (i + n) k"
  using assms
proof (induction n arbitrary: i)
  case 0
  show ?case by simp
next
  case (Suc n)
  obtain v where h: "heap_at cc m i = Inr (fst (hs ! i))" "heap_range cc m (fst (hs ! i)) = Inr (snd (hs ! i))"
    "read_i32 m (fst (hs ! i) + log2SegmentSize_offset cc) = Inr v" "\<not> in_heap ip (hs ! i)"
    using Suc.prems [rule_format, of 0] by auto
  have "\<forall>j<n. heap_at cc m (Suc i + j) = Inr (fst (hs ! (Suc i + j)))
    \<and> heap_range cc m (fst (hs ! (Suc i + j))) = Inr (snd (hs ! (Suc i + j)))
    \<and> (\<exists>v. read_i32 m (fst (hs ! (Suc i + j)) + log2SegmentSize_offset cc) = Inr v)
    \<and> \<not> in_heap ip (hs ! (Suc i + j))"
    using Suc.prems by (metis Suc_less_eq add_Suc add_Suc_right)
  note IH = Suc.IH [OF this]
  obtain p lo hi where s: "hs ! i = (p, lo, hi)" by (cases "hs ! i") auto
  with h have "getJMethodId_loop is_valid cc m ip fp i (Suc (n + k)) =
      getJMethodId_loop is_valid cc m ip fp (Suc i) (n + k)"
    by (auto simp: in_heap_def)
  with IH show ?case by simp
qed

text \<open>
  Where an instruction lies: the heap that contains it, the block its segment belongs to, and the
  name of the code blob in that block.
\<close>

definition log2_readable :: "code_cache \<Rightarrow> memory \<Rightarrow> (u64 \<times> u64 \<times> u64) list \<Rightarrow> bool" where
  "log2_readable cc m hs \<longleftrightarrow>
     (\<forall>h\<in>set hs. \<exists>v. read_i32 m (fst h + log2SegmentSize_offset cc) = Inr v)"

definition code_location ::
  "code_cache \<Rightarrow> memory \<Rightarrow> (u64 \<times> u64 \<times> u64) list \<Rightarrow> u64 \<Rightarrow> u64 \<Rightarrow> string \<Rightarrow> bool" where
  "code_location cc m hs ip blk name \<longleftrightarrow>
     (\<exists>k log2 seg_map b n i name_ptr.
        k < length hs \<and> (\<forall>j<k. \<not> in_heap ip (hs ! j)) \<and> in_heap ip (hs ! k)
        \<and> read_i32 m (fst (hs ! k) + log2SegmentSize_offset cc) = Inr log2 \<and> valid_shift log2
        \<and> read_u64 m (fst (hs ! k) + segmap_offset cc + low_offset cc) = Inr seg_map
        \<and> segment_block m seg_map b n \<and> i < n
        \<and> drop_bit (nat (sint log2)) (ip - fst (snd (hs ! k))) = b + word_of_nat i
        \<and> blk = fst (snd (hs ! k)) + push_bit (nat (sint log2)) b + heap_block_type_size cc
        \<and> read_u64 m (blk + codeBlobName_offset cc) = Inr name_ptr
        \<and> read_cstr m name_ptr = Some (Inr name))"

lemma getJMethodId_found:
  assumes "is_valid fp" and "heaps_readable cc m hs" and "log2_readable cc m hs"
    and "code_location cc m hs ip blk name"
    and "block_id is_valid cc m blk fp = Some (Inr (Some i))"
  shows "getJMethodId is_valid cc m ip fp = Some (Inr i)"
proof -
  obtain k log2 seg_map b n j where k: "k < length hs" "\<forall>j<k. \<not> in_heap ip (hs ! j)" "in_heap ip (hs ! k)"
    and l: "read_i32 m (fst (hs ! k) + log2SegmentSize_offset cc) = Inr log2" "valid_shift log2"
    and s: "read_u64 m (fst (hs ! k) + segmap_offset cc + low_offset cc) = Inr seg_map"
    and g: "segment_block m seg_map b n" "j < n"
      "drop_bit (nat (sint log2)) (ip - fst (snd (hs ! k))) = b + word_of_nat j"
    and blk: "blk = fst (snd (hs ! k)) + push_bit (nat (sint log2)) b + heap_block_type_size cc"
    using assms(4) unfolding code_location_def by blast
  have r: "\<forall>i<length hs. heap_at cc m i = Inr (fst (hs ! i)) \<and> heap_range cc m (fst (hs ! i)) = Inr (snd (hs ! i))"
    using assms(2) by (simp add: heaps_readable_def)
  define q where "q = length hs - Suc k"
  have len: "length hs = k + Suc q" using k(1) by (simp add: q_def)
  have skip: "getJMethodId_loop is_valid cc m ip fp 0 (k + Suc q) =
      getJMethodId_loop is_valid cc m ip fp (0 + k) (Suc q)"
    by (rule getJMethodId_loop_skip [where hs = hs])
      (use k r assms(3) in \<open>simp add: log2_readable_def\<close>)
  have h: "heap_method is_valid cc m ip fp (fst (hs ! k)) (fst (snd (hs ! k))) log2 =
      Some (Inr (Some i))"
    using s l(2) g(3) find_block_start [OF g(1,2)] assms(5) blk by (simp add: heap_method_def)
  obtain p lo hi where p: "hs ! k = (p, lo, hi)" by (cases "hs ! k") auto
  have "getJMethodId_loop is_valid cc m ip fp k (Suc q) = Some (Inr i)"
    using r [rule_format, OF k(1)] k(3) l h by (simp add: p in_heap_def)
  with skip have "getJMethodId_loop is_valid cc m ip fp 0 (length hs) = Some (Inr i)"
    by (simp only: len add_0)
  then show ?thesis
    using assms(1,2) by (simp add: getJMethodId_def heaps_readable_def sint_word_of_nat_small)
qed

lemma getJMethodId_none:
  assumes "heaps_readable cc m hs" and "log2_readable cc m hs" and "\<forall>h\<in>set hs. \<not> in_heap ip h"
  shows "getJMethodId is_valid cc m ip fp = Some (Inr 0)"
proof -
  have "getJMethodId_loop is_valid cc m ip fp 0 (length hs + 0) =
      getJMethodId_loop is_valid cc m ip fp (0 + length hs) 0"
    by (rule getJMethodId_loop_skip [where hs = hs])
      (use assms in \<open>simp add: heaps_readable_def log2_readable_def\<close>)
  then show ?thesis
    using assms(1) by (simp add: getJMethodId_def heaps_readable_def sint_word_of_nat_small)
qed

section \<open>A small image of a code cache\<close>

text \<open>Memory given by its non-zero bytes; everything else reads as zero.\<close>

definition byte_memory :: "(u64 \<times> u8) list \<Rightarrow> memory" where
  "byte_memory al a = Some (case map_of al a of None \<Rightarrow> 0 | Some b \<Rightarrow> b)"

text \<open>
  One heap at address 16 with code from 128 to 192 in segments of 16 bytes; the block that starts
  at segment 0 has three segments and holds an \<open>nmethod\<close> whose method has number 1.
\<close>

definition example_cache :: code_cache where
  "example_cache =
     \<lparr>compiledMethod_offset = 8, constMethod_offset = 0, constants_offset = 0, methodIdNum_offset = 8,
      poolHolder_offset = 0, jmethodIds_offset = 0, codeBlobName_offset = 0, memory_offset = 0,
      segmap_offset = 16, log2SegmentSize_offset = 24, low_offset = 0, high_offset = 8,
      heaps_data = 8, heaps_length = 4, heap_block_type_size = 8\<rparr>"

definition example_memory :: memory where
  "example_memory = byte_memory
     [(4, 1), (8, 16), (16, 128), (24, 192), (32, 48), (40, 4), (49, 1), (50, 1),
      (56, 110), (57, 109), (58, 101), (59, 116), (60, 104), (61, 111), (62, 100),
      (64, 72), (72, 88), (80, 1), (88, 96), (96, 104), (104, 3), (120, 77), (136, 56), (144, 64)]"

lemmas example_reads = read_u64_def read_i32_def read_u16_def read_bytes_numeral example_memory_def
  byte_memory_def

definition example_heaps :: "(u64 \<times> u64 \<times> u64) list" where
  "example_heaps = [(16, 128, 192)]"

lemma example_heaps_readable:
  "heaps_readable example_cache example_memory example_heaps"
  "log2_readable example_cache example_memory example_heaps"
proof -
  have "read_i32 example_memory 4 = Inr 1" "read_u64 example_memory 8 = Inr 16"
    "read_u64 example_memory 16 = Inr 128" "read_u64 example_memory 24 = Inr 192"
    "read_i32 example_memory 40 = Inr 4"
    by (simp_all add: example_reads)
  then show "heaps_readable example_cache example_memory example_heaps"
    and "log2_readable example_cache example_memory example_heaps"
    by (simp_all add: heaps_readable_def log2_readable_def example_heaps_def heap_at_def heap_range_def
        example_cache_def)
qed

lemma example_segments: "segment_block example_memory 48 0 3"
proof -
  have e: "0 < i \<and> i < 3 \<longleftrightarrow> i = 1 \<or> i = 2" for i :: nat by auto
  show ?thesis
    unfolding segment_block_def e by (auto simp: example_memory_def byte_memory_def)
qed

lemma example_location: "code_location example_cache example_memory example_heaps 170 136 ''nmethod''"
proof -
  have "read_i32 example_memory 40 = Inr 4" "read_u64 example_memory 32 = Inr 48"
    "read_u64 example_memory 136 = Inr 56"
    by (simp_all add: example_reads)
  moreover have "read_cstr example_memory 56 = Some (Inr ''nmethod'')" by code_simp
  ultimately show ?thesis
    unfolding code_location_def
    using example_segments
    by - (rule exI [of _ 0], rule exI [of _ 4], rule exI [of _ 48], rule exI [of _ 0],
        rule exI [of _ 3], rule exI [of _ 2], rule exI [of _ 56],
        simp add: example_heaps_def example_cache_def in_heap_def valid_shift_def)
qed

definition example_chain :: method_chain where
  "example_chain =
     \<lparr>mc_constMethod = 72, mc_idnum = 1, mc_constantPool = 88, mc_poolHolder = 96,
      mc_jmethodIds = 104, mc_count = 3, mc_id = 77\<rparr>"

lemma example_layout:
  "method_layout example_cache example_memory 64 example_chain"
  "read_u64 example_memory 144 = Inr 64"
proof -
  have "read_u64 example_memory 64 = Inr 72" "read_u16 example_memory 80 = Inr 1"
    "read_u64 example_memory 72 = Inr 88" "read_u64 example_memory 88 = Inr 96"
    "read_u64 example_memory 96 = Inr 104" "read_u64 example_memory 104 = Inr 3"
    "read_u64 example_memory 120 = Inr 77"
    by (simp_all add: example_reads)
  then show "method_layout example_cache example_memory 64 example_chain"
    by (simp add: method_layout_def example_cache_def example_chain_def)
  show "read_u64 example_memory 144 = Inr 64" by (simp add: example_reads)
qed

section \<open>Properties\<close>

text \<open>
  C37. An instruction counts as Java code exactly when it lies in the address range of one of the
  heaps of the code cache, and outside of all ranges no method is found. The two loops agree.
\<close>

theorem java_frame_exact:
  assumes "heaps_readable cc m hs" and "log2_readable cc m hs"
  shows "isJavaFrame cc m ip = Inr (\<exists>h\<in>set hs. in_heap ip h)
    \<and> (isJavaFrame cc m ip = Inr False \<longrightarrow> getJMethodId is_valid cc m ip fp = Some (Inr 0))"
  using isJavaFrame_eq [OF assms(1)] getJMethodId_none [OF assms] by auto

theorem java_frame_exact_witness:
  "isJavaFrame example_cache example_memory 170 = Inr True
   \<and> getJMethodId (\<lambda>_. True) example_cache example_memory 200 8 = Some (Inr 0)"
  using java_frame_exact [OF example_heaps_readable, of 170 "\<lambda>_. True" 8]
    java_frame_exact [OF example_heaps_readable, of 200 "\<lambda>_. True" 8]
  by (simp add: example_heaps_def in_heap_def)

text \<open>
  C32. The identifier of a method is found. If the instruction lies in a block whose blob is named
  after a compiled method, the identifier that the JVM has cached for the method of that block is
  returned; if the blob is the interpreter, it is the one of the method the interpreted frame
  points to, provided all pointers on the way are valid.
\<close>

theorem method_lookup:
  assumes "is_valid fp" and "heaps_readable cc m hs" and "log2_readable cc m hs"
    and "code_location cc m hs ip blk name" and "method_layout cc m method_ptr k"
  shows "(name \<noteq> ''Interpreter'' \<and> has_substring ''nmethod'' name
        \<and> read_u64 m (blk + compiledMethod_offset cc) = Inr method_ptr
      \<longrightarrow> getJMethodId is_valid cc m ip fp = Some (Inr (mc_id k)))
    \<and> (name = ''Interpreter'' \<and> read_u64 m (fp - 24) = Inr method_ptr \<and> is_valid method_ptr
        \<and> chain_valid is_valid cc k
      \<longrightarrow> getJMethodId is_valid cc m ip fp = Some (Inr (mc_id k)))"
proof -
  obtain name_ptr where n: "read_u64 m (blk + codeBlobName_offset cc) = Inr name_ptr"
    "read_cstr m name_ptr = Some (Inr name)"
    using assms(4) unfolding code_location_def by blast
  note found = getJMethodId_found [where is_valid = is_valid and fp = fp, OF assms(1-4)]
  show ?thesis
  proof (intro conjI impI; (elim conjE)?)
    assume "name \<noteq> ''Interpreter''" "has_substring ''nmethod'' name"
      and r: "read_u64 m (blk + compiledMethod_offset cc) = Inr method_ptr"
    then show "getJMethodId is_valid cc m ip fp = Some (Inr (mc_id k))"
      using n compiled_id_eq [OF r assms(5)] by (intro found) (simp add: block_id_def)
  next
    assume "name = ''Interpreter''" and r: "read_u64 m (fp - 24) = Inr method_ptr" "is_valid method_ptr"
      and v: "chain_valid is_valid cc k"
    then show "getJMethodId is_valid cc m ip fp = Some (Inr (mc_id k))"
      using n interpreted_id_eq [OF assms(1) r assms(5) v] by (intro found) (simp add: block_id_def)
  qed
qed

theorem method_lookup_witness:
  "getJMethodId (\<lambda>_. True) example_cache example_memory 170 8 = Some (Inr 77)"
  using method_lookup [OF _ example_heaps_readable example_location example_layout(1), of "\<lambda>_. True" 8]
    example_layout(2)
  by (simp add: example_cache_def example_chain_def)

text \<open>
  Without well-formed entries the walk over the segment map can run forever: with a segment
  map in which every entry is 1, the index goes down and wraps around for ever. The search for the
  start of the block has no bound of its own.
\<close>

lemma find_block_may_diverge: "find_block (\<lambda>_. Some 1) seg_map seg_idx = None"
proof -
  have "m \<noteq> (\<lambda>_. Some 1)" if "find_block m seg_map seg_idx = Some r" for m seg_map seg_idx r
    by (rule find_block.raw_induct [where P = "\<lambda>m s i r. m \<noteq> (\<lambda>_. Some 1)", OF _ that])
      (rule notI, simp add: read_u8_def, blast)
  then show ?thesis by (metis not_Some_eq)
qed

end
