(* ===== verification/Sampling_Safety.thy ===== *)
theory Sampling_Safety
  imports Sampling Method_Lookup
begin

text \<open>
  The handshake between the profiler thread and the signal handler: in every interleaving a handler
  finds the sample it was called for, only one handler is under way, and what reaches the queue fits
  its array. The invariant is proved once for any unwinder that meets the contract.
\<close>

section \<open>The queue of raw samples\<close>

text \<open>No event of the application touches the queue.\<close>

lemma raw_list_unchanged [simp]:
  "raw_list (createCoroutineInfo t1 t2 c s) = raw_list s"
  "raw_list (createChildCoroutineStorage c s) = raw_list s"
  "raw_list (update_coroutine a f s) = raw_list s"
  "raw_list (update_suspension a g s) = raw_list s"
  "raw_list (storage_gcStart t s) = raw_list s"
  "raw_list (mark_for_clean s) = raw_list s"
  "raw_list (snd (addOngoingTraceInfo i s)) = raw_list s"
  "raw_list (snd (findOngoingTraceInfo c s)) = raw_list s"
  "raw_list (removeOngoingTraceInfo c s) = raw_list s"
  by (simp_all add: createCoroutineInfo_def createChildCoroutineStorage_def update_coroutine_def
      update_suspension_def storage_gcStart_def mark_for_clean_def addOngoingTraceInfo_def
      findOngoingTraceInfo_def removeOngoingTraceInfo_def Let_def split_def)

lemma raw_list_unchanged_result:
  "addChildCoroutine c p s = Inr s' \<Longrightarrow> raw_list s' = raw_list s"
  "addSuspensionInfo si s = Inr s' \<Longrightarrow> raw_list s' = raw_list s"
  "storage_gcFinish t s = Inr s' \<Longrightarrow> raw_list s' = raw_list s"
  "clean s = Inr s' \<Longrightarrow> raw_list s' = raw_list s"
  by (auto simp: addChildCoroutine_def addSuspensionInfo_def storage_gcFinish_def gcFinish_take_def
      gcFinish_put_def clean_def rbind_eq_Inr Let_def
      split_def split: option.splits if_splits)

lemma raw_list_charge [simp]: "raw_list (pf_storage (charge_usage self now r c pf)) = raw_list (pf_storage pf)"
  by (auto simp: charge_usage_def Let_def split_def split: option.splits)

lemma raw_list_handlers:
  "raw_list (pf_storage (snd (traceStart he self t1 t2 start c pf))) = raw_list (pf_storage pf)"
  "raw_list (pf_storage (snd (traceEnd he self now r finish c pf))) = raw_list (pf_storage pf)"
  "raw_list (pf_storage (snd (coroutineCreated self t1 t2 c pf))) = raw_list (pf_storage pf)"
  "raw_list (pf_storage (snd (coroutineResumed self r now now' c pf))) = raw_list (pf_storage pf)"
  "raw_list (pf_storage (snd (coroutineCompleted self finish now r c pf))) = raw_list (pf_storage pf)"
  "raw_list (pf_storage (snd (coroutineSuspended env self now r frames start c pf))) = raw_list (pf_storage pf)"
  "raw_list (pf_storage (snd (gcStart now pf))) = raw_list (pf_storage pf)"
  "raw_list (pf_storage (snd (gcFinish now pf))) = raw_list (pf_storage pf)"
proof -
  show "raw_list (pf_storage (snd (traceStart he self t1 t2 start c pf))) = raw_list (pf_storage pf)"
    by (auto simp: traceStart_def Let_def split_def split: option.splits)
  show "raw_list (pf_storage (snd (traceEnd he self now r finish c pf))) = raw_list (pf_storage pf)"
    by (auto simp: traceEnd_def findOngoingTrace_def removeOngoingTrace_def write_trace_def Let_def
        split_def split: option.splits sum.splits)
  show "raw_list (pf_storage (snd (coroutineCreated self t1 t2 c pf))) = raw_list (pf_storage pf)"
    by (auto simp: coroutineCreated_def raw_list_unchanged_result Let_def split: sum.splits)
  show "raw_list (pf_storage (snd (coroutineSuspended env self now r frames start c pf))) = raw_list (pf_storage pf)"
    by (auto simp: coroutineSuspended_def pause_coroutine_def record_suspension_def
        raw_list_unchanged_result Let_def split: option.splits sum.splits prod.splits)
qed (auto simp: coroutineResumed_def coroutineCompleted_def gcStart_def gcFinish_def
    raw_list_unchanged_result Let_def split: option.splits sum.splits)

lemma app_event_raw_list:
  "app_event ev \<Longrightarrow> raw_list (pf_storage (snd (profiler_exec he env ev pf))) = raw_list (pf_storage pf)"
  by (cases ev) (auto simp: app_event_def raw_list_handlers raw_list_unchanged_result split: sum.splits)

definition sample_fits :: "raw_call_trace_record \<Rightarrow> bool" where
  "sample_fits r \<longleftrightarrow>
     0 \<le> sint (rr_trace_count r)
     \<and> (\<exists>t. rr_trace r = Some t \<and> nat (sint (rr_trace_count r)) \<le> length (at_instructions t)
          \<and> rr_thread r = at_thread_id t)"

definition queue_fits :: "profiler \<Rightarrow> bool" where
  "queue_fits pf \<longleftrightarrow> (\<forall>r\<in>set (cl_list (raw_list (pf_storage pf))). sample_fits r)"

lemma queue_fits_process: "queue_fits pf \<Longrightarrow> queue_fits (snd (processTraces env pf))"
proof (rule processTraces_invariant)
  show "\<forall>pf x s. queue_fits pf \<longrightarrow> removeRawTraceHeader (pf_storage pf) = Inr (x, s) \<longrightarrow>
      queue_fits (pf\<lparr>pf_storage := s\<rparr>)"
    by (auto simp: queue_fits_def removeRawTraceHeader_cases split: list.splits)
  show "\<forall>pf raw. queue_fits pf \<longrightarrow> queue_fits (snd (process_record env raw pf))"
    by (simp add: queue_fits_def process_record_raw_list)
qed

section \<open>The invariant\<close>

definition no_signals :: "sampling \<Rightarrow> bool" where
  "no_signals s \<longleftrightarrow> sm_pending s = {} \<and> (\<forall>tid. sm_handler s tid = Idle)"

definition fresh_sample :: "pthread_t \<Rightarrow> async_trace \<Rightarrow> bool" where
  "fresh_sample tid t \<longleftrightarrow>
     at_thread_id t = tid \<and> at_size t = 30 \<and> length (at_instructions t) = 30 \<and> \<not> at_ready t"

definition filled_sample :: "pthread_t \<Rightarrow> async_trace \<Rightarrow> bool" where
  "filled_sample tid t \<longleftrightarrow>
     at_thread_id t = tid \<and> 0 \<le> sint (at_size t) \<and> sint (at_size t) \<le> 30
     \<and> length (at_instructions t) = 30 \<and> at_ready t"

fun handshake_ok :: "sampler_pc \<Rightarrow> sampling \<Rightarrow> bool" where
  "handshake_ok (Published _ tid _) s \<longleftrightarrow>
     sm_trace s \<and> no_signals s \<and> (\<exists>t. sm_sample s = Some t \<and> fresh_sample tid t)"
| "handshake_ok (Waiting _ tid _) s \<longleftrightarrow>
     sm_trace s
     \<and> (\<exists>t. sm_sample s = Some t
          \<and> (fresh_sample tid t \<and> sm_pending s \<subseteq> {tid} \<and> (\<forall>u. u \<noteq> tid \<longrightarrow> sm_handler s u = Idle)
               \<and> (tid \<in> sm_pending s \<longrightarrow> sm_handler s tid = Idle)
             \<or> filled_sample tid t \<and> no_signals s))"
| "handshake_ok _ s \<longleftrightarrow> \<not> sm_trace s \<and> sm_sample s = None \<and> no_signals s"

definition sampling_ok :: "sampling \<Rightarrow> bool" where
  "sampling_ok s \<longleftrightarrow> handshake_ok (sm_pc s) s \<and> queue_fits (sm_profiler s)"

lemma fresh_new_sample: "fresh_sample (th_id th) (new_sample th)"
  by (simp add: fresh_sample_def new_sample_def async_trace_new_def)

lemma filled_fits:
  assumes "filled_sample tid t" and "queue_fits pf"
  shows "queue_fits (pf\<lparr>pf_storage := addRawTrace now t c (pf_storage pf)\<rparr>)"
  using assms
  by (auto simp: queue_fits_def addRawTrace_def cl_push_back_def sample_fits_def filled_sample_def Let_def)

lemma active_handler:
  assumes "sampling_ok s" and "sm_handler s tid \<noteq> Idle"
  shows "\<exists>start rest t. sm_pc s = Waiting start tid rest \<and> sm_trace s \<and> sm_sample s = Some t
    \<and> fresh_sample tid t \<and> sm_pending s = {} \<and> (\<forall>u. u \<noteq> tid \<longrightarrow> sm_handler s u = Idle)"
proof (cases "sm_pc s")
  case (Waiting start u rest)
  with assms obtain t where t: "sm_trace s" "sm_sample s = Some t" "fresh_sample u t"
    "sm_pending s \<subseteq> {u}" "\<forall>v. v \<noteq> u \<longrightarrow> sm_handler s v = Idle" "u \<in> sm_pending s \<longrightarrow> sm_handler s u = Idle"
    by (auto simp: sampling_ok_def no_signals_def)
  have u: "u = tid" using t(5) assms(2) by metis
  with t(4,6) assms(2) have "sm_pending s = {}" by auto
  with t u Waiting show ?thesis by blast
qed (use assms in \<open>auto simp: sampling_ok_def no_signals_def\<close>)

context stack_unwinder
begin

lemma signal_action_fills:
  assumes "fresh_sample tid t" and "signal_action unwind he x current t = Some (Inr t')"
  shows "filled_sample tid t'"
proof -
  obtain u where u: "unwind x (at_stack_lo t) (at_stack_hi t) t = Some (Inr u)"
    and t': "t' = u\<lparr>at_coroutine_id := sample_coroutine_id he current u, at_ready := True\<rparr>"
    using assms(2) by (auto simp: signal_action_def bind_eq_Some_conv rbind_eq_Inr)
  have "at_size t = 30" "length (at_instructions t) = 30" "at_thread_id t = tid"
    using assms(1) by (simp_all add: fresh_sample_def)
  with unwind_fields [OF u] unwind_size [OF u] show ?thesis
    by (simp add: filled_sample_def t')
qed

lemma sampling_ok_step:
  assumes "sampling_step unwind he env s s'" and "sampling_ok s"
  shows "sampling_ok s'"
  using assms
proof (cases rule: sampling_step.cases)
  case (Publish start a rest th)
  with assms(2) show ?thesis
    using fresh_new_sample by (auto simp: sampling_ok_def publish_def no_signals_def)
next
  case (Kill start tid rest)
  with assms(2) show ?thesis
    by (auto simp: sampling_ok_def send_signal_def no_signals_def)
next
  case (Collect start tid rest t now)
  with assms(2) have "filled_sample tid t" "no_signals s"
    by (auto simp: sampling_ok_def fresh_sample_def)
  with Collect assms(2) show ?thesis
    by (auto simp: sampling_ok_def collect_def no_signals_def intro: filled_fits)
next
  case (Process start)
  with assms(2) queue_fits_process [of "sm_profiler s" env] show ?thesis
    by (auto simp: sampling_ok_def end_round_def no_signals_def split: prod.splits sum.splits)
next
  case (Fill tid t x t')
  obtain start rest where pc: "sm_pc s = Waiting start tid rest" and f: "fresh_sample tid t"
    and "sm_pending s = {}" "\<forall>u. u \<noteq> tid \<longrightarrow> sm_handler s u = Idle"
    using active_handler [OF assms(2), of tid] Fill by auto
  moreover have "filled_sample tid t'" by (rule signal_action_fills [OF f \<open>signal_action unwind he x _ t = Some (Inr t')\<close>])
  ultimately show ?thesis
    using Fill assms(2) by (auto simp: sampling_ok_def no_signals_def)
next
  case (Event ev)
  with assms(2) show ?thesis
    by (cases "sm_pc s") (auto simp: sampling_ok_def queue_fits_def app_event_raw_list no_signals_def)
next
  case (Deliver tid)
  with assms(2) show ?thesis
    by (cases "sm_pc s") (auto simp: sampling_ok_def no_signals_def)
qed (cases "sm_pc s"; auto simp: sampling_ok_def no_signals_def stop_def queue_fits_def)+

lemma sampling_ok_reachable:
  assumes "sampling_steps unwind he env s s'" and "sampling_ok s"
  shows "sampling_ok s'"
  using assms by induction (auto intro: sampling_ok_step)

lemma handshake:
  assumes "sampling_steps unwind he env (sampling_start pf alive) s" and "queue_fits pf"
  shows "sampling_ok s"
  using sampling_ok_reachable [OF assms(1)] assms(2)
  by (simp add: sampling_ok_def sampling_start_def no_signals_def queue_fits_def startProfiler_def)

end

section \<open>Progress\<close>

text \<open>
  While a sample is being taken, the profiler is active, the thread lives, and a signal is under
  way or the sample is ready. The rank says how many steps the handshake still needs.
\<close>

fun handshake_live :: "sampler_pc \<Rightarrow> sampling \<Rightarrow> bool" where
  "handshake_live (Published _ tid _) s \<longleftrightarrow> tid \<in> sm_alive s"
| "handshake_live (Waiting _ tid _) s \<longleftrightarrow>
     (\<exists>t. sm_sample s = Some t \<and> at_ready t) \<or> tid \<in> sm_pending s \<or> sm_handler s tid \<noteq> Idle"
| "handshake_live _ s \<longleftrightarrow> False"

fun handshake_rank :: "sampler_pc \<Rightarrow> sampling \<Rightarrow> nat" where
  "handshake_rank (Published _ tid _) s = 5"
| "handshake_rank (Waiting _ tid _) s =
     (if tid \<in> sm_pending s then 4
      else (case sm_handler s tid of Entered \<Rightarrow> 3 | Spinning \<Rightarrow> 2 | Idle \<Rightarrow> 1))"
| "handshake_rank _ s = 0"

lemma signal_action_returns:
  assumes "unwind x (at_stack_lo t) (at_stack_hi t) t = Some (Inr t')"
  obtains t'' where "signal_action unwind he x current t = Some (Inr t'')"
  using assms by (simp add: signal_action_def)

lemma handshake_progress:
  assumes "sampling_ok s" and "handshake_live (sm_pc s) s" and "pf_active (sm_profiler s)"
    and "\<forall>tid t. fresh_sample tid t \<longrightarrow>
      (\<exists>t'. unwind x (at_stack_lo t) (at_stack_hi t) t = Some (Inr t'))"
  shows "\<exists>s'. sampling_step unwind he env s s' \<and> handshake_rank (sm_pc s') s' < handshake_rank (sm_pc s) s"
proof (cases "sm_pc s")
  case (Published start tid rest)
  have "sampling_step unwind he env s (send_signal start tid rest s)" by (rule Kill [OF Published])
  then show ?thesis
    using Published by (intro exI conjI) (assumption, auto simp: send_signal_def split: handler_pc.splits)
next
  case (Waiting start tid rest)
  then obtain t where t: "sm_trace s" "sm_sample s = Some t" using assms(1) by (auto simp: sampling_ok_def)
  show ?thesis
  proof (cases "tid \<in> sm_pending s \<or> sm_handler s tid \<noteq> Idle")
    case False
    then have "at_ready t" using assms(2) t Waiting by simp
    then have "sampling_step unwind he env s (collect 0 t start rest s)" by (rule Collect [OF Waiting t(2)])
    then show ?thesis using Waiting False by (intro exI conjI) (assumption, simp add: collect_def)
  next
    case True
    consider "tid \<in> sm_pending s" "sm_handler s tid = Idle"
      | "tid \<notin> sm_pending s" "sm_handler s tid = Entered" | "tid \<notin> sm_pending s" "sm_handler s tid = Spinning"
      using True active_handler [OF assms(1), of tid] by (cases "sm_handler s tid") auto
    then show ?thesis
    proof cases
      case 1
      show ?thesis by (rule exI, rule conjI, rule Deliver [OF 1]) (simp add: Waiting 1)
    next
      case 2
      show ?thesis by (rule exI, rule conjI, rule Active [OF 2(2) assms(3)]) (simp add: Waiting 2)
    next
      case 3
      then have "fresh_sample tid t" using active_handler [OF assms(1), of tid] t by auto
      then obtain t' where "signal_action unwind he x (current_coroutine_id (sm_profiler s) tid) t = Some (Inr t')"
        using signal_action_returns assms(4) by metis
      note fill = Fill [OF 3(2) t this]
      show ?thesis by (rule exI, rule conjI, rule fill) (simp add: Waiting 3)
    qed
  qed
qed (use assms(2) in auto)

lemma handshake_persists:
  assumes "sampling_step unwind he env s s'" and "sampling_ok s" and "handshake_live (sm_pc s) s"
    and "pf_active (sm_profiler s')" and "sm_alive s \<subseteq> sm_alive s'"
  shows "handshake_rank (sm_pc s') s' \<le> handshake_rank (sm_pc s) s
    \<and> (handshake_live (sm_pc s') s' \<or> (\<exists>start rest. sm_pc s' = Sample_threads start rest))"
  using assms(1)
proof (cases rule: sampling_step.cases)
  case (Kill start tid rest)
  with assms show ?thesis by (auto simp: send_signal_def split: handler_pc.splits)
next
  case (Collect start tid rest t now)
  then show ?thesis by (simp add: collect_def)
next
  case (Fill tid t x t')
  obtain start rest where "sm_pc s = Waiting start tid rest" "sm_pending s = {}"
    using active_handler [OF assms(2), of tid] Fill by auto
  with Fill show ?thesis by (auto simp: signal_action_def bind_eq_Some_conv rbind_eq_Inr)
next
  case (Deliver tid)
  with assms(2,3) show ?thesis by (cases "sm_pc s") (auto simp: sampling_ok_def no_signals_def)
next
  case (Active tid)
  with assms(2,3) active_handler [OF assms(2), of tid] show ?thesis by auto
qed (use assms in \<open>cases "sm_pc s"; auto split: handler_pc.splits\<close>)+

section \<open>The end of the profiler\<close>

text \<open>The profiler thread waits for a sample that no handler will fill.\<close>

definition sampler_blocked :: "sampling \<Rightarrow> bool" where
  "sampler_blocked s \<longleftrightarrow>
     (\<exists>start tid rest t. sm_pc s = Waiting start tid rest \<and> sm_sample s = Some t \<and> \<not> at_ready t)
     \<and> no_signals s"

lemma blocked_step:
  assumes "sampling_step unwind he env s s'" and "sampler_blocked s"
  shows "sampler_blocked s'"
  using assms by (cases rule: sampling_step.cases) (auto simp: sampler_blocked_def no_signals_def)

lemma blocked_steps:
  assumes "sampling_steps unwind he env s s'" and "sampler_blocked s"
  shows "sampler_blocked s'"
  using assms by induction (auto intro: blocked_step)

lemma stop_blocks:
  assumes "sampling_ok s" and "sm_pc s = Waiting start tid rest" and "sm_sample s = Some t"
    and "\<not> at_ready t" and "sm_handler s tid \<noteq> Spinning"
  shows "\<exists>s'. sampling_steps unwind he env s s' \<and> sampler_blocked s'"
proof -
  define s1 where "s1 = s\<lparr>sm_profiler := stop (sm_profiler s)\<rparr>"
  have 1: "sampling_steps unwind he env s s1" unfolding s1_def by (rule r_into_rtranclp) (rule Stop)
  have f: "\<not> pf_active (sm_profiler s1)" by (simp add: s1_def stop_def)
  have p: "sm_pending s1 \<subseteq> {tid}" "\<And>u. u \<noteq> tid \<Longrightarrow> sm_handler s1 u = Idle"
    "tid \<in> sm_pending s1 \<Longrightarrow> sm_handler s1 tid = Idle"
    using assms(1-4) by (auto simp: sampling_ok_def s1_def filled_sample_def)
  have e: "sm_handler s1 tid \<noteq> Spinning" using assms(5) by (simp add: s1_def)
  define s2 where "s2 = (if tid \<in> sm_pending s1
    then s1\<lparr>sm_pending := sm_pending s1 - {tid}, sm_handler := (sm_handler s1)(tid := Entered)\<rparr> else s1)"
  have 2: "sampling_steps unwind he env s1 s2"
    using Deliver [OF _ p(3)] by (auto simp: s2_def)
  define s3 where "s3 = (if sm_handler s2 tid = Entered then s2\<lparr>sm_handler := (sm_handler s2)(tid := Idle)\<rparr> else s2)"
  have "\<not> pf_active (sm_profiler s2)" using f by (simp add: s2_def)
  then have 3: "sampling_steps unwind he env s2 s3" using Inactive [of s2 tid] by (auto simp: s3_def)
  have "sm_handler s3 tid = Idle" using e by (cases "sm_handler s1 tid") (auto simp: s3_def s2_def)
  moreover have "sm_handler s3 v = Idle" if "v \<noteq> tid" for v
    using p(2) [OF that] that by (simp add: s3_def s2_def)
  moreover have "sm_pending s3 = {}" using p(1) by (auto simp: s3_def s2_def)
  ultimately have "no_signals s3" unfolding no_signals_def by metis
  moreover have "sm_pc s3 = sm_pc s" "sm_sample s3 = sm_sample s" by (simp_all add: s3_def s2_def s1_def)
  ultimately have "sampler_blocked s3" using assms(2-4) by (auto simp: sampler_blocked_def)
  with 1 2 3 show ?thesis by (meson rtranclp_trans)
qed

text \<open>
  A thread that has ended does not get the signal, and the profiler thread does not look at the
  result of \<open>pthread_kill\<close>.
\<close>

lemma ended_thread_blocks:
  assumes "sampling_ok s" and "sm_pc s = Published start tid rest" and "tid \<notin> sm_alive s"
  shows "\<exists>s'. sampling_steps unwind he env s s' \<and> sampler_blocked s'"
proof -
  have "sampling_steps unwind he env s (send_signal start tid rest s)"
    by (rule r_into_rtranclp) (rule Kill [OF assms(2)])
  moreover have "sampler_blocked (send_signal start tid rest s)"
    using assms by (auto simp: sampling_ok_def sampler_blocked_def send_signal_def no_signals_def fresh_sample_def)
  ultimately show ?thesis by blast
qed

section \<open>A small run\<close>

text \<open>The thread 3 has been signalled; nothing else is under way.\<close>

definition example_waiting :: sampling where
  "example_waiting =
     \<lparr>sm_profiler = snd (startProfiler example_profiler), sm_pc = Waiting 0 3 [],
      sm_sample = Some (new_sample (thread_info_new ''main'' 3 4096 8192)), sm_trace = True,
      sm_handler = (\<lambda>_. Idle), sm_pending = {3}, sm_alive = {3}\<rparr>"

text \<open>An unwinder that finds no frame, because the frame pointer is 0.\<close>

definition example_unwind :: "unit \<Rightarrow> u64 \<Rightarrow> u64 \<Rightarrow> async_trace \<Rightarrow> async_trace result option" where
  "example_unwind _ = linux_aarch64_unwind_stack example_jvm example_stack (3, 0, 5)"

lemma example_unwind_eq: "example_unwind x lo hi t = Some (Inr (t\<lparr>at_size := 0\<rparr>))"
  by (simp add: example_unwind_def linux_aarch64_unwind_stack_def aarch64_unwind_stack_def)

definition example_traced :: profiler where
  "example_traced = snd (traceStart example_hash 3 10 11 12 7 example_profiler)"

lemma example_traced_facts:
  "queue_fits example_traced" "cl_list (threads (pf_jvm example_traced)) = [0]"
  "cells (thread_heap (pf_jvm example_traced)) 0 =
     Some ((thread_info_new ''main'' 3 4096 8192)\<lparr>th_current_traces := 1\<rparr>)"
proof -
  have a: "findThread 3 (pf_jvm example_profiler) = Some 0" by (rule example_thread)
  have j: "pf_jvm example_traced = add_current_traces 1 0 (pf_jvm example_profiler)"
    using a by (simp add: example_traced_def traceStart_def Let_def split_def)
  show "queue_fits example_traced"
    by (simp add: example_traced_def queue_fits_def raw_list_handlers example_profiler_def profiler_new_def
        storage_new_def cl_new_def)
  show "cl_list (threads (pf_jvm example_traced)) = [0]"
    by (simp add: j example_profiler_def profiler_new_def addCurrentThread_def jvm_threads_new_def
        heap_alloc_def heap_empty_def cl_push_back_def cl_new_def Let_def)
  show "cells (thread_heap (pf_jvm example_traced)) 0 =
     Some ((thread_info_new ''main'' 3 4096 8192)\<lparr>th_current_traces := 1\<rparr>)"
    by (simp add: j add_current_traces_def heap_update_def example_profiler_def profiler_new_def
        addCurrentThread_def jvm_threads_new_def heap_alloc_def heap_empty_def thread_info_new_def Let_def)
qed

lemma example_run:
  "\<exists>s. sampling_steps unwind he env (sampling_start example_traced {3}) s \<and> sm_handler s 3 = Entered"
proof -
  let ?th = "(thread_info_new ''main'' 3 4096 8192)\<lparr>th_current_traces := 1\<rparr>"
  define s0 where "s0 = sampling_start example_traced {3}"
  define s1 where "s1 = s0\<lparr>sm_pc := Sample_threads 0 [0]\<rparr>"
  define s2 where "s2 = publish ?th 0 [] s1"
  define s3 where "s3 = send_signal 0 3 [] s2"
  define s4 where "s4 = s3\<lparr>sm_pending := sm_pending s3 - {3}, sm_handler := (sm_handler s3)(3 := Entered)\<rparr>"
  have "sampling_step unwind he env s0 s1"
    using Round [of s0 unwind he env 0] example_traced_facts(2)
    by (simp add: s1_def s0_def sampling_start_def startProfiler_def getThreads_def cl_snapshot_def)
  moreover have "sampling_step unwind he env s1 s2"
    unfolding s2_def using example_traced_facts(3)
    by (intro Publish [where a = 0]) (simp_all add: s1_def s0_def sampling_start_def startProfiler_def)
  moreover have "sampling_step unwind he env s2 s3"
    unfolding s3_def by (rule Kill) (simp add: s2_def publish_def thread_info_new_def)
  moreover have "sampling_step unwind he env s3 s4"
    unfolding s4_def
    by (rule Deliver) (simp_all add: s3_def s2_def s1_def s0_def publish_def send_signal_def sampling_start_def)
  ultimately have "sampling_steps unwind he env s0 s4" by (meson converse_rtranclp_into_rtranclp rtranclp.rtrancl_refl)
  moreover have "sm_handler s4 3 = Entered" by (simp add: s4_def)
  ultimately show ?thesis unfolding s0_def by blast
qed

lemma example_queue: "queue_fits example_profiler"
  by (simp add: queue_fits_def example_profiler_def profiler_new_def storage_new_def cl_new_def)

lemma example_waiting_ok: "sampling_ok example_waiting"
  using example_queue fresh_new_sample [of "thread_info_new ''main'' 3 4096 8192"]
  by (simp add: sampling_ok_def example_waiting_def startProfiler_def queue_fits_def thread_info_new_def)

text \<open>The same sample, published for a thread that has ended.\<close>

definition example_ended :: sampling where
  "example_ended = example_waiting\<lparr>sm_pc := Published 0 3 [], sm_pending := {}, sm_alive := {}\<rparr>"

lemma example_ended_ok: "sampling_ok example_ended"
  using example_waiting_ok fresh_new_sample [of "thread_info_new ''main'' 3 4096 8192"]
  by (simp add: sampling_ok_def example_ended_def example_waiting_def no_signals_def thread_info_new_def)

section \<open>Properties\<close>

text \<open>
  C9. The handshake is safe on all four platforms, in every interleaving of the profiler thread,
  the signal handlers, the events of the application, threads that start and end, and \<open>stop\<close>: while
  a handler runs, the profiler thread waits for it, the pointer it reads is not null and points to
  the unfinished sample of its own thread, and no other handler runs. So no handler spins, writes
  into a sample that was given away, or mixes two samples; and every sample in the queue has its
  frames inside its array.
\<close>

theorem handshake_safe:
  assumes "queue_fits pf"
    and "sampling_steps (\<lambda>(m, regs). linux_aarch64_unwind_stack (jvm_lookup_of is_valid cc m) m regs)
           he env (sampling_start pf alive) s
       \<or> sampling_steps (\<lambda>(m, regs). apple_aarch64_unwind_stack strip (jvm_lookup_of is_valid cc m) m regs)
           he env (sampling_start pf alive) s
       \<or> sampling_steps (\<lambda>(m, rip, c). linux_x86_64_unwind_stack u (jvm_lookup_of is_valid cc m) rip c)
           he env (sampling_start pf alive) s
       \<or> sampling_steps (\<lambda>(m, c). apple_x86_64_unwind_stack u ucontext d (jvm_lookup_of is_valid cc m) c)
           he env (sampling_start pf alive) s"
  shows "(\<forall>tid. sm_handler s tid \<noteq> Idle \<longrightarrow>
            (\<exists>start rest t. sm_pc s = Waiting start tid rest \<and> sm_trace s \<and> sm_sample s = Some t
               \<and> at_thread_id t = tid \<and> \<not> at_ready t)
            \<and> (\<forall>v. v \<noteq> tid \<longrightarrow> sm_handler s v = Idle))
         \<and> (\<forall>r\<in>set (cl_list (raw_list (pf_storage (sm_profiler s)))). sample_fits r)"
proof -
  have ok: "sampling_ok s"
    using assms(2) linux_aarch64.handshake [OF _ assms(1)] apple_aarch64.handshake [OF _ assms(1)]
      linux_x86_64.handshake [OF _ assms(1)] apple_x86_64.handshake [OF _ assms(1)]
    by (elim disjE)
  then have "queue_fits (sm_profiler s)" by (simp add: sampling_ok_def)
  moreover have "\<exists>start rest t. sm_pc s = Waiting start tid rest \<and> sm_trace s \<and> sm_sample s = Some t
      \<and> at_thread_id t = tid \<and> \<not> at_ready t" "v \<noteq> tid \<Longrightarrow> sm_handler s v = Idle"
    if "sm_handler s tid \<noteq> Idle" for tid v
    using active_handler [OF ok that] by (auto simp: fresh_sample_def)
  ultimately show ?thesis by (simp add: queue_fits_def)
qed

theorem handshake_safe_witness:
  "\<exists>s. sampling_steps (\<lambda>(m, regs). linux_aarch64_unwind_stack (jvm_lookup_of (\<lambda>_. True) example_cache m) m regs)
         example_hash example_env (sampling_start example_traced {3}) s
     \<and> sm_handler s 3 = Entered \<and> sm_trace s \<and> (\<exists>start rest. sm_pc s = Waiting start 3 rest)"
proof -
  obtain s where s: "sampling_steps
      (\<lambda>(m, regs). linux_aarch64_unwind_stack (jvm_lookup_of (\<lambda>_. True) example_cache m) m regs)
      example_hash example_env (sampling_start example_traced {3}) s" "sm_handler s 3 = Entered"
    using example_run by blast
  from handshake_safe [OF example_traced_facts(1) disjI1 [OF s(1)]] s(2)
  have "sm_trace s" "\<exists>start rest. sm_pc s = Waiting start 3 rest" by (metis handler_pc.distinct(1))+
  with s show ?thesis by blast
qed



text \<open>
  C39. A signal that gets lost blocks the profiler thread for ever. If \<open>stop\<close> is called before the
  handler has looked at the flag, the handler returns without filling the sample; if the thread has
  ended before the signal is sent, there is no handler at all. In both cases a state can be reached
  in which the profiler thread waits, and it waits in every later state.
\<close>

theorem lost_signal_blocks_sampler:
  assumes "sampling_ok s"
    and "(\<exists>start tid rest t. sm_pc s = Waiting start tid rest \<and> sm_sample s = Some t \<and> \<not> at_ready t
           \<and> sm_handler s tid \<noteq> Spinning)
      \<or> (\<exists>start tid rest. sm_pc s = Published start tid rest \<and> tid \<notin> sm_alive s)"
  shows "\<exists>s'. sampling_steps unwind he env s s' \<and> sampler_blocked s'
    \<and> (\<forall>s''. sampling_steps unwind he env s' s'' \<longrightarrow> sampler_blocked s'')"
proof -
  obtain s' where "sampling_steps unwind he env s s'" "sampler_blocked s'"
    using assms(2) stop_blocks [OF assms(1)] ended_thread_blocks [OF assms(1)] by metis
  with blocked_steps show ?thesis by blast
qed

theorem lost_signal_blocks_sampler_witness:
  "(\<exists>s'. sampling_steps example_unwind example_hash example_env example_waiting s' \<and> sampler_blocked s')
   \<and> (\<exists>s'. sampling_steps example_unwind example_hash example_env example_ended s' \<and> sampler_blocked s')"
proof (rule conjI)
  show "\<exists>s'. sampling_steps example_unwind example_hash example_env example_waiting s' \<and> sampler_blocked s'"
    using lost_signal_blocks_sampler [OF example_waiting_ok, where unwind = example_unwind
        and he = example_hash and env = example_env]
    by (auto simp: example_waiting_def new_sample_def async_trace_new_def)
  show "\<exists>s'. sampling_steps example_unwind example_hash example_env example_ended s' \<and> sampler_blocked s'"
    using lost_signal_blocks_sampler [OF example_ended_ok, where unwind = example_unwind
        and he = example_hash and env = example_env]
    by (auto simp: example_ended_def)
qed

end
