(* ===== verification/Instrumentation.thy ===== *)
theory Instrumentation
  imports Args_Parser
begin

text \<open>
  \<open>profiler/instrumentation.cpp\<close> and \<open>utils/jarLoader.cpp\<close>: how the agent loads its Java part and
  lets it rewrite the classes it wants to trace. The JVM is reached through JNI and JVMTI; what a
  call answers is a parameter of the model, and every check the code makes of an answer is a branch.
\<close>

section \<open>Calls into the JVM\<close>

text \<open>A JNI call throws a Java exception or returns; references and identifiers are addresses, 0 is null.\<close>

datatype 'a jni = Jni_exception | Jni_value 'a

type_synonym jref = u64

text \<open>
  \<open>if (jni->ExceptionCheck()) { ...; throw runtime_error(message); }\<close>: the exception is printed,
  cleared and replaced by a C++ exception.
\<close>

definition exception_check :: "string \<Rightarrow> 'a jni \<Rightarrow> 'a result" where
  "exception_check message r =
     (case r of Jni_exception \<Rightarrow> Inl (Runtime_error message) | Jni_value x \<Rightarrow> Inr x)"

definition null_check :: "string \<Rightarrow> jref \<Rightarrow> jref result" where
  "null_check message x = (if x = 0 then Inl (Runtime_error message) else Inr x)"

text \<open>
  The calls of JNI and JVMTI that the agent makes. A Java array of bytes is the list of its bytes;
  \<open>CallStaticObjectMethod\<close> on the methods of the Java part returns an array or null.
\<close>

record jni_env =
  jni_FindClass :: "string \<Rightarrow> jref jni"
  jni_NewGlobalRef :: "jref \<Rightarrow> jref"
  jni_GetStaticMethodID :: "jref \<Rightarrow> string \<Rightarrow> string \<Rightarrow> jref jni"
  jni_GetMethodID :: "jref \<Rightarrow> string \<Rightarrow> string \<Rightarrow> jref jni"
  jni_GetStaticFieldID :: "jref \<Rightarrow> string \<Rightarrow> string \<Rightarrow> jref jni"
  jni_GetStaticObjectField :: "jref \<Rightarrow> jref \<Rightarrow> jref jni"
  jni_CallVoidMethod :: "jref \<Rightarrow> jref \<Rightarrow> unit jni"
  jni_NewByteArray :: "nat \<Rightarrow> unit jni"
  jni_NewStringUTF :: "string \<Rightarrow> string jni"
  jni_SetByteArrayRegion :: "u8 list \<Rightarrow> u8 list jni"
  jni_GetByteArrayRegion :: "u8 list \<Rightarrow> u8 list jni"
  jni_CallStaticObjectMethod :: "jref \<Rightarrow> jref \<Rightarrow> u8 list \<Rightarrow> string option \<Rightarrow> u8 list option jni"
  jvmti_AddToSystemClassLoaderSearch :: "string \<Rightarrow> i32"
  jvmti_Allocate :: "nat \<Rightarrow> i32"

section \<open>The jar\<close>

record instrumentation_metadata =
  im_klass :: jref
  im_instrument_coroutines_method :: jref
  im_instrument_method :: jref

text \<open>The operator \<open>/\<close> of \<open>std::filesystem::path\<close> and \<open>absolute\<close>, on a POSIX system.\<close>

definition path_append :: "string \<Rightarrow> string \<Rightarrow> string" where
  "path_append p q =
     (if q \<noteq> [] \<and> hd q = CHR ''/'' then q
      else if p = [] \<or> last p = CHR ''/'' then p @ q
      else p @ ''/'' @ q)"

definition absolute_path :: "string \<Rightarrow> string \<Rightarrow> string" where
  "absolute_path cwd p = path_append cwd p"

definition jar_location :: "string \<Rightarrow> string option \<Rightarrow> string \<Rightarrow> string" where
  "jar_location cwd jar name =
     (case jar of
        None \<Rightarrow> absolute_path cwd (path_append cwd name)
      | Some p \<Rightarrow> absolute_path cwd p)"

text \<open>Identifiers of methods that are null without an exception are only logged.\<close>

definition load :: "jni_env \<Rightarrow> string \<Rightarrow> string option \<Rightarrow> string \<Rightarrow> instrumentation_metadata result" where
  "load jni cwd jar name =
     (let err = jvmti_AddToSystemClassLoaderSearch jni (jar_location cwd jar name) in
      if err \<noteq> 0 then
        Inl (Runtime_error (''Cannot add jar to system classloader search:'' @ to_string (sint err)))
      else
        rbind (exception_check ''Cannot load instrumentation class''
                 (jni_FindClass jni ''io/inst/CoroutineInstrumentator'')) (\<lambda>inst.
        let klassReference = jni_NewGlobalRef jni inst in
        rbind (null_check ''Cannot get instrumentator class!'' inst) (\<lambda>inst.
        rbind (exception_check ''method transformKotlinCoroutines not found''
                 (jni_GetStaticMethodID jni inst ''transformKotlinCoroutines'' ''([B)[B'')) (\<lambda>coroutines.
        rbind (exception_check ''method transformMethodForTracing not found''
                 (jni_GetStaticMethodID jni inst ''transformMethodForTracing'' ''([BLjava/lang/String;)[B''))
          (\<lambda>method.
        Inr \<lparr>im_klass = klassReference, im_instrument_coroutines_method = coroutines,
             im_instrument_method = method\<rparr>)))))"

section \<open>Rewriting classes\<close>

record instrumentation =
  in_profiler_options :: profiler_options
  in_metadata :: "instrumentation_metadata option"

definition instrumentation_new :: "profiler_options \<Rightarrow> instrumentation" where
  "instrumentation_new po = \<lparr>in_profiler_options = po, in_metadata = None\<rparr>"

definition setInstrumentationMetadata ::
  "instrumentation_metadata \<Rightarrow> instrumentation \<Rightarrow> instrumentation" where
  "setInstrumentationMetadata md i = i\<lparr>in_metadata := Some md\<rparr>"

definition getJarPath :: "instrumentation \<Rightarrow> string option" where
  "getJarPath i = jar_path (in_profiler_options i)"

definition coroutine_probes_name :: string where
  "coroutine_probes_name = ''kotlinx/coroutines/debug/internal/DebugProbesImpl''"

definition the_metadata :: "instrumentation \<Rightarrow> instrumentation_metadata result" where
  "the_metadata i =
     (case in_metadata i of None \<Rightarrow> Inl (Null_dereference ''instrumentation_metadata'') | Some md \<Rightarrow> Inr md)"

definition instrumentCoroutines :: "jni_env \<Rightarrow> u8 list \<Rightarrow> instrumentation \<Rightarrow> u8 list option result" where
  "instrumentCoroutines jni byte_code i =
     rbind (exception_check ''Failed to create new byte array transformed coroutine class content''
              (jni_NewByteArray jni (length byte_code))) (\<lambda>_.
     rbind (exception_check ''Failed to set byte array region''
              (jni_SetByteArrayRegion jni byte_code)) (\<lambda>array.
     rbind (the_metadata i) (\<lambda>md.
     exception_check ''Failed to intrusment coroutines''
       (jni_CallStaticObjectMethod jni (im_klass md) (im_instrument_coroutines_method md) array None))))"

definition instrumentMethod ::
  "jni_env \<Rightarrow> u8 list \<Rightarrow> string \<Rightarrow> instrumentation \<Rightarrow> u8 list option result" where
  "instrumentMethod jni byte_code method i =
     rbind (exception_check ''Failed to create new byte array transformed traced class content''
              (jni_NewByteArray jni (length byte_code))) (\<lambda>_.
     rbind (exception_check ''Failed to create new string with traced method name''
              (jni_NewStringUTF jni method)) (\<lambda>jMethodName.
     rbind (exception_check ''Failed to set byte array region''
              (jni_SetByteArrayRegion jni byte_code)) (\<lambda>array.
     rbind (the_metadata i) (\<lambda>md.
     exception_check ''Failed to instrument method''
       (jni_CallStaticObjectMethod jni (im_klass md) (im_instrument_method md) array (Some jMethodName))))))"

text \<open>
  Copying a transformed class into memory of the JVM. \<open>GetArrayLength\<close> of a null reference is not
  allowed.
\<close>

definition copy_class :: "jni_env \<Rightarrow> string \<Rightarrow> string \<Rightarrow> u8 list option \<Rightarrow> u8 list result" where
  "copy_class jni allocate_message copy_message transformed =
     (case transformed of
        None \<Rightarrow> Inl (Undefined_behaviour ''GetArrayLength'')
      | Some bytes \<Rightarrow>
          if jvmti_Allocate jni (length bytes) \<noteq> 0 then Inl (Runtime_error allocate_message)
          else exception_check copy_message (jni_GetByteArrayRegion jni bytes))"

definition traced_class :: "jni_env \<Rightarrow> u8 list \<Rightarrow> instrumentation \<Rightarrow> u8 list result" where
  "traced_class jni class_data i =
     (case method_name (in_profiler_options i) of
        None \<Rightarrow> Inl (Null_dereference ''method_name'')
      | Some method \<Rightarrow>
          rbind (instrumentMethod jni class_data method i)
            (copy_class jni ''Failed to allocate JVMTI buffer for tracing class''
               ''Failed to copy transformed traced class content''))"

definition probes_class :: "jni_env \<Rightarrow> u8 list \<Rightarrow> instrumentation \<Rightarrow> u8 list result" where
  "probes_class jni class_data i =
     rbind (instrumentCoroutines jni class_data i)
       (copy_class jni ''Failed to allocate JVMTI buffer for coroutine probes class''
          ''Failed to copy transformed coroutine class content'')"

text \<open>
  The hook. It returns the new bytes of the class, or nothing when it leaves the class as it is. The
  JVM passes a null pointer for a class without a name; comparing it is undefined. Both tests are
  made, so that the second replaces what the first has written.
\<close>

definition instrument ::
  "jni_env \<Rightarrow> string option \<Rightarrow> u8 list \<Rightarrow> instrumentation \<Rightarrow> u8 list option result" where
  "instrument jni name class_data i =
     (case (class_name (in_profiler_options i), name) of
        (None, _) \<Rightarrow> Inl (Null_dereference ''class_name'')
      | (Some _, None) \<Rightarrow> Inl (Undefined_behaviour ''strcmp'')
      | (Some traced, Some name) \<Rightarrow>
          rbind (if traced = name then rbind (traced_class jni class_data i) (\<lambda>bs. Inr (Some bs)) else Inr None)
            (\<lambda>new_class_data.
              if coroutine_probes_name = name
              then rbind (probes_class jni class_data i) (\<lambda>bs. Inr (Some bs))
              else Inr new_class_data))"

section \<open>Lemmas\<close>

text \<open>
  A JVM that answers: arrays and strings are created, memory is allocated, and the bytes that are
  copied in and out are the bytes of the array.
\<close>

definition jvm_answers :: "jni_env \<Rightarrow> bool" where
  "jvm_answers jni \<longleftrightarrow>
     (\<forall>n. jni_NewByteArray jni n = Jni_value ()) \<and> (\<forall>s. jni_NewStringUTF jni s = Jni_value s)
     \<and> (\<forall>bs. jni_SetByteArrayRegion jni bs = Jni_value bs) \<and> (\<forall>bs. jni_GetByteArrayRegion jni bs = Jni_value bs)
     \<and> (\<forall>n. jvmti_Allocate jni n = 0)"

lemma exception_check_value [simp]: "exception_check msg (Jni_value x) = Inr x"
  by (simp add: exception_check_def)

lemma exception_check_eq_Inr: "exception_check msg r = Inr x \<longleftrightarrow> r = Jni_value x"
  by (cases r) (simp_all add: exception_check_def)

lemma instrumentMethod_answers:
  assumes "jvm_answers jni" and "in_metadata i = Some md"
  shows "instrumentMethod jni bs mth i = exception_check ''Failed to instrument method''
    (jni_CallStaticObjectMethod jni (im_klass md) (im_instrument_method md) bs (Some mth))"
  using assms by (simp add: instrumentMethod_def jvm_answers_def the_metadata_def)

lemma instrumentCoroutines_answers:
  assumes "jvm_answers jni" and "in_metadata i = Some md"
  shows "instrumentCoroutines jni bs i = exception_check ''Failed to intrusment coroutines''
    (jni_CallStaticObjectMethod jni (im_klass md) (im_instrument_coroutines_method md) bs None)"
  using assms by (simp add: instrumentCoroutines_def jvm_answers_def the_metadata_def)

lemma copy_class_answers:
  "jvm_answers jni \<Longrightarrow> copy_class jni m1 m2 (Some bs) = Inr bs"
  by (simp add: copy_class_def jvm_answers_def)

section \<open>Properties\<close>

text \<open>
  C34. The hook rewrites the traced class and the class of the coroutine probes and nothing else. A
  class of another name is left alone whatever the JVM answers. If the JVM answers and the Java part
  returns a class, the traced class is replaced by what the Java part makes of its bytes and the
  traced method, and the class of the probes by what the Java part makes of its bytes, which also
  wins when both names are the same. If the Java part throws, the hook throws and replaces nothing.
\<close>

theorem instrument_exact:
  assumes "class_name (in_profiler_options i) = Some c" and "method_name (in_profiler_options i) = Some mth"
    and "in_metadata i = Some md" and "jvm_answers jni"
  shows "(n \<noteq> c \<and> n \<noteq> coroutine_probes_name \<longrightarrow> (\<forall>env. instrument env (Some n) bs i = Inr None))
    \<and> (\<forall>out. n = c \<and> n \<noteq> coroutine_probes_name
         \<and> jni_CallStaticObjectMethod jni (im_klass md) (im_instrument_method md) bs (Some mth) = Jni_value (Some out)
         \<longrightarrow> instrument jni (Some n) bs i = Inr (Some out))
    \<and> (\<forall>out1 out2. n = coroutine_probes_name
         \<and> (n = c \<longrightarrow> jni_CallStaticObjectMethod jni (im_klass md) (im_instrument_method md) bs (Some mth) =
              Jni_value (Some out1))
         \<and> jni_CallStaticObjectMethod jni (im_klass md) (im_instrument_coroutines_method md) bs None =
              Jni_value (Some out2)
         \<longrightarrow> instrument jni (Some n) bs i = Inr (Some out2))
    \<and> (n = c \<and> jni_CallStaticObjectMethod jni (im_klass md) (im_instrument_method md) bs (Some mth) = Jni_exception
         \<longrightarrow> instrument jni (Some n) bs i = Inl (Runtime_error ''Failed to instrument method''))"
  using assms instrumentMethod_answers [OF assms(4,3)] instrumentCoroutines_answers [OF assms(4,3)]
    copy_class_answers [OF assms(4)]
  by (intro conjI allI impI; elim conjE)
    (auto simp: instrument_def traced_class_def probes_class_def exception_check_def)

text \<open>The Java part of the example puts a byte in front of a class.\<close>

definition example_jni :: jni_env where
  "example_jni =
     \<lparr>jni_FindClass = (\<lambda>_. Jni_value 1), jni_NewGlobalRef = (\<lambda>x. x),
      jni_GetStaticMethodID = (\<lambda>_ n _. Jni_value (if n = ''transformKotlinCoroutines'' then 2 else 3)),
      jni_GetMethodID = (\<lambda>_ _ _. Jni_value 4), jni_GetStaticFieldID = (\<lambda>_ _ _. Jni_value 5),
      jni_GetStaticObjectField = (\<lambda>_ _. Jni_value 6), jni_CallVoidMethod = (\<lambda>_ _. Jni_value ()),
      jni_NewByteArray = (\<lambda>_. Jni_value ()), jni_NewStringUTF = Jni_value,
      jni_SetByteArrayRegion = Jni_value, jni_GetByteArrayRegion = Jni_value,
      jni_CallStaticObjectMethod = (\<lambda>_ m bs _. Jni_value (Some ((if m = 2 then 20 else 30) # bs))),
      jvmti_AddToSystemClassLoaderSearch = (\<lambda>_. 0), jvmti_Allocate = (\<lambda>_. 0)\<rparr>"

definition example_instrumentation :: instrumentation where
  "example_instrumentation =
     \<lparr>in_profiler_options =
        \<lparr>class_name = Some ''A'', method_name = Some ''b'', profiling_period = 1000000, threshold = 0,
         jar_path = None, output_path = Some ''/''\<rparr>,
      in_metadata = Some \<lparr>im_klass = 1, im_instrument_coroutines_method = 2, im_instrument_method = 3\<rparr>\<rparr>"

theorem instrument_exact_witness:
  "instrument example_jni (Some ''A'') [7] example_instrumentation = Inr (Some [30, 7])
   \<and> instrument example_jni (Some coroutine_probes_name) [7] example_instrumentation = Inr (Some [20, 7])
   \<and> instrument example_jni (Some ''B'') [7] example_instrumentation = Inr None"
proof -
  have "jvm_answers example_jni" by (simp add: jvm_answers_def example_jni_def)
  note e = instrument_exact [OF _ _ _ this, of example_instrumentation "''A''" "''b''"
      "\<lparr>im_klass = 1, im_instrument_coroutines_method = 2, im_instrument_method = 3\<rparr>" _ "[7]"]
  show ?thesis
    using e [of "''A''"] e [of coroutine_probes_name] e [of "''B''"]
    by (simp add: example_instrumentation_def example_jni_def coroutine_probes_name_def)
qed

end
