(* ===== verification/Vm_Structs.thy ===== *)
theory Vm_Structs
  imports Code_Cache
begin

text \<open>
  \<open>vm/vmStructs.cpp\<close>, the resolution of the JVM's tables in \<open>vm/jvm.cpp\<close> and the constructor of
  \<open>vm/jvmCodeCache.h\<close>: the JVM exports tables that describe its own data structures; the tracer
  finds the tables by symbol name, reads them from memory entry by entry and takes from them the
  offsets with which the code cache is read.
\<close>

section \<open>Symbols\<close>

text \<open>
  The global variables that \<open>init\<close> fills. The address of a symbol is the answer of the symbol
  library, 0 if it does not know the symbol.
\<close>

type_synonym vm_globals = "string \<Rightarrow> u64"

definition vm_symbols :: "string list" where
  "vm_symbols =
     [''gHotSpotVMStructs'', ''gHotSpotVMTypes'', ''gHotSpotVMIntConstants'', ''gHotSpotVMLongConstants'',
      ''gHotSpotVMStructEntryTypeNameOffset'', ''gHotSpotVMStructEntryFieldNameOffset'',
      ''gHotSpotVMStructEntryTypeStringOffset'', ''gHotSpotVMStructEntryIsStaticOffset'',
      ''gHotSpotVMStructEntryOffsetOffset'', ''gHotSpotVMStructEntryAddressOffset'',
      ''gHotSpotVMStructEntryArrayStride'', ''gHotSpotVMTypeEntryTypeNameOffset'',
      ''gHotSpotVMTypeEntrySuperclassNameOffset'', ''gHotSpotVMTypeEntryIsOopTypeOffset'',
      ''gHotSpotVMTypeEntryIsIntegerTypeOffset'', ''gHotSpotVMTypeEntryIsUnsignedOffset'',
      ''gHotSpotVMTypeEntrySizeOffset'', ''gHotSpotVMTypeEntryArrayStride'',
      ''gHotSpotVMIntConstantEntryNameOffset'', ''gHotSpotVMIntConstantEntryValueOffset'',
      ''gHotSpotVMIntConstantEntryArrayStride'', ''gHotSpotVMLongConstantEntryNameOffset'',
      ''gHotSpotVMLongConstantEntryValueOffset'', ''gHotSpotVMLongConstantEntryArrayStride'']"

definition get_symbol :: "(string \<Rightarrow> u64) \<Rightarrow> memory \<Rightarrow> string \<Rightarrow> vm_globals \<Rightarrow> vm_globals result" where
  "get_symbol getVariableAddress m name g =
     (let a = getVariableAddress name in
      if a = 0 then Inl (Runtime_error (name @ '' not found!''))
      else rbind (read_u64 m a) (\<lambda>v. Inr (g(name := v))))"

fun get_symbols :: "(string \<Rightarrow> u64) \<Rightarrow> memory \<Rightarrow> string list \<Rightarrow> vm_globals \<Rightarrow> vm_globals result" where
  "get_symbols getVariableAddress m [] g = Inr g"
| "get_symbols getVariableAddress m (n # ns) g =
     rbind (get_symbol getVariableAddress m n g) (get_symbols getVariableAddress m ns)"

definition init :: "(string \<Rightarrow> u64) \<Rightarrow> memory \<Rightarrow> vm_globals result" where
  "init getVariableAddress m = get_symbols getVariableAddress m vm_symbols (\<lambda>_. 0)"

section \<open>Fields and types\<close>

record vm_field =
  vf_fieldName :: u64
  vf_typeString :: u64
  vf_offset :: u64
  vf_isStatic :: i32

type_synonym vm_fields = "(string \<times> vm_field) list"

text \<open>The map from type names to fields; a null pointer where a type without fields was looked up.\<close>

type_synonym vm_structs = "(string \<times> vm_fields option) list"

record vm_type_entry =
  vt_typeName :: u64
  vt_superclassName :: u64
  vt_isOopType :: i32
  vt_isIntegerType :: i32
  vt_isUnsigned :: i32
  vt_size :: u64
  vt_fields :: "vm_fields option"

text \<open>One entry of the table of fields, or the end of the table.\<close>

definition read_struct_entry ::
  "vm_globals \<Rightarrow> memory \<Rightarrow> u64 \<Rightarrow> (string \<times> string \<times> vm_field) option result option" where
  "read_struct_entry g m entry =
     (case rbind (read_u64 m (entry + g ''gHotSpotVMStructEntryFieldNameOffset'')) (\<lambda>fieldName.
           rbind (read_u64 m (entry + g ''gHotSpotVMStructEntryTypeNameOffset'')) (\<lambda>typeName.
           Inr (fieldName, typeName))) of
        Inl e \<Rightarrow> Some (Inl e)
      | Inr (fieldName, typeName) \<Rightarrow>
          if typeName = 0 \<or> fieldName = 0 then Some (Inr None)
          else Option.bind (read_cstr m typeName) (\<lambda>r.
            case rbind r (\<lambda>typeNameStr.
                 rbind (read_i32 m (entry + g ''gHotSpotVMStructEntryIsStaticOffset'')) (\<lambda>isStatic.
                 rbind (read_u64 m (entry + g ''gHotSpotVMStructEntryOffsetOffset'')) (\<lambda>offset.
                 rbind (read_u64 m (entry + g ''gHotSpotVMStructEntryAddressOffset'')) (\<lambda>address.
                 rbind (read_u64 m (entry + g ''gHotSpotVMStructEntryTypeStringOffset'')) (\<lambda>typeString.
                 Inr (typeNameStr,
                      \<lparr>vf_fieldName = fieldName, vf_typeString = typeString,
                       vf_offset = (if isStatic \<noteq> 0 then address else offset),
                       vf_isStatic = isStatic\<rparr>)))))) of
              Inl e \<Rightarrow> Some (Inl e)
            | Inr (typeNameStr, field) \<Rightarrow>
                Option.bind (read_cstr m fieldName) (\<lambda>r.
                  Some (rbind r (\<lambda>fieldNameStr. Inr (Some (typeNameStr, fieldNameStr, field)))))))"

text \<open>
  A new type gets a new map of fields, and \<open>insert\<close> keeps a field that is there. (While the table
  of fields is read, no type has a null pointer.)
\<close>

definition add_field :: "string \<times> string \<times> vm_field \<Rightarrow> vm_structs \<Rightarrow> vm_structs" where
  "add_field e structs =
     (let (typeName, fieldName, field) = e;
          fields = (case map_of structs typeName of Some (Some fs) \<Rightarrow> fs | _ \<Rightarrow> []);
          fields = (if map_of fields fieldName = None then AList.update fieldName field fields else fields)
      in AList.update typeName (Some fields) structs)"

partial_function (option) resolveVMStructs_loop ::
  "vm_globals \<Rightarrow> memory \<Rightarrow> u64 \<Rightarrow> vm_structs \<Rightarrow> vm_structs result option" where
  "resolveVMStructs_loop g m entry structs =
     Option.bind (read_struct_entry g m entry) (\<lambda>r.
       case r of
         Inl e \<Rightarrow> Some (Inl e)
       | Inr None \<Rightarrow> Some (Inr structs)
       | Inr (Some e) \<Rightarrow>
           resolveVMStructs_loop g m (entry + g ''gHotSpotVMStructEntryArrayStride'')
             (add_field e structs))"

declare resolveVMStructs_loop.simps [code]

definition resolveVMStructs :: "vm_globals \<Rightarrow> memory \<Rightarrow> vm_structs result option" where
  "resolveVMStructs g m = resolveVMStructs_loop g m (g ''gHotSpotVMStructs'') []"

definition read_type_entry ::
  "vm_globals \<Rightarrow> memory \<Rightarrow> u64 \<Rightarrow> (string \<times> vm_type_entry) option result option" where
  "read_type_entry g m entry =
     (case read_u64 m (entry + g ''gHotSpotVMTypeEntryTypeNameOffset'') of
        Inl e \<Rightarrow> Some (Inl e)
      | Inr typeName \<Rightarrow>
          if typeName = 0 then Some (Inr None)
          else
            (case rbind (read_u64 m (entry + g ''gHotSpotVMTypeEntrySuperclassNameOffset'')) (\<lambda>superclassName.
                  rbind (read_i32 m (entry + g ''gHotSpotVMTypeEntryIsOopTypeOffset'')) (\<lambda>isOopType.
                  rbind (read_i32 m (entry + g ''gHotSpotVMTypeEntryIsIntegerTypeOffset'')) (\<lambda>isIntegerType.
                  rbind (read_i32 m (entry + g ''gHotSpotVMTypeEntryIsUnsignedOffset'')) (\<lambda>isUnsigned.
                  rbind (read_u64 m (entry + g ''gHotSpotVMTypeEntrySizeOffset'')) (\<lambda>size.
                  Inr \<lparr>vt_typeName = typeName, vt_superclassName = superclassName,
                       vt_isOopType = isOopType, vt_isIntegerType = isIntegerType,
                       vt_isUnsigned = isUnsigned, vt_size = size, vt_fields = None\<rparr>))))) of
               Inl e \<Rightarrow> Some (Inl e)
             | Inr t \<Rightarrow>
                 Option.bind (read_cstr m typeName) (\<lambda>r. Some (rbind r (\<lambda>name. Inr (Some (name, t)))))))"

text \<open>\<open>vm_structs_[name]\<close> creates a null entry for a type without fields; the later type wins.\<close>

definition add_type ::
  "string \<times> vm_type_entry \<Rightarrow> vm_structs \<times> (string \<times> vm_type_entry) list \<Rightarrow>
     vm_structs \<times> (string \<times> vm_type_entry) list" where
  "add_type e st =
     (let (name, t) = e; (structs, types) = st;
          structs = (if map_of structs name = None then AList.update name None structs else structs)
      in (structs, AList.update name (t\<lparr>vt_fields := the (map_of structs name)\<rparr>) types))"

partial_function (option) resolveVMTypes_loop ::
  "vm_globals \<Rightarrow> memory \<Rightarrow> u64 \<Rightarrow> vm_structs \<times> (string \<times> vm_type_entry) list \<Rightarrow>
     (vm_structs \<times> (string \<times> vm_type_entry) list) result option" where
  "resolveVMTypes_loop g m entry st =
     Option.bind (read_type_entry g m entry) (\<lambda>r.
       case r of
         Inl e \<Rightarrow> Some (Inl e)
       | Inr None \<Rightarrow> Some (Inr st)
       | Inr (Some e) \<Rightarrow>
           resolveVMTypes_loop g m (entry + g ''gHotSpotVMTypeEntryArrayStride'') (add_type e st))"

declare resolveVMTypes_loop.simps [code]

definition resolveVMTypes ::
  "vm_globals \<Rightarrow> memory \<Rightarrow> vm_structs \<Rightarrow> (vm_structs \<times> (string \<times> vm_type_entry) list) result option" where
  "resolveVMTypes g m structs = resolveVMTypes_loop g m (g ''gHotSpotVMTypes'') (structs, [])"

section \<open>The constructor of the code cache\<close>

definition getIfContains :: "(string \<times> 'v) list \<Rightarrow> string \<Rightarrow> 'v result" where
  "getIfContains al key =
     (case map_of al key of
        Some v \<Rightarrow> Inr v
      | None \<Rightarrow> Inl (Runtime_error (key @ '' not found in vm structs'')))"

definition field_offset :: "vm_type_entry \<Rightarrow> string \<Rightarrow> u64 result" where
  "field_offset t name =
     (case vt_fields t of
        None \<Rightarrow> Inl (Null_dereference ''fields'')
      | Some fs \<Rightarrow> rbind (getIfContains fs name) (\<lambda>f. Inr (vf_offset f)))"

definition compiled_method_field :: "(string \<times> vm_type_entry) list \<Rightarrow> u64 result" where
  "compiled_method_field types =
     (if map_of types ''CompiledMethod'' \<noteq> None
      then rbind (getIfContains types ''CompiledMethod'') (\<lambda>t. field_offset t ''_method'')
      else rbind (getIfContains types ''nmethod'') (\<lambda>t. field_offset t ''_method''))"

definition JVMCodeCache :: "memory \<Rightarrow> (string \<times> vm_type_entry) list \<Rightarrow> code_cache result" where
  "JVMCodeCache m types =
     rbind (compiled_method_field types) (\<lambda>compiledMethod.
     rbind (getIfContains types ''Method'') (\<lambda>methodType.
     rbind (field_offset methodType ''_constMethod'') (\<lambda>constMethod.
     rbind (getIfContains types ''ConstMethod'') (\<lambda>constMethodType.
     rbind (field_offset constMethodType ''_constants'') (\<lambda>constants.
     rbind (field_offset constMethodType ''_method_idnum'') (\<lambda>methodIdNum.
     rbind (getIfContains types ''ConstantPool'') (\<lambda>constantPoolType.
     rbind (field_offset constantPoolType ''_pool_holder'') (\<lambda>poolHolder.
     rbind (getIfContains types ''InstanceKlass'') (\<lambda>instanceKlassType.
     rbind (field_offset instanceKlassType ''_methods_jmethod_ids'') (\<lambda>jmethodIds.
     rbind (getIfContains types ''GrowableArrayBase'') (\<lambda>growableArrayBaseType.
     rbind (getIfContains types ''CodeBlob'') (\<lambda>codeBlobType.
     rbind (field_offset codeBlobType ''_name'') (\<lambda>codeBlobName.
     rbind (getIfContains types ''GrowableArray<int>'') (\<lambda>growableArrayType.
     rbind (getIfContains types ''CodeHeap'') (\<lambda>codeHeapType.
     rbind (field_offset codeHeapType ''_memory'') (\<lambda>memory0.
     rbind (field_offset codeHeapType ''_segmap'') (\<lambda>segmap.
     rbind (field_offset codeHeapType ''_log2_segment_size'') (\<lambda>log2SegmentSize.
     rbind (getIfContains types ''VirtualSpace'') (\<lambda>virtualSpaceType.
     rbind (field_offset virtualSpaceType ''_low'') (\<lambda>low.
     rbind (field_offset virtualSpaceType ''_high'') (\<lambda>high.
     rbind (getIfContains types ''CodeCache'') (\<lambda>codeCacheType.
     rbind (field_offset codeCacheType ''_heaps'') (\<lambda>heaps_offset.
     rbind (field_offset growableArrayType ''_data'') (\<lambda>data_offset.
     rbind (read_u64 m heaps_offset) (\<lambda>heaps.
     rbind (read_u64 m (heaps + data_offset)) (\<lambda>data.
     rbind (field_offset growableArrayBaseType ''_len'') (\<lambda>len_offset.
     rbind (getIfContains types ''HeapBlock'') (\<lambda>heapBlockType.
     Inr \<lparr>compiledMethod_offset = compiledMethod, constMethod_offset = constMethod,
          constants_offset = constants, methodIdNum_offset = methodIdNum,
          poolHolder_offset = poolHolder, jmethodIds_offset = jmethodIds,
          codeBlobName_offset = codeBlobName, memory_offset = memory0, segmap_offset = segmap,
          log2SegmentSize_offset = log2SegmentSize, low_offset = low, high_offset = high,
          heaps_data = data, heaps_length = heaps + len_offset,
          heap_block_type_size = vt_size heapBlockType\<rparr>))))))))))))))))))))))))))))"

text \<open>The last four calls of the constructor of \<open>JVM\<close>.\<close>

definition jvm_code_cache :: "(string \<Rightarrow> u64) \<Rightarrow> memory \<Rightarrow> code_cache result option" where
  "jvm_code_cache getVariableAddress m =
     (case init getVariableAddress m of
        Inl e \<Rightarrow> Some (Inl e)
      | Inr g \<Rightarrow>
          Option.bind (resolveVMStructs g m) (\<lambda>r.
            case r of
              Inl e \<Rightarrow> Some (Inl e)
            | Inr structs \<Rightarrow>
                Option.bind (resolveVMTypes g m structs) (\<lambda>r.
                  Some (rbind r (\<lambda>(_, types). JVMCodeCache m types)))))"

section \<open>Lemmas\<close>

text \<open>The symbols.\<close>

lemma get_symbols_ok:
  assumes "\<forall>n\<in>set ns. addr n \<noteq> 0 \<and> (\<exists>v. read_u64 m (addr n) = Inr v)" and "distinct ns"
  shows "\<exists>g'. get_symbols addr m ns g = Inr g'
    \<and> (\<forall>n. n \<in> set ns \<longrightarrow> read_u64 m (addr n) = Inr (g' n)) \<and> (\<forall>n. n \<notin> set ns \<longrightarrow> g' n = g n)"
  using assms
proof (induction ns arbitrary: g)
  case Nil
  then show ?case by simp
next
  case (Cons n ns)
  then obtain v where v: "addr n \<noteq> 0" "read_u64 m (addr n) = Inr v" by auto
  have "\<forall>n\<in>set ns. addr n \<noteq> 0 \<and> (\<exists>v. read_u64 m (addr n) = Inr v)" and "distinct ns"
    using Cons.prems by simp_all
  from Cons.IH [OF this, of "g(n := v)"] obtain g'
    where "get_symbols addr m ns (g(n := v)) = Inr g'"
      "\<forall>k. k \<in> set ns \<longrightarrow> read_u64 m (addr k) = Inr (g' k)" "\<forall>k. k \<notin> set ns \<longrightarrow> g' k = (g(n := v)) k"
    by blast
  with v Cons.prems(2) show ?case by (auto simp: get_symbol_def Let_def)
qed

lemma get_symbols_missing:
  assumes "\<forall>n\<in>set ns. \<exists>v. read_u64 m (addr n) = Inr v" and "addr n = 0"
  shows "get_symbols addr m (ns @ n # ns') g =
    Inl (Runtime_error (hd (filter (\<lambda>n. addr n = 0) (ns @ [n])) @ '' not found!''))"
  using assms(1)
proof (induction ns arbitrary: g)
  case Nil
  then show ?case using assms(2) by (simp add: get_symbol_def)
next
  case (Cons k ns)
  then show ?case by (auto simp: get_symbol_def Let_def)
qed

text \<open>A table in memory, and what reading it gives.\<close>

fun struct_table :: "vm_globals \<Rightarrow> memory \<Rightarrow> u64 \<Rightarrow> (string \<times> string \<times> vm_field) list \<Rightarrow> bool" where
  "struct_table g m a [] \<longleftrightarrow> read_struct_entry g m a = Some (Inr None)"
| "struct_table g m a (e # es) \<longleftrightarrow>
     read_struct_entry g m a = Some (Inr (Some e))
     \<and> struct_table g m (a + g ''gHotSpotVMStructEntryArrayStride'') es"

fun type_table :: "vm_globals \<Rightarrow> memory \<Rightarrow> u64 \<Rightarrow> (string \<times> vm_type_entry) list \<Rightarrow> bool" where
  "type_table g m a [] \<longleftrightarrow> read_type_entry g m a = Some (Inr None)"
| "type_table g m a (e # es) \<longleftrightarrow>
     read_type_entry g m a = Some (Inr (Some e))
     \<and> type_table g m (a + g ''gHotSpotVMTypeEntryArrayStride'') es"

lemma resolveVMStructs_loop_eq:
  "struct_table g m a es \<Longrightarrow> resolveVMStructs_loop g m a structs = Some (Inr (fold add_field es structs))"
  by (induction es arbitrary: a structs) (subst resolveVMStructs_loop.simps, simp)+

lemma resolveVMTypes_loop_eq:
  "type_table g m a es \<Longrightarrow> resolveVMTypes_loop g m a st = Some (Inr (fold add_type es st))"
  by (induction es arbitrary: a st) (subst resolveVMTypes_loop.simps, simp)+

text \<open>The first entry for a field wins.\<close>

definition lookup_field :: "vm_structs \<Rightarrow> string \<Rightarrow> string \<Rightarrow> vm_field option" where
  "lookup_field structs t f =
     (case map_of structs t of Some (Some fs) \<Rightarrow> map_of fs f | _ \<Rightarrow> None)"

lemma lookup_add_field:
  "lookup_field (add_field (t, f, x) structs) t' f' =
     (if t' = t \<and> f' = f \<and> lookup_field structs t f = None then Some x else lookup_field structs t' f')"
  by (auto simp: lookup_field_def add_field_def Let_def split: option.splits)

lemma lookup_fold_add_field:
  "lookup_field (fold add_field es structs) t f =
     (case lookup_field structs t f of
        Some x \<Rightarrow> Some x
      | None \<Rightarrow> map_of (map (\<lambda>(t, f, x). ((t, f), x)) es) (t, f))"
proof (induction es arbitrary: structs)
  case Nil
  show ?case by (simp split: option.splits)
next
  case (Cons e es)
  obtain t' f' x where e: "e = (t', f', x)" by (cases e) auto
  show ?case
    unfolding fold_simps Cons.IH e lookup_add_field by (auto split: option.splits)
qed

text \<open>The last entry for a type wins; its fields are those of the table of fields.\<close>

definition fields_of :: "vm_structs \<Rightarrow> string \<Rightarrow> vm_fields option" where
  "fields_of structs t = (case map_of structs t of Some x \<Rightarrow> x | None \<Rightarrow> None)"

lemma fields_of_add_type: "fields_of (fst (add_type e st)) t = fields_of (fst st) t"
  by (auto simp: fields_of_def add_type_def Let_def split_def split: option.splits)

lemma types_add_type:
  "map_of (snd (add_type (n, x) st)) t =
     (if t = n then Some (x\<lparr>vt_fields := fields_of (fst st) n\<rparr>) else map_of (snd st) t)"
  by (auto simp: fields_of_def add_type_def Let_def split_def split: option.splits)

lemma types_fold_add_type:
  "map_of (snd (fold add_type es st)) t =
     (case map_of (rev es) t of
        Some x \<Rightarrow> Some (x\<lparr>vt_fields := fields_of (fst st) t\<rparr>)
      | None \<Rightarrow> map_of (snd st) t)"
proof (induction es arbitrary: st)
  case Nil
  show ?case by simp
next
  case (Cons e es)
  obtain n x where e: "e = (n, x)" by (cases e) auto
  show ?case
    unfolding fold_simps Cons.IH fields_of_add_type by (auto simp: e types_add_type map_add_def split: option.splits)
qed

lemma lookup_fields_of:
  "lookup_field structs t f = (case fields_of structs t of Some fs \<Rightarrow> map_of fs f | None \<Rightarrow> None)"
  by (simp add: lookup_field_def fields_of_def split: option.splits)

text \<open>The offset the tables give for a field.\<close>

definition table_offset :: "(string \<times> string \<times> vm_field) list \<Rightarrow> string \<Rightarrow> string \<Rightarrow> u64 option" where
  "table_offset es t f = map_option vf_offset (map_of (map (\<lambda>(t, f, x). ((t, f), x)) es) (t, f))"

lemma field_offset_table:
  assumes "getIfContains types t = Inr x" and "field_offset x f = Inr off"
    and "types = snd (fold add_type ts (fold add_field es [], []))"
  shows "table_offset es t f = Some off"
proof -
  let ?s = "fold add_field es []"
  have "map_of types t = Some x"
    using assms(1) by (auto simp: getIfContains_def split: option.splits)
  then have "vt_fields x = fields_of ?s t"
    unfolding assms(3) types_fold_add_type by (auto split: option.splits)
  then obtain fs fld where "fields_of ?s t = Some fs" "map_of fs f = Some fld" "off = vf_offset fld"
    using assms(2) by (auto simp: field_offset_def getIfContains_def rbind_eq_Inr split: option.splits)
  then have "lookup_field ?s t f = Some fld" by (simp add: lookup_fields_of)
  then show ?thesis
    unfolding lookup_fold_add_field using \<open>off = vf_offset fld\<close>
    by (auto simp: table_offset_def lookup_field_def split: option.splits)
qed

text \<open>Conversely, a type and a field that the tables list are found.\<close>

lemma type_found:
  assumes "map_of (rev ts) t = Some e" and "types = snd (fold add_type ts (fold add_field es [], []))"
  shows "\<exists>x. getIfContains types t = Inr x \<and> vt_size x = vt_size e
    \<and> (\<forall>f off. table_offset es t f = Some off \<longrightarrow> field_offset x f = Inr off)"
proof -
  let ?s = "fold add_field es []"
  let ?x = "e\<lparr>vt_fields := fields_of ?s t\<rparr>"
  have "getIfContains types t = Inr ?x"
    using assms(1) unfolding assms(2) getIfContains_def types_fold_add_type by simp
  moreover have "field_offset ?x f = Inr off" if o: "table_offset es t f = Some off" for f off
  proof -
    obtain fld where l: "map_of (map (\<lambda>(t, f, x). ((t, f), x)) es) (t, f) = Some fld" "off = vf_offset fld"
      using o unfolding table_offset_def map_option_eq_Some by blast
    have "lookup_field ?s t f = Some fld"
      unfolding lookup_fold_add_field using l(1) by (simp add: lookup_field_def)
    then show ?thesis
      using l(2) by (auto simp: lookup_fields_of field_offset_def getIfContains_def split: option.splits)
  qed
  ultimately show ?thesis by (intro exI [of _ ?x]) simp
qed

definition type_offset :: "(string \<times> vm_type_entry) list \<Rightarrow> string \<Rightarrow> string \<Rightarrow> u64 result" where
  "type_offset types t f = rbind (getIfContains types t) (\<lambda>x. field_offset x f)"

lemma type_offset_table:
  assumes "type_offset types t f = Inr off" and "types = snd (fold add_type ts (fold add_field es [], []))"
  shows "table_offset es t f = Some off"
  using assms field_offset_table by (auto simp: type_offset_def rbind_eq_Inr)

lemma JVMCodeCache_offsets:
  assumes "JVMCodeCache m types = Inr cc"
  shows "type_offset types (if map_of types ''CompiledMethod'' \<noteq> None then ''CompiledMethod'' else ''nmethod'')
      ''_method'' = Inr (compiledMethod_offset cc)"
    and "type_offset types ''Method'' ''_constMethod'' = Inr (constMethod_offset cc)"
    and "type_offset types ''ConstMethod'' ''_constants'' = Inr (constants_offset cc)"
    and "type_offset types ''ConstMethod'' ''_method_idnum'' = Inr (methodIdNum_offset cc)"
    and "type_offset types ''ConstantPool'' ''_pool_holder'' = Inr (poolHolder_offset cc)"
    and "type_offset types ''InstanceKlass'' ''_methods_jmethod_ids'' = Inr (jmethodIds_offset cc)"
    and "type_offset types ''CodeBlob'' ''_name'' = Inr (codeBlobName_offset cc)"
    and "type_offset types ''CodeHeap'' ''_memory'' = Inr (memory_offset cc)"
    and "type_offset types ''CodeHeap'' ''_segmap'' = Inr (segmap_offset cc)"
    and "type_offset types ''CodeHeap'' ''_log2_segment_size'' = Inr (log2SegmentSize_offset cc)"
    and "type_offset types ''VirtualSpace'' ''_low'' = Inr (low_offset cc)"
    and "type_offset types ''VirtualSpace'' ''_high'' = Inr (high_offset cc)"
  using assms
  by (auto simp: JVMCodeCache_def rbind_eq_Inr type_offset_def compiled_method_field_def split: if_splits)

lemma jvm_code_cache_eq:
  assumes "init addr m = Inr g" and "struct_table g m (g ''gHotSpotVMStructs'') es"
    and "type_table g m (g ''gHotSpotVMTypes'') ts"
  shows "jvm_code_cache addr m =
    Some (JVMCodeCache m (snd (fold add_type ts (fold add_field es [], []))))"
  using assms
  by (simp add: jvm_code_cache_def resolveVMStructs_def resolveVMTypes_def resolveVMStructs_loop_eq
      resolveVMTypes_loop_eq split_def)

section \<open>Resolving the symbols\<close>

text \<open>
  The symbols are all resolved or the first missing one is reported: if the symbol library
  knows every symbol and they can be read, \<open>init\<close> sets every variable to the value at its address;
  if it does not know some symbol and everything before it can be read, \<open>init\<close> throws with the
  name of the first unknown symbol.
\<close>

lemma init_resolves_symbols:
  assumes "\<forall>n\<in>set vm_symbols. addr n \<noteq> 0 \<longrightarrow> (\<exists>v. read_u64 m (addr n) = Inr v)"
  shows "if \<forall>n\<in>set vm_symbols. addr n \<noteq> 0
    then \<exists>g. init addr m = Inr g \<and> (\<forall>n\<in>set vm_symbols. read_u64 m (addr n) = Inr (g n))
    else init addr m =
      Inl (Runtime_error (hd (filter (\<lambda>n. addr n = 0) vm_symbols) @ '' not found!''))"
proof (cases "\<forall>n\<in>set vm_symbols. addr n \<noteq> 0")
  case True
  have "distinct vm_symbols" by (simp add: vm_symbols_def)
  with get_symbols_ok [of vm_symbols addr m "\<lambda>_. 0"] True assms show ?thesis
    by (auto simp: init_def)
next
  case False
  then obtain n where "n \<in> set vm_symbols" "addr n = 0" by blast
  then obtain k ks where k: "filter (\<lambda>n. addr n = 0) vm_symbols = k # ks"
    by (cases "filter (\<lambda>n. addr n = 0) vm_symbols") (auto simp: filter_empty_conv)
  then obtain us vs where s: "vm_symbols = us @ k # vs" "\<forall>u\<in>set us. addr u \<noteq> 0" "addr k = 0"
    by (auto simp: filter_eq_Cons_iff)
  have "\<forall>u\<in>set us. \<exists>v. read_u64 m (addr u) = Inr v"
  proof
    fix u
    assume u: "u \<in> set us"
    then have "u \<in> set vm_symbols" by (simp add: s(1))
    with assms s(2) u show "\<exists>v. read_u64 m (addr u) = Inr v" by blast
  qed
  from get_symbols_missing [OF this s(3), of vs "\<lambda>_. 0"] s k False show ?thesis
    by (simp add: init_def)
qed

end
