(* ===== verification/Agent.thy ===== *)
theory Agent
  imports Instrumentation Vm_Structs Profiler_Invariant
begin

text \<open>
  \<open>agent.cpp\<close>, \<open>agent.hpp\<close>, \<open>jni/jni_instrumentator.cpp\<close> and the rest of \<open>vm/jvm.cpp\<close>: the agent
  that the JVM loads. It parses its options, creates the JVM wrapper, the profiler and the
  instrumentation, and dispatches the callbacks of JVMTI and the native methods of the Java part to
  them.
\<close>

section \<open>The JVM wrapper\<close>

datatype jvmti_event =
    Garbage_collection_finish | Garbage_collection_start | Vm_start | Vm_init | Compiled_method_load
  | Thread_start_event | Class_load | Class_prepare | Class_file_load_hook

text \<open>The events the constructor enables and the callbacks that \<open>Agent_OnLoad\<close> sets.\<close>

definition enabled_events :: "jvmti_event list" where
  "enabled_events =
     [Garbage_collection_finish, Garbage_collection_start, Vm_start, Vm_init, Compiled_method_load,
      Thread_start_event, Class_load, Class_prepare, Class_file_load_hook]"

definition agent_callbacks :: "jvmti_event list" where
  "agent_callbacks =
     [Vm_start, Thread_start_event, Class_prepare, Class_load, Class_file_load_hook, Vm_init,
      Garbage_collection_start, Garbage_collection_finish]"

text \<open>
  What the constructor of \<open>JVM\<close> meets: the answer of \<open>AddCapabilities\<close>, the symbol library and the
  memory. The registry of threads starts empty.
\<close>

record jvm_env =
  je_AddCapabilities :: i32
  je_getVariableAddress :: "string \<Rightarrow> u64"
  je_memory :: memory

definition JVM :: "jvm_env \<Rightarrow> code_cache result option" where
  "JVM je =
     (if je_AddCapabilities je \<noteq> 0 then Some (Inl (Runtime_error ''Error adding capabilities''))
      else jvm_code_cache (je_getVariableAddress je) (je_memory je))"

text \<open>
  Requesting the methods of the loaded classes makes the JVM allocate their identifiers. The calls
  that are made, in order; \<open>methods\<close> says for which classes \<open>GetClassMethods\<close> succeeds. When the
  classes cannot be listed, the loop is empty and a pointer that was never set is deallocated.
\<close>

datatype jvmti_call = Get_class_methods jref | Deallocate_methods jref | Deallocate_classes

definition loadMethodsId :: "(jref \<Rightarrow> bool) \<Rightarrow> jref \<Rightarrow> jvmti_call list" where
  "loadMethodsId methods klass =
     Get_class_methods klass # (if methods klass then [Deallocate_methods klass] else [])"

definition initializeMethodIds :: "(jref \<Rightarrow> bool) \<Rightarrow> jref list option \<Rightarrow> jvmti_call list result" where
  "initializeMethodIds methods classes =
     (case classes of
        None \<Rightarrow> Inl (Undefined_behaviour ''Deallocate'')
      | Some ks \<Rightarrow> Inr (concat (map (loadMethodsId methods) ks) @ [Deallocate_classes]))"

section \<open>The agent\<close>

text \<open>
  The profiler is an object in a store: the agent and the static variable \<open>Profiler::instance_\<close> both
  own a pointer to it. An empty cell below the next address is an object that was deleted.
\<close>

record agent =
  ag_code_cache :: code_cache
  ag_profiler :: addr
  ag_instrumentation :: instrumentation

record tracer =
  tr_attached :: bool
  tr_agent :: "agent option"
  tr_instance :: ptr
  tr_profilers :: "profiler heap"

definition tracer_initial :: tracer where
  "tracer_initial = \<lparr>tr_attached = False, tr_agent = None, tr_instance = None, tr_profilers = heap_empty\<rparr>"

definition profiler_create_object ::
  "profiler_options \<Rightarrow> tracer \<Rightarrow> (addr \<times> tracer) result" where
  "profiler_create_object po s =
     (case tr_instance s of
        Some a \<Rightarrow> Inr (a, s)
      | None \<Rightarrow>
          (case output_path po of
             None \<Rightarrow> Inl (Null_dereference ''output_path'')
           | Some out \<Rightarrow>
               let (a, h) = heap_alloc (profiler_new jvm_threads_new (threshold po) out (profiling_period po))
                              (tr_profilers s)
               in Inr (a, s\<lparr>tr_instance := Some a, tr_profilers := h\<rparr>)))"

text \<open>
  The constructor of \<open>Agent\<close> makes the JVM wrapper, then the profiler, then the instrumentation. The
  destructor stops the profiler; then the member \<open>profiler_\<close> deletes it.
\<close>

definition agent_create :: "jvm_env \<Rightarrow> profiler_options \<Rightarrow> tracer \<Rightarrow> (agent \<times> tracer) result option" where
  "agent_create je po s =
     Option.bind (JVM je) (\<lambda>r. Some (
       case r of
         Inl e \<Rightarrow> Inl e
       | Inr cc \<Rightarrow>
           (case profiler_create_object po s of
              Inl e \<Rightarrow> Inl e
            | Inr (a, s') \<Rightarrow>
                Inr (\<lparr>ag_code_cache = cc, ag_profiler = a, ag_instrumentation = instrumentation_new po\<rparr>, s'))))"

definition agent_destroy :: "agent \<Rightarrow> profiler heap \<Rightarrow> profiler heap" where
  "agent_destroy ag h =
     (let h = heap_update (ag_profiler ag) stop h
      in h\<lparr>cells := (cells h)(ag_profiler ag := None)\<rparr>)"

text \<open>
  \<open>Agent_OnLoad\<close>. The flag is set first and stays set when an exception leaves the function;
  \<^const>\<open>None\<close> means that reading the tables of the JVM does not end.
\<close>

definition Agent_OnLoad ::
  "string \<Rightarrow> jvm_env \<Rightarrow> string option \<Rightarrow> tracer \<Rightarrow> (i32 result \<times> tracer) option" where
  "Agent_OnLoad cwd je options s =
     (if tr_attached s then Some (Inr 0, s)
      else
        let s = s\<lparr>tr_attached := True\<rparr> in
        if options = None \<or> options = Some [] then
          Some (Inl (Runtime_error ''method name required for interception!''), s)
        else
          (case parseProfilerOptions cwd (the options) of
             Inl e \<Rightarrow> Some (Inl e, s)
           | Inr po \<Rightarrow>
               Option.bind (agent_create je po s) (\<lambda>r.
                 Some (case r of
                         Inl e \<Rightarrow> (Inl e, s)
                       | Inr (ag, s') \<Rightarrow> (Inr 0, s'\<lparr>tr_agent := Some ag\<rparr>)))))"

text \<open>
  \<open>Agent_OnUnload\<close> destroys the agent: the profiler is stopped, then the agent's pointer deletes it.
  The static pointer is not changed.
\<close>

definition Agent_OnUnload :: "tracer \<Rightarrow> tracer" where
  "Agent_OnUnload s =
     (case tr_agent s of
        None \<Rightarrow> s
      | Some ag \<Rightarrow> s\<lparr>tr_agent := None, tr_profilers := agent_destroy ag (tr_profilers s)\<rparr>)"

section \<open>Callbacks\<close>

text \<open>A method of the profiler, called through a pointer.\<close>

definition on_profiler :: "addr \<Rightarrow> (profiler, unit) action \<Rightarrow> (tracer, unit) action" where
  "on_profiler a f s =
     (case cells (tr_profilers s) a of
        None \<Rightarrow> (Inl (Undefined_behaviour ''profiler''), s)
      | Some pf \<Rightarrow>
          (case f pf of
             (r, pf') \<Rightarrow> (r, s\<lparr>tr_profilers := heap_update a (\<lambda>_. pf') (tr_profilers s)\<rparr>)))"

text \<open>The callbacks that do nothing when there is no agent.\<close>

definition guarded :: "(profiler, unit) action \<Rightarrow> (tracer, unit) action" where
  "guarded f s = (case tr_agent s of None \<Rightarrow> (Inr (), s) | Some ag \<Rightarrow> on_profiler (ag_profiler ag) f s)"

definition GarbageCollectionStart :: "trace_time \<Rightarrow> (tracer, unit) action" where
  "GarbageCollectionStart now = guarded (gcStart now)"

definition GarbageCollectionFinish :: "trace_time \<Rightarrow> (tracer, unit) action" where
  "GarbageCollectionFinish now = guarded (gcFinish now)"

text \<open>
  The native methods of the Java part. The identifier \<open>-1\<close> stands for code outside of coroutines and
  is replaced by the hash of the thread.
\<close>

definition jni_coroutine_id :: "hash_env \<Rightarrow> pthread_t \<Rightarrow> jlong \<Rightarrow> jlong" where
  "jni_coroutine_id he self c = (if c = -1 then hash_thread_id he self else c)"

definition Java_coroutineCreated ::
  "hash_env \<Rightarrow> pthread_t \<Rightarrow> trace_time \<Rightarrow> trace_time \<Rightarrow> jlong \<Rightarrow> (tracer, unit) action" where
  "Java_coroutineCreated he self t1 t2 c =
     guarded (coroutineCreated self t1 t2 (jni_coroutine_id he self c))"

definition Java_coroutineResumed ::
  "hash_env \<Rightarrow> pthread_t \<Rightarrow> usage_reading \<Rightarrow> trace_time \<Rightarrow> trace_time \<Rightarrow> jlong \<Rightarrow> (tracer, unit) action" where
  "Java_coroutineResumed he self r now now' c =
     guarded (coroutineResumed self r now now' (jni_coroutine_id he self c))"

definition Java_coroutineCompleted ::
  "hash_env \<Rightarrow> pthread_t \<Rightarrow> trace_time \<Rightarrow> trace_time \<Rightarrow> usage_reading \<Rightarrow> jlong \<Rightarrow> (tracer, unit) action" where
  "Java_coroutineCompleted he self finish now r c =
     guarded (coroutineCompleted self finish now r (jni_coroutine_id he self c))"

definition Java_coroutineSuspend ::
  "hash_env \<Rightarrow> method_env \<Rightarrow> pthread_t \<Rightarrow> trace_time \<Rightarrow> usage_reading \<Rightarrow> jmethodID list option \<Rightarrow>
     trace_time \<Rightarrow> jlong \<Rightarrow> (tracer, unit) action" where
  "Java_coroutineSuspend he env self now r frames start c =
     guarded (coroutineSuspended env self now r frames start (jni_coroutine_id he self c))"

definition Java_traceStart ::
  "hash_env \<Rightarrow> pthread_t \<Rightarrow> trace_time \<Rightarrow> trace_time \<Rightarrow> trace_time \<Rightarrow> jlong \<Rightarrow> (tracer, unit) action" where
  "Java_traceStart he self t1 t2 start c =
     guarded (traceStart he self t1 t2 start (jni_coroutine_id he self c))"

definition Java_traceEnd ::
  "hash_env \<Rightarrow> pthread_t \<Rightarrow> trace_time \<Rightarrow> usage_reading \<Rightarrow> trace_time \<Rightarrow> jlong \<Rightarrow> (tracer, unit) action" where
  "Java_traceEnd he self now r finish c =
     guarded (traceEnd he self now r finish (jni_coroutine_id he self c))"

text \<open>The callbacks that use the agent without looking.\<close>

definition the_agent :: "tracer \<Rightarrow> agent result" where
  "the_agent s = (case tr_agent s of None \<Rightarrow> Inl (Null_dereference ''agent'') | Some ag \<Rightarrow> Inr ag)"

definition ClassFileLoadHook :: "jni_env \<Rightarrow> string option \<Rightarrow> u8 list \<Rightarrow> tracer \<Rightarrow> u8 list option result" where
  "ClassFileLoadHook jni name class_data s =
     rbind (the_agent s) (\<lambda>ag. instrument jni name class_data (ag_instrumentation ag))"

definition ThreadStart ::
  "i32 \<Rightarrow> string \<Rightarrow> pthread_t \<Rightarrow> u64 \<times> u64 \<Rightarrow> (tracer, unit) action" where
  "ThreadStart err name self bounds s =
     (case the_agent s of
        Inl e \<Rightarrow> (Inl e, s)
      | Inr ag \<Rightarrow>
          on_profiler (ag_profiler ag)
            (\<lambda>pf. (Inr (), pf\<lparr>pf_jvm := addCurrentThread err name self bounds (pf_jvm pf)\<rparr>)) s)"

definition ClassPrepare :: "(jref \<Rightarrow> bool) \<Rightarrow> jref \<Rightarrow> tracer \<Rightarrow> jvmti_call list result" where
  "ClassPrepare methods klass s = rbind (the_agent s) (\<lambda>_. Inr (loadMethodsId methods klass))"

text \<open>The debug probes of the coroutine library are installed through their singleton.\<close>

definition install_debug_probes :: "jni_env \<Rightarrow> unit result" where
  "install_debug_probes jni =
     rbind (exception_check ''kotlinx/coroutines/debug/DebugProbes failed to get class''
              (jni_FindClass jni ''kotlinx/coroutines/debug/DebugProbes'')) (\<lambda>debug_probes.
     rbind (null_check ''kotlinx/coroutines/debug/DebugProbes not found'' debug_probes) (\<lambda>debug_probes.
     rbind (exception_check '' failed to get method from debug probes''
              (jni_GetMethodID jni debug_probes ''install'' ''()V'')) (\<lambda>install_method.
     rbind (null_check ''DebugProbes.install method not found'' install_method) (\<lambda>install_method.
     rbind (exception_check ''failed to get static field id  from debug probes''
              (jni_GetStaticFieldID jni debug_probes ''INSTANCE'' ''Lkotlinx/coroutines/debug/DebugProbes;''))
       (\<lambda>instance_field.
     rbind (null_check ''DebugProbes.INSTANCE field not found'' instance_field) (\<lambda>instance_field.
     rbind (exception_check ''failed to get static field from debug probes''
              (jni_GetStaticObjectField jni debug_probes instance_field)) (\<lambda>probes.
     rbind (null_check ''DebugProbes.INSTANCE is null'' probes) (\<lambda>probes.
     exception_check ''failed to call static method from debug probes''
       (jni_CallVoidMethod jni probes install_method)))))))))"

definition VMInit ::
  "jni_env \<Rightarrow> string \<Rightarrow> (jref \<Rightarrow> bool) \<Rightarrow> jref list option \<Rightarrow> (tracer, unit) action" where
  "VMInit jni cwd methods classes s =
     (case the_agent s of
        Inl e \<Rightarrow> (Inl e, s)
      | Inr ag \<Rightarrow>
          (case initializeMethodIds methods classes of
             Inl e \<Rightarrow> (Inl e, s)
           | Inr _ \<Rightarrow>
               (case load jni cwd (getJarPath (ag_instrumentation ag)) ''kotlin-tracer.jar'' of
                  Inl e \<Rightarrow> (Inl e, s)
                | Inr md \<Rightarrow>
                    let s = s\<lparr>tr_agent := Some (ag\<lparr>ag_instrumentation :=
                               setInstrumentationMetadata md (ag_instrumentation ag)\<rparr>)\<rparr> in
                    (case install_debug_probes jni of
                       Inl e \<Rightarrow> (Inl e, s)
                     | Inr _ \<Rightarrow>
                         on_profiler (ag_profiler ag) (\<lambda>pf. (Inr (), snd (startProfiler pf))) s))))"

end
