(* ===== verification/Vm_Image.thy ===== *)
theory Vm_Image
  imports Vm_Structs
begin

text \<open>
  A small image of the tables a JVM exports, with every type and field the code cache asks for. It
  shows that the hypotheses about these tables can be met, and gives the agent a JVM to start on.
\<close>

section \<open>Memory made of words and strings\<close>

text \<open>
  Addresses from 12288 to 65535 hold strings of at most 31 characters in slots of 32 bytes; every
  other address belongs to an aligned 64-bit word.
\<close>

definition vm_image :: "(nat \<Rightarrow> nat) \<Rightarrow> (nat \<Rightarrow> string) \<Rightarrow> memory" where
  "vm_image W S a =
     (let n = unat a in
      if 12288 \<le> n \<and> n < 65536 then
        (let s = S ((n - 12288) div 32); i = (n - 12288) mod 32
         in Some (if i < length s then word_of_nat (of_char (s ! i)) else 0))
      else Some (word_of_nat (W (n div 8) div 256 ^ (n mod 8) mod 256)))"

lemma unat_of_nat_small: "n < 2 ^ 64 \<Longrightarrow> unat (word_of_nat n :: u64) = n"
  by (simp add: unsigned_of_nat take_bit_eq_mod)

lemma le_nat_digits:
  "le_nat (map (\<lambda>i. word_of_nat (w div 256 ^ i mod 256)) [j..<j + n]) = w div 256 ^ j mod 256 ^ n"
proof (induction n arbitrary: j)
  case 0
  show ?case by simp
next
  case (Suc n)
  have "[j..<j + Suc n] = j # [Suc j..<Suc j + n]" by (simp add: upt_rec)
  moreover have "unat (word_of_nat (x mod 256) :: u8) = x mod 256" for x
    by (simp add: unsigned_of_nat take_bit_eq_mod)
  moreover have "x mod 256 + 256 * (x div 256 mod 256 ^ n) = x mod 256 ^ Suc n" for x :: nat
    by (simp add: mod_mult2_eq)
  moreover have "w div 256 ^ Suc j = w div 256 ^ j div 256" by (simp only: power_Suc2 div_mult2_eq)
  ultimately show ?case
    using Suc.IH [of "Suc j"] by (simp del: upt_Suc power_Suc)
qed

lemma read_bytes_map:
  assumes "\<forall>i<n. m (a + word_of_nat i) = Some (f i)"
  shows "read_bytes m a n = Inr (map f [0..<n])"
  using assms
proof (induction n arbitrary: a f)
  case 0
  show ?case by simp
next
  case (Suc n)
  have "\<forall>i<n. m (a + 1 + word_of_nat i) = Some (f (Suc i))"
  proof (intro allI impI)
    fix i
    assume "i < n"
    with Suc.prems have "m (a + word_of_nat (Suc i)) = Some (f (Suc i))" by blast
    then show "m (a + 1 + word_of_nat i) = Some (f (Suc i))" by (simp add: algebra_simps)
  qed
  from Suc.IH [OF this] Suc.prems [rule_format, of 0] show ?case
    by (simp add: upt_conv_Cons map_Suc_upt [symmetric] del: upt_Suc)
qed

text \<open>The address \<open>n\<close> is an aligned word of the image.\<close>

definition word_slot :: "nat \<Rightarrow> bool" where
  "word_slot n \<longleftrightarrow> n mod 8 = 0 \<and> n + 8 < 2 ^ 64 \<and> (n + 8 \<le> 12288 \<or> 65536 \<le> n)"

lemma image_word_bytes:
  assumes "word_slot n" and "k \<le> 8"
  shows "read_bytes (vm_image W S) (word_of_nat n) k =
    Inr (map (\<lambda>i. word_of_nat (W (n div 8) div 256 ^ i mod 256)) [0..<k])"
proof (rule read_bytes_map, intro allI impI)
  fix i
  assume "i < k"
  then have i: "i < 8" using assms(2) by simp
  obtain q where n: "n = 8 * q" using assms(1) by (auto simp: word_slot_def)
  have u: "unat (word_of_nat n + word_of_nat i :: u64) = n + i"
    unfolding of_nat_add [symmetric] using assms(1) i by (intro unat_of_nat_small) (simp add: word_slot_def)
  have "\<not> (12288 \<le> n + i \<and> n + i < 65536)" using assms(1) i by (auto simp: word_slot_def)
  then show "vm_image W S (word_of_nat n + word_of_nat i) = Some (word_of_nat (W (n div 8) div 256 ^ i mod 256))"
    using i unfolding vm_image_def u Let_def by (simp only: if_False) (simp add: n)
qed

lemma image_read_u64:
  assumes "word_slot n" and "W (n div 8) < 2 ^ 64"
  shows "read_u64 (vm_image W S) (word_of_nat n) = Inr (word_of_nat (W (n div 8)))"
  using image_word_bytes [OF assms(1), of 8 W S] le_nat_digits [of "W (n div 8)" 0 8] assms(2)
  by (simp add: read_u64_def)

lemma image_read_i32:
  assumes "word_slot n" and "W (n div 8) < 2 ^ 32"
  shows "read_i32 (vm_image W S) (word_of_nat n) = Inr (word_of_nat (W (n div 8)))"
  using image_word_bytes [OF assms(1), of 4 W S] le_nat_digits [of "W (n div 8)" 0 4] assms(2)
  by (simp add: read_i32_def)

lemma image_string_byte:
  assumes "k < 1664" and "i < 32" and "length (S k) < 32"
  shows "vm_image W S (word_of_nat (12288 + 32 * k + i)) =
    Some (if i < length (S k) then word_of_nat (of_char (S k ! i)) else 0)"
proof -
  have "unat (word_of_nat (12288 + 32 * k + i) :: u64) = 12288 + 32 * k + i"
    using assms by (intro unat_of_nat_small) simp
  with assms show ?thesis unfolding vm_image_def Let_def by simp
qed

lemma image_read_cstr:
  assumes "k < 1664" and "length (S k) < 32" and "\<forall>c\<in>set (S k). of_char c \<noteq> (0 :: nat)" and "i \<le> length (S k)"
  shows "read_cstr (vm_image W S) (word_of_nat (12288 + 32 * k + i)) = Some (Inr (drop i (S k)))"
  using assms(4)
proof (induction "length (S k) - i" arbitrary: i)
  case 0
  then have "i = length (S k)" by simp
  with image_string_byte [where k = k and S = S and i = i and W = W, OF assms(1) _ assms(2)] assms(2) show ?case by (simp add: read_cstr_zero)
next
  case (Suc d)
  then have i: "i < length (S k)" by simp
  let ?c = "S k ! i"
  have n: "of_char ?c \<noteq> (0 :: nat)" using assms(3) i by simp
  have b: "of_char ?c < (256 :: nat)" by simp
  have u: "unat (word_of_nat (of_char ?c) :: u8) = of_char ?c"
    using b by (simp add: unsigned_of_nat take_bit_eq_mod del: of_char_of)
  have z: "(word_of_nat (of_char ?c) :: u8) \<noteq> 0" using u n by (metis unat_0)
  have "read_cstr (vm_image W S) (word_of_nat (12288 + 32 * k + Suc i)) = Some (Inr (drop (Suc i) (S k)))"
    using Suc i by (intro Suc.hyps(1)) simp_all
  then have "read_cstr (vm_image W S) (word_of_nat (12288 + 32 * k + i) + 1) = Some (Inr (drop (Suc i) (S k)))"
    by (simp add: algebra_simps)
  from read_cstr_step [OF _ z this] image_string_byte [where k = k and S = S and i = i and W = W, OF assms(1) _ assms(2)] i assms(2) u
  show ?case by (simp add: Cons_nth_drop_Suc)
qed

section \<open>The tables\<close>

text \<open>
  The names, the fields as type, name, static flag and offset, and the types as name and size. The
  words from address 65536 on hold their distance from it, which gives every symbol an address.
\<close>

definition image_names :: "string list" where
  "image_names =
     [''nmethod'', ''Method'', ''ConstMethod'', ''ConstantPool'', ''InstanceKlass'', ''CodeBlob'',
      ''CodeHeap'', ''VirtualSpace'', ''CodeCache'', ''GrowableArray<int>'', ''GrowableArrayBase'',
      ''HeapBlock'', ''_method'', ''_constMethod'', ''_constants'', ''_method_idnum'', ''_pool_holder'',
      ''_methods_jmethod_ids'', ''_name'', ''_memory'', ''_segmap'', ''_log2_segment_size'', ''_low'',
      ''_high'', ''_heaps'', ''_data'', ''_len'']"

definition image_fields :: "(nat \<times> nat \<times> nat \<times> nat) list" where
  "image_fields =
     [(0, 12, 0, 40), (1, 13, 0, 8), (2, 14, 0, 16), (2, 15, 0, 24), (3, 16, 0, 32), (4, 17, 0, 48),
      (5, 18, 0, 56), (6, 19, 0, 64), (6, 20, 0, 72), (6, 21, 0, 80), (7, 22, 0, 88), (7, 23, 0, 96),
      (8, 24, 1, 131072), (9, 25, 0, 0), (10, 26, 0, 104)]"

definition image_string :: "nat \<Rightarrow> string" where
  "image_string k = (if k < length image_names then image_names ! k else [])"

text \<open>Word \<open>f\<close> of the entry \<open>i\<close> of the two tables; entries have 64 bytes.\<close>

definition field_word :: "nat \<Rightarrow> nat \<Rightarrow> nat" where
  "field_word i f =
     (if i < length image_fields
      then (case image_fields ! i of
              (t, n, st, off) \<Rightarrow>
                if f = 0 then 12288 + 32 * t else if f = 1 then 12288 + 32 * n else if f = 2 then st
                else if f = 3 then off else 0)
      else 0)"

definition type_word :: "nat \<Rightarrow> nat \<Rightarrow> nat" where
  "type_word i f = (if i < 12 then if f = 0 then 12288 + 32 * i else if f = 3 then 16 else 0 else 0)"

definition image_word :: "nat \<Rightarrow> nat" where
  "image_word j =
     (if 8192 \<le> j then 8 * (j - 8192) mod 2 ^ 32
      else if 1024 \<le> j then type_word ((j - 1024) div 8) ((j - 1024) mod 8)
      else if 512 \<le> j then field_word ((j - 512) div 8) ((j - 512) mod 8)
      else 0)"

definition image_memory :: memory where
  "image_memory = vm_image image_word image_string"

text \<open>The value of every symbol, and its address.\<close>

definition image_symbols :: "(string \<times> nat) list" where
  "image_symbols =
     [(''gHotSpotVMStructs'', 4096), (''gHotSpotVMTypes'', 8192),
      (''gHotSpotVMStructEntryFieldNameOffset'', 8), (''gHotSpotVMStructEntryIsStaticOffset'', 16),
      (''gHotSpotVMStructEntryOffsetOffset'', 24), (''gHotSpotVMStructEntryAddressOffset'', 24),
      (''gHotSpotVMStructEntryArrayStride'', 64), (''gHotSpotVMTypeEntryIsOopTypeOffset'', 16),
      (''gHotSpotVMTypeEntryIsIntegerTypeOffset'', 16), (''gHotSpotVMTypeEntryIsUnsignedOffset'', 16),
      (''gHotSpotVMTypeEntrySizeOffset'', 24), (''gHotSpotVMTypeEntryArrayStride'', 64)]"

definition image_symbol :: "string \<Rightarrow> nat" where
  "image_symbol n = (case map_of image_symbols n of Some v \<Rightarrow> v | None \<Rightarrow> 0)"

definition image_address :: "string \<Rightarrow> u64" where
  "image_address n = word_of_nat (65536 + image_symbol n)"

lemma image_word_small: "image_word j < 2 ^ 32"
proof -
  have "field_word i f < 2 ^ 32" for i f
  proof (cases "i < length image_fields")
    case True
    then have "image_fields ! i \<in> set image_fields" by simp
    then have "case image_fields ! i of (t, n, st, off) \<Rightarrow> t < 30 \<and> n < 30 \<and> st < 2 \<and> off < 2 ^ 20"
      unfolding image_fields_def by auto
    then show ?thesis by (auto simp: field_word_def split: prod.splits)
  qed (simp add: field_word_def)
  moreover have "type_word i f < 2 ^ 32" for i f by (simp add: type_word_def)
  ultimately show ?thesis by (simp add: image_word_def)
qed

lemma image_read:
  assumes "word_slot n"
  shows "read_u64 image_memory (word_of_nat n) = Inr (word_of_nat (image_word (n div 8)))"
    and "read_i32 image_memory (word_of_nat n) = Inr (word_of_nat (image_word (n div 8)))"
  unfolding image_memory_def using image_word_small [of "n div 8"]
  by (auto intro: image_read_u64 [OF assms] image_read_i32 [OF assms])

lemma image_cstr:
  assumes "k < 27"
  shows "read_cstr image_memory (word_of_nat (12288 + 32 * k)) = Some (Inr (image_names ! k))"
proof -
  have l: "length image_names = 27" by (simp add: image_names_def)
  have "\<forall>s\<in>set image_names. length s < 32 \<and> (\<forall>c\<in>set s. of_char c \<noteq> (0 :: nat))"
    by (simp add: image_names_def)
  then have "length (image_string k) < 32" "\<forall>c\<in>set (image_string k). of_char c \<noteq> (0 :: nat)"
    using nth_mem [of k image_names] assms l by (simp add: image_string_def, metis image_string_def)
  from image_read_cstr [where i = 0 and k = k and S = image_string and W = image_word, OF _ this] assms l
  show ?thesis by (simp add: image_memory_def image_string_def)
qed

section \<open>Reading the tables\<close>

lemma image_field_word:
  assumes "i < 16" and "f < 8"
  shows "read_u64 image_memory (word_of_nat (4096 + 64 * i) + word_of_nat (8 * f)) = Inr (word_of_nat (field_word i f))"
    and "read_i32 image_memory (word_of_nat (4096 + 64 * i) + word_of_nat (8 * f)) = Inr (word_of_nat (field_word i f))"
proof -
  have s: "word_slot (4096 + 64 * i + 8 * f)" using assms by (simp add: word_slot_def)
  have "image_word ((4096 + 64 * i + 8 * f) div 8) = field_word i f"
    using assms by (simp add: image_word_def)
  with image_read [OF s] show
    "read_u64 image_memory (word_of_nat (4096 + 64 * i) + word_of_nat (8 * f)) = Inr (word_of_nat (field_word i f))"
    "read_i32 image_memory (word_of_nat (4096 + 64 * i) + word_of_nat (8 * f)) = Inr (word_of_nat (field_word i f))"
    unfolding of_nat_add [symmetric] by simp_all
qed

lemma image_type_word:
  assumes "i < 16" and "f < 8"
  shows "read_u64 image_memory (word_of_nat (8192 + 64 * i) + word_of_nat (8 * f)) = Inr (word_of_nat (type_word i f))"
    and "read_i32 image_memory (word_of_nat (8192 + 64 * i) + word_of_nat (8 * f)) = Inr (word_of_nat (type_word i f))"
proof -
  have s: "word_slot (8192 + 64 * i + 8 * f)" using assms by (simp add: word_slot_def)
  have "image_word ((8192 + 64 * i + 8 * f) div 8) = type_word i f"
    using assms by (simp add: image_word_def)
  with image_read [OF s] show
    "read_u64 image_memory (word_of_nat (8192 + 64 * i) + word_of_nat (8 * f)) = Inr (word_of_nat (type_word i f))"
    "read_i32 image_memory (word_of_nat (8192 + 64 * i) + word_of_nat (8 * f)) = Inr (word_of_nat (type_word i f))"
    unfolding of_nat_add [symmetric] by simp_all
qed

lemma image_identity:
  assumes "v < 2 ^ 31" and "v mod 8 = 0"
  shows "read_u64 image_memory (word_of_nat (65536 + v)) = Inr (word_of_nat v)"
proof -
  have "word_slot (65536 + v)" using assms by (simp add: word_slot_def) presburger
  moreover have "image_word ((65536 + v) div 8) = v" using assms by (auto simp: image_word_def)
  ultimately show ?thesis using image_read(1) [of "65536 + v"] by (simp only:)
qed

definition image_globals :: vm_globals where
  "image_globals n = word_of_nat (image_symbol n)"

lemma image_init: "init image_address image_memory = Inr image_globals"
proof -
  have "image_symbol n < 2 ^ 14 \<and> image_symbol n mod 8 = 0" for n
  proof (cases "map_of image_symbols n")
    case (Some v)
    have "\<forall>(n, v) \<in> set image_symbols. v < 2 ^ 14 \<and> v mod 8 = 0" by (simp add: image_symbols_def)
    with map_of_SomeD [OF Some] Some show ?thesis by (auto simp: image_symbol_def)
  qed (simp add: image_symbol_def)
  then have r: "read_u64 image_memory (image_address n) = Inr (image_globals n)"
    and a: "image_address n \<noteq> 0" for n
  proof -
    assume s: "\<And>n. image_symbol n < 2 ^ 14 \<and> image_symbol n mod 8 = 0"
    show "read_u64 image_memory (image_address n) = Inr (image_globals n)"
      unfolding image_address_def image_globals_def using s [of n] by (intro image_identity) simp_all
    have "unat (image_address n) = 65536 + image_symbol n"
      unfolding image_address_def using s [of n] by (intro unat_of_nat_small) simp
    then show "image_address n \<noteq> 0" by auto
  qed
  have "distinct vm_symbols" by (simp add: vm_symbols_def)
  with get_symbols_ok [of vm_symbols image_address image_memory "\<lambda>_. 0"] r a
  obtain g where g: "get_symbols image_address image_memory vm_symbols (\<lambda>_. 0) = Inr g"
    "\<forall>n. n \<in> set vm_symbols \<longrightarrow> g n = image_globals n" "\<forall>n. n \<notin> set vm_symbols \<longrightarrow> g n = 0"
    by auto
  have "fst ` set image_symbols \<subseteq> set vm_symbols" by (simp add: image_symbols_def vm_symbols_def)
  then have "image_globals n = 0" if "n \<notin> set vm_symbols" for n
    using that by (auto simp: image_globals_def image_symbol_def split: option.splits dest!: map_of_SomeD)
  with g have "g = image_globals" by (intro ext) metis
  with g(1) show ?thesis by (simp add: init_def)
qed

definition image_field :: "nat \<Rightarrow> string \<times> string \<times> vm_field" where
  "image_field i =
     (case image_fields ! i of
        (t, n, st, off) \<Rightarrow>
          (image_names ! t, image_names ! n,
           \<lparr>vf_fieldName = word_of_nat (12288 + 32 * n), vf_typeString = word_of_nat (12288 + 32 * t),
            vf_offset = word_of_nat off, vf_isStatic = word_of_nat st\<rparr>))"

definition image_type :: "nat \<Rightarrow> string \<times> vm_type_entry" where
  "image_type i =
     (image_names ! i,
      \<lparr>vt_typeName = word_of_nat (12288 + 32 * i), vt_superclassName = word_of_nat (12288 + 32 * i),
       vt_isOopType = 0, vt_isIntegerType = 0, vt_isUnsigned = 0, vt_size = 16, vt_fields = None\<rparr>)"

text \<open>The globals that the tables are read with.\<close>

lemma image_globals_values:
  "image_globals ''gHotSpotVMStructEntryTypeNameOffset'' = word_of_nat (8 * 0)"
  "image_globals ''gHotSpotVMStructEntryFieldNameOffset'' = word_of_nat (8 * 1)"
  "image_globals ''gHotSpotVMStructEntryTypeStringOffset'' = word_of_nat (8 * 0)"
  "image_globals ''gHotSpotVMStructEntryIsStaticOffset'' = word_of_nat (8 * 2)"
  "image_globals ''gHotSpotVMStructEntryOffsetOffset'' = word_of_nat (8 * 3)"
  "image_globals ''gHotSpotVMStructEntryAddressOffset'' = word_of_nat (8 * 3)"
  "image_globals ''gHotSpotVMTypeEntryTypeNameOffset'' = word_of_nat (8 * 0)"
  "image_globals ''gHotSpotVMTypeEntrySuperclassNameOffset'' = word_of_nat (8 * 0)"
  "image_globals ''gHotSpotVMTypeEntryIsOopTypeOffset'' = word_of_nat (8 * 2)"
  "image_globals ''gHotSpotVMTypeEntryIsIntegerTypeOffset'' = word_of_nat (8 * 2)"
  "image_globals ''gHotSpotVMTypeEntryIsUnsignedOffset'' = word_of_nat (8 * 2)"
  "image_globals ''gHotSpotVMTypeEntrySizeOffset'' = word_of_nat (8 * 3)"
  by (simp_all add: image_globals_def image_symbol_def image_symbols_def)

lemma image_name_pointer:
  assumes "k < 30"
  shows "(word_of_nat (12288 + 32 * k) :: u64) \<noteq> 0"
proof
  assume "(word_of_nat (12288 + 32 * k) :: u64) = 0"
  then have "unat (word_of_nat (12288 + 32 * k) :: u64) = 0" by (simp only: unat_0)
  moreover have "unat (word_of_nat (12288 + 32 * k) :: u64) = 12288 + 32 * k"
    using assms by (intro unat_of_nat_small) simp
  ultimately show False by linarith
qed

lemma image_struct_entry:
  assumes "i < 15"
  shows "read_struct_entry image_globals image_memory (word_of_nat (4096 + 64 * i)) = Some (Inr (Some (image_field i)))"
proof -
  obtain t n st off where f: "image_fields ! i = (t, n, st, off)" by (cases "image_fields ! i") auto
  have l: "length image_fields = 15" by (simp add: image_fields_def)
  have "\<forall>(t, n, st, off) \<in> set image_fields. t < 27 \<and> n < 27" by (simp add: image_fields_def)
  moreover have "(t, n, st, off) \<in> set image_fields" using nth_mem [of i image_fields] assms f l by simp
  ultimately have k: "t < 27" "n < 27" by auto
  note rd = image_field_word [of i 0] image_field_word [of i 1] image_field_word [of i 2] image_field_word [of i 3]
  have w: "field_word i 0 = 12288 + 32 * t" "field_word i 1 = 12288 + 32 * n" "field_word i 2 = st"
    "field_word i 3 = off"
    using assms l f by (simp_all add: field_word_def)
  show ?thesis
    unfolding read_struct_entry_def image_globals_values
    using assms rd w k image_name_pointer [of t] image_name_pointer [of n] image_cstr [of t] image_cstr [of n]
    by (simp del: of_nat_add of_nat_mult add: image_field_def f)
qed

lemma image_type_entry:
  assumes "i < 12"
  shows "read_type_entry image_globals image_memory (word_of_nat (8192 + 64 * i)) = Some (Inr (Some (image_type i)))"
proof -
  note rd = image_type_word [of i 0] image_type_word [of i 2] image_type_word [of i 3]
  have w: "type_word i 0 = 12288 + 32 * i" "type_word i 2 = 0" "type_word i 3 = 16"
    using assms by (simp_all add: type_word_def)
  show ?thesis
    unfolding read_type_entry_def image_globals_values
    using assms rd w image_name_pointer [of i] image_cstr [of i]
    by (simp del: of_nat_add of_nat_mult add: image_type_def)
qed

lemma image_table_ends:
  "read_struct_entry image_globals image_memory (word_of_nat (4096 + 64 * 15)) = Some (Inr None)"
  "read_type_entry image_globals image_memory (word_of_nat (8192 + 64 * 12)) = Some (Inr None)"
  unfolding read_struct_entry_def read_type_entry_def image_globals_values
  using image_field_word [of 15 0] image_field_word [of 15 1] image_type_word [of 12 0]
  by (simp_all del: of_nat_add of_nat_mult add: field_word_def type_word_def image_fields_def)

lemma image_struct_table:
  assumes "i \<le> 15"
  shows "struct_table image_globals image_memory (word_of_nat (4096 + 64 * i)) (map image_field [i..<15])"
  using assms
proof (induction "15 - i" arbitrary: i)
  case 0
  then have "i = 15" by simp
  then show ?case using image_table_ends(1) by (simp del: of_nat_add of_nat_mult)
next
  case (Suc n)
  have st: "word_of_nat (4096 + 64 * i) + image_globals ''gHotSpotVMStructEntryArrayStride'' =
      (word_of_nat (4096 + 64 * Suc i) :: u64)"
    by (simp add: image_globals_def image_symbol_def image_symbols_def)
  have "struct_table image_globals image_memory (word_of_nat (4096 + 64 * Suc i)) (map image_field [Suc i..<15])"
    using Suc by (intro Suc.hyps(1)) simp_all
  moreover have "[i..<15] = i # [Suc i..<15]" using Suc by (intro upt_conv_Cons) simp
  ultimately show ?case
    using image_struct_entry [of i] Suc by (simp only: list.map struct_table.simps st)
qed

lemma image_type_table:
  assumes "i \<le> 12"
  shows "type_table image_globals image_memory (word_of_nat (8192 + 64 * i)) (map image_type [i..<12])"
  using assms
proof (induction "12 - i" arbitrary: i)
  case 0
  then have "i = 12" by simp
  then show ?case using image_table_ends(2) by (simp del: of_nat_add of_nat_mult)
next
  case (Suc n)
  have st: "word_of_nat (8192 + 64 * i) + image_globals ''gHotSpotVMTypeEntryArrayStride'' =
      (word_of_nat (8192 + 64 * Suc i) :: u64)"
    by (simp add: image_globals_def image_symbol_def image_symbols_def)
  have "type_table image_globals image_memory (word_of_nat (8192 + 64 * Suc i)) (map image_type [Suc i..<12])"
    using Suc by (intro Suc.hyps(1)) simp_all
  moreover have "[i..<12] = i # [Suc i..<12]" using Suc by (intro upt_conv_Cons) simp
  ultimately show ?case
    using image_type_entry [of i] Suc by (simp only: list.map type_table.simps st)
qed

lemma image_tables:
  "struct_table image_globals image_memory (image_globals ''gHotSpotVMStructs'') (map image_field [0..<15])"
  "type_table image_globals image_memory (image_globals ''gHotSpotVMTypes'') (map image_type [0..<12])"
proof -
  have "image_globals ''gHotSpotVMStructs'' = word_of_nat (4096 + 64 * 0)"
    "image_globals ''gHotSpotVMTypes'' = word_of_nat (8192 + 64 * 0)"
    by (simp_all add: image_globals_def image_symbol_def image_symbols_def)
  then show "struct_table image_globals image_memory (image_globals ''gHotSpotVMStructs'') (map image_field [0..<15])"
    and "type_table image_globals image_memory (image_globals ''gHotSpotVMTypes'') (map image_type [0..<12])"
    using image_struct_table [of 0] image_type_table [of 0] by (simp_all only: le0)
qed

text \<open>What the tables say, and the code cache they lead to.\<close>

lemma image_table_offsets:
  "table_offset (map image_field [0..<15]) t f =
     map_of
        [((''nmethod'', ''_method''), 40), ((''Method'', ''_constMethod''), 8),
         ((''ConstMethod'', ''_constants''), 16), ((''ConstMethod'', ''_method_idnum''), 24),
         ((''ConstantPool'', ''_pool_holder''), 32), ((''InstanceKlass'', ''_methods_jmethod_ids''), 48),
         ((''CodeBlob'', ''_name''), 56), ((''CodeHeap'', ''_memory''), 64), ((''CodeHeap'', ''_segmap''), 72),
         ((''CodeHeap'', ''_log2_segment_size''), 80), ((''VirtualSpace'', ''_low''), 88),
         ((''VirtualSpace'', ''_high''), 96), ((''CodeCache'', ''_heaps''), 131072),
         ((''GrowableArray<int>'', ''_data''), 0), ((''GrowableArrayBase'', ''_len''), 104)] (t, f)"
proof -
  have e: "[0..<15] = [0, 1, 2, 3, 4, 5, 6, 7, 8, 9, 10, 11, 12, 13, 14 :: nat]" by (simp add: upt_rec)
  show ?thesis
    unfolding table_offset_def e
    by (simp add: image_field_def image_fields_def image_names_def)
qed

lemma image_types_of:
  "rev (map image_type [0..<12]) = map image_type [11, 10, 9, 8, 7, 6, 5, 4, 3, 2, 1, 0]"
proof -
  have e: "[0..<12] = [0, 1, 2, 3, 4, 5, 6, 7, 8, 9, 10, 11 :: nat]" by (simp add: upt_rec)
  show ?thesis unfolding e by simp
qed

definition image_cache :: code_cache where
  "image_cache =
     \<lparr>compiledMethod_offset = 40, constMethod_offset = 8, constants_offset = 16, methodIdNum_offset = 24,
      poolHolder_offset = 32, jmethodIds_offset = 48, codeBlobName_offset = 56, memory_offset = 64,
      segmap_offset = 72, log2SegmentSize_offset = 80, low_offset = 88, high_offset = 96,
      heaps_data = 0, heaps_length = 65536 + 104, heap_block_type_size = 16\<rparr>"

lemma image_type_found:
  assumes "t \<in> set (take 12 image_names)"
    and "types = snd (fold add_type (map image_type [0..<12]) (fold add_field es [], []))"
  shows "\<exists>x. getIfContains types t = Inr x \<and> vt_size x = 16
    \<and> (\<forall>f off. table_offset es t f = Some off \<longrightarrow> field_offset x f = Inr off)"
proof -
  have "\<exists>e. map_of (rev (map image_type [0..<12])) t = Some e \<and> vt_size e = 16"
    using assms(1) unfolding image_types_of by (auto simp: image_type_def image_names_def)
  then show ?thesis using type_found [OF _ assms(2), of t] by auto
qed

text \<open>The constructor of the code cache on the types of the image.\<close>

lemma image_constructor:
  assumes "types = snd (fold add_type (map image_type [0..<12]) (fold add_field (map image_field [0..<15]) [], []))"
  shows "JVMCodeCache image_memory types = Inr image_cache"
proof -
  obtain ty where ty: "\<forall>t\<in>set (take 12 image_names). getIfContains types t = Inr (ty t) \<and> vt_size (ty t) = 16
      \<and> (\<forall>f off. table_offset (map image_field [0..<15]) t f = Some off \<longrightarrow> field_offset (ty t) f = Inr off)"
    using image_type_found [OF _ assms] bchoice by metis
  have types: "getIfContains types ''nmethod'' = Inr (ty ''nmethod'')"
    "getIfContains types ''Method'' = Inr (ty ''Method'')"
    "getIfContains types ''ConstMethod'' = Inr (ty ''ConstMethod'')"
    "getIfContains types ''ConstantPool'' = Inr (ty ''ConstantPool'')"
    "getIfContains types ''InstanceKlass'' = Inr (ty ''InstanceKlass'')"
    "getIfContains types ''CodeBlob'' = Inr (ty ''CodeBlob'')"
    "getIfContains types ''CodeHeap'' = Inr (ty ''CodeHeap'')"
    "getIfContains types ''VirtualSpace'' = Inr (ty ''VirtualSpace'')"
    "getIfContains types ''CodeCache'' = Inr (ty ''CodeCache'')"
    "getIfContains types ''GrowableArray<int>'' = Inr (ty ''GrowableArray<int>'')"
    "getIfContains types ''GrowableArrayBase'' = Inr (ty ''GrowableArrayBase'')"
    "getIfContains types ''HeapBlock'' = Inr (ty ''HeapBlock'')"
    "vt_size (ty ''HeapBlock'') = 16"
    using ty by (simp_all add: image_names_def)
  have offsets: "field_offset (ty ''nmethod'') ''_method'' = Inr 40"
    "field_offset (ty ''Method'') ''_constMethod'' = Inr 8"
    "field_offset (ty ''ConstMethod'') ''_constants'' = Inr 16"
    "field_offset (ty ''ConstMethod'') ''_method_idnum'' = Inr 24"
    "field_offset (ty ''ConstantPool'') ''_pool_holder'' = Inr 32"
    "field_offset (ty ''InstanceKlass'') ''_methods_jmethod_ids'' = Inr 48"
    "field_offset (ty ''CodeBlob'') ''_name'' = Inr 56"
    "field_offset (ty ''CodeHeap'') ''_memory'' = Inr 64"
    "field_offset (ty ''CodeHeap'') ''_segmap'' = Inr 72"
    "field_offset (ty ''CodeHeap'') ''_log2_segment_size'' = Inr 80"
    "field_offset (ty ''VirtualSpace'') ''_low'' = Inr 88"
    "field_offset (ty ''VirtualSpace'') ''_high'' = Inr 96"
    "field_offset (ty ''CodeCache'') ''_heaps'' = Inr 131072"
    "field_offset (ty ''GrowableArray<int>'') ''_data'' = Inr 0"
    "field_offset (ty ''GrowableArrayBase'') ''_len'' = Inr 104"
    using ty by (simp_all add: image_table_offsets image_names_def)
  have c: "map_of types ''CompiledMethod'' = None"
    unfolding assms types_fold_add_type image_types_of by (simp add: image_type_def image_names_def)
  have heaps: "read_u64 image_memory 131072 = Inr 65536" "read_u64 image_memory 65536 = Inr 0"
    using image_identity [of 65536] image_identity [of 0] by simp_all
  show ?thesis
    by (simp add: JVMCodeCache_def compiled_method_field_def c types offsets heaps image_cache_def)
qed

lemma image_code_cache: "jvm_code_cache image_address image_memory = Some (Inr image_cache)"
  unfolding jvm_code_cache_eq [OF image_init image_tables] using image_constructor [OF refl] by simp

section \<open>Properties\<close>

text \<open>
  C38. The offsets of the code cache are those the JVM exports. If the two tables in memory list the
  fields \<open>es\<close> and the types \<open>ts\<close>, reading them ends, and when the constructor succeeds, every
  offset it keeps is the offset of the first entry for that type and field (for a static field its
  address); the field for the method of compiled code is looked up under \<open>nmethod\<close> when the JVM has
  no type \<open>CompiledMethod\<close>.
\<close>

theorem code_cache_offsets:
  assumes "init addr m = Inr g" and "struct_table g m (g ''gHotSpotVMStructs'') es"
    and "type_table g m (g ''gHotSpotVMTypes'') ts"
  shows "\<exists>r. jvm_code_cache addr m = Some r
    \<and> (\<forall>cc. r = Inr cc \<longrightarrow>
         table_offset es (if map_of (rev ts) ''CompiledMethod'' \<noteq> None then ''CompiledMethod'' else ''nmethod'')
           ''_method'' = Some (compiledMethod_offset cc)
         \<and> table_offset es ''Method'' ''_constMethod'' = Some (constMethod_offset cc)
         \<and> table_offset es ''ConstMethod'' ''_constants'' = Some (constants_offset cc)
         \<and> table_offset es ''ConstMethod'' ''_method_idnum'' = Some (methodIdNum_offset cc)
         \<and> table_offset es ''ConstantPool'' ''_pool_holder'' = Some (poolHolder_offset cc)
         \<and> table_offset es ''InstanceKlass'' ''_methods_jmethod_ids'' = Some (jmethodIds_offset cc)
         \<and> table_offset es ''CodeBlob'' ''_name'' = Some (codeBlobName_offset cc)
         \<and> table_offset es ''CodeHeap'' ''_memory'' = Some (memory_offset cc)
         \<and> table_offset es ''CodeHeap'' ''_segmap'' = Some (segmap_offset cc)
         \<and> table_offset es ''CodeHeap'' ''_log2_segment_size'' = Some (log2SegmentSize_offset cc)
         \<and> table_offset es ''VirtualSpace'' ''_low'' = Some (low_offset cc)
         \<and> table_offset es ''VirtualSpace'' ''_high'' = Some (high_offset cc))"
proof -
  define types where "types = snd (fold add_type ts (fold add_field es [], []))"
  have c: "map_of types t \<noteq> None \<longleftrightarrow> map_of (rev ts) t \<noteq> None" for t
    unfolding types_def types_fold_add_type by (auto split: option.splits)
  have e: "jvm_code_cache addr m = Some (JVMCodeCache m types)"
    unfolding types_def by (rule jvm_code_cache_eq [OF assms])
  note off = type_offset_table [OF _ types_def]
  show ?thesis
  proof (rule exI [of _ "JVMCodeCache m types"], rule conjI [OF e], rule allI, rule impI)
    fix cc
    assume "JVMCodeCache m types = Inr cc"
    note offsets = JVMCodeCache_offsets [OF this, THEN off, unfolded c]
    show "table_offset es (if map_of (rev ts) ''CompiledMethod'' \<noteq> None then ''CompiledMethod'' else ''nmethod'')
           ''_method'' = Some (compiledMethod_offset cc)
      \<and> table_offset es ''Method'' ''_constMethod'' = Some (constMethod_offset cc)
      \<and> table_offset es ''ConstMethod'' ''_constants'' = Some (constants_offset cc)
      \<and> table_offset es ''ConstMethod'' ''_method_idnum'' = Some (methodIdNum_offset cc)
      \<and> table_offset es ''ConstantPool'' ''_pool_holder'' = Some (poolHolder_offset cc)
      \<and> table_offset es ''InstanceKlass'' ''_methods_jmethod_ids'' = Some (jmethodIds_offset cc)
      \<and> table_offset es ''CodeBlob'' ''_name'' = Some (codeBlobName_offset cc)
      \<and> table_offset es ''CodeHeap'' ''_memory'' = Some (memory_offset cc)
      \<and> table_offset es ''CodeHeap'' ''_segmap'' = Some (segmap_offset cc)
      \<and> table_offset es ''CodeHeap'' ''_log2_segment_size'' = Some (log2SegmentSize_offset cc)
      \<and> table_offset es ''VirtualSpace'' ''_low'' = Some (low_offset cc)
      \<and> table_offset es ''VirtualSpace'' ''_high'' = Some (high_offset cc)"
      by (intro conjI offsets)
  qed
qed

theorem code_cache_offsets_witness:
  "jvm_code_cache image_address image_memory = Some (Inr image_cache)
   \<and> table_offset (map image_field [0..<15]) ''nmethod'' ''_method'' = Some (compiledMethod_offset image_cache)
   \<and> table_offset (map image_field [0..<15]) ''CodeHeap'' ''_segmap'' = Some (segmap_offset image_cache)"
proof -
  have "map_of (rev (map image_type [0..<12])) ''CompiledMethod'' = None"
    unfolding image_types_of by (simp add: image_type_def image_names_def)
  with code_cache_offsets [OF image_init image_tables] image_code_cache show ?thesis by simp
qed

end
