(* ===== verification/Agent_Lifecycle.thy ===== *)
theory Agent_Lifecycle
  imports Agent Vm_Image
begin

text \<open>
  The life of the agent: what the JVM may call and in which states, the invariant that ties the
  agent to its profiler, the dispatch of the native methods, and the rewriting of classes.
\<close>

section \<open>The guarded callbacks as data\<close>

datatype tracer_call =
    Call_gcStart trace_time
  | Call_gcFinish trace_time
  | Call_created pthread_t trace_time trace_time jlong
  | Call_resumed pthread_t usage_reading trace_time trace_time jlong
  | Call_completed pthread_t trace_time trace_time usage_reading jlong
  | Call_suspend pthread_t trace_time usage_reading "jmethodID list option" trace_time jlong
  | Call_traceStart pthread_t trace_time trace_time trace_time jlong
  | Call_traceEnd pthread_t trace_time usage_reading trace_time jlong

fun tracer_exec :: "hash_env \<Rightarrow> method_env \<Rightarrow> tracer_call \<Rightarrow> (tracer, unit) action" where
  "tracer_exec he env (Call_gcStart now) = GarbageCollectionStart now"
| "tracer_exec he env (Call_gcFinish now) = GarbageCollectionFinish now"
| "tracer_exec he env (Call_created self t1 t2 c) = Java_coroutineCreated he self t1 t2 c"
| "tracer_exec he env (Call_resumed self r now now' c) = Java_coroutineResumed he self r now now' c"
| "tracer_exec he env (Call_completed self finish now r c) = Java_coroutineCompleted he self finish now r c"
| "tracer_exec he env (Call_suspend self now r frames start c) = Java_coroutineSuspend he env self now r frames start c"
| "tracer_exec he env (Call_traceStart self t1 t2 start c) = Java_traceStart he self t1 t2 start c"
| "tracer_exec he env (Call_traceEnd self now r finish c) = Java_traceEnd he self now r finish c"

text \<open>The event of the profiler that a callback stands for.\<close>

fun event_of :: "hash_env \<Rightarrow> tracer_call \<Rightarrow> profiler_event" where
  "event_of he (Call_gcStart now) = Gc_started now"
| "event_of he (Call_gcFinish now) = Gc_finished now"
| "event_of he (Call_created self t1 t2 c) = Coroutine_created self t1 t2 (jni_coroutine_id he self c)"
| "event_of he (Call_resumed self r now now' c) =
     Coroutine_resumed self r now now' (jni_coroutine_id he self c)"
| "event_of he (Call_completed self finish now r c) =
     Coroutine_completed self finish now r (jni_coroutine_id he self c)"
| "event_of he (Call_suspend self now r frames start c) =
     Coroutine_suspended self now r frames start (jni_coroutine_id he self c)"
| "event_of he (Call_traceStart self t1 t2 start c) =
     Trace_start self t1 t2 start (jni_coroutine_id he self c)"
| "event_of he (Call_traceEnd self now r finish c) =
     Trace_end self now r finish (jni_coroutine_id he self c)"

lemmas callback_defs = GarbageCollectionStart_def GarbageCollectionFinish_def Java_coroutineCreated_def
  Java_coroutineResumed_def Java_coroutineCompleted_def Java_coroutineSuspend_def Java_traceStart_def
  Java_traceEnd_def

lemma tracer_exec_guarded: "tracer_exec he env call = guarded (profiler_exec he env (event_of he call))"
  by (cases call) (simp_all add: callback_defs, (rule arg_cong [where f = guarded], rule ext, simp)+)

section \<open>Steps and invariant\<close>

inductive tracer_step :: "hash_env \<Rightarrow> method_env \<Rightarrow> tracer \<Rightarrow> tracer \<Rightarrow> bool" for he env where
  On_load: "Agent_OnLoad cwd je options s = Some (r, s') \<Longrightarrow> tracer_step he env s s'"
| On_unload: "tracer_step he env s (Agent_OnUnload s)"
| On_callback: "tracer_step he env s (snd (tracer_exec he env call s))"
| On_thread_start: "tracer_step he env s (snd (ThreadStart err name self bounds s))"
| On_vm_init: "tracer_step he env s (snd (VMInit jni cwd methods classes s))"

definition options_complete :: "profiler_options \<Rightarrow> bool" where
  "options_complete po \<longleftrightarrow> class_name po \<noteq> None \<and> profiler_options.method_name po \<noteq> None \<and> output_path po \<noteq> None"

definition agent_ok :: "tracer \<Rightarrow> agent \<Rightarrow> bool" where
  "agent_ok s ag \<longleftrightarrow>
     tr_attached s \<and> tr_instance s = Some (ag_profiler ag)
     \<and> (\<exists>pf. cells (tr_profilers s) (ag_profiler ag) = Some pf \<and> profiler_ok pf)
     \<and> options_complete (in_profiler_options (ag_instrumentation ag))"

definition tracer_ok :: "tracer \<Rightarrow> bool" where
  "tracer_ok s \<longleftrightarrow>
     (\<not> tr_attached s \<longrightarrow> tr_instance s = None) \<and> (\<forall>ag. tr_agent s = Some ag \<longrightarrow> agent_ok s ag)"

lemma tracer_ok_initial: "tracer_ok tracer_initial"
  by (simp add: tracer_ok_def tracer_initial_def)

lemma on_profiler_ok:
  assumes "agent_ok s ag" and "\<And>pf. profiler_ok pf \<Longrightarrow> profiler_ok (snd (f pf))"
  shows "agent_ok (snd (on_profiler (ag_profiler ag) f s)) ag"
  using assms by (auto simp: agent_ok_def on_profiler_def heap_simps split: prod.splits option.splits) force

lemma on_profiler_keeps [simp]:
  "tr_agent (snd (on_profiler a f s)) = tr_agent s" "tr_attached (snd (on_profiler a f s)) = tr_attached s"
  "tr_instance (snd (on_profiler a f s)) = tr_instance s"
  by (simp_all add: on_profiler_def split: option.splits prod.splits)

lemma tracer_ok_on_profiler:
  assumes "tracer_ok s" and "tr_agent s = Some ag" and "\<And>pf. profiler_ok pf \<Longrightarrow> profiler_ok (snd (f pf))"
  shows "tracer_ok (snd (on_profiler (ag_profiler ag) f s))"
  using assms on_profiler_ok [of s ag f] by (auto simp: tracer_ok_def)

definition loaded_tracer :: "code_cache \<Rightarrow> profiler_options \<Rightarrow> tracer \<Rightarrow> tracer" where
  "loaded_tracer cc po s =
     (let (a, h) = heap_alloc (profiler_new jvm_threads_new (threshold po) (the (output_path po))
                     (profiling_period po)) (tr_profilers s)
      in s\<lparr>tr_attached := True, tr_instance := Some a, tr_profilers := h,
           tr_agent := Some \<lparr>ag_code_cache = cc, ag_profiler = a, ag_instrumentation = instrumentation_new po\<rparr>\<rparr>)"

lemma Agent_OnLoad_cases:
  assumes "\<not> tr_attached s" and "tr_instance s = None" and "Agent_OnLoad cwd je options s = Some (r, s')"
  shows "(\<exists>e. r = Inl e \<and> s' = s\<lparr>tr_attached := True\<rparr>)
    \<or> (\<exists>po cc. r = Inr 0 \<and> parseProfilerOptions cwd (the options) = Inr po \<and> s' = loaded_tracer cc po s)"
proof (cases "options = None \<or> options = Some []")
  case True
  with assms show ?thesis by (auto simp: Agent_OnLoad_def agent_create_def Let_def)
next
  case False
  then obtain opts where o: "options = Some opts" "opts \<noteq> []" by auto
  show ?thesis
  proof (cases "parseProfilerOptions cwd opts")
    case (Inl e)
    with assms o show ?thesis by (auto simp: Agent_OnLoad_def agent_create_def Let_def)
  next
    case (Inr po)
    obtain out where out: "output_path po = Some out" using accepted_options [OF Inr] by auto
    obtain q where q: "JVM je = Some q"
      using assms o Inr by (auto simp: Agent_OnLoad_def agent_create_def Let_def bind_eq_Some_conv)
    show ?thesis
      using assms o Inr out q
      by (cases q) (auto simp: Agent_OnLoad_def agent_create_def Let_def profiler_create_object_def loaded_tracer_def heap_alloc_def)
  qed
qed

lemma tracer_ok_load:
  assumes "Agent_OnLoad cwd je options s = Some (r, s')" and "tracer_ok s"
  shows "tracer_ok s'"
proof (cases "tr_attached s")
  case True
  with assms show ?thesis by (simp add: Agent_OnLoad_def agent_create_def)
next
  case False
  with assms(2) have s: "tr_instance s = None" "tr_agent s = None"
    by (auto simp: tracer_ok_def agent_ok_def)
  have 1: "tracer_ok (s\<lparr>tr_attached := True\<rparr>)" using s by (simp add: tracer_ok_def)
  have 2: "tracer_ok (loaded_tracer cc po s)" if "parseProfilerOptions cwd (the options) = Inr po" for cc po
    using accepted_options [OF that] profiler_ok_new [OF threads_ok_new]
    by (simp add: tracer_ok_def agent_ok_def loaded_tracer_def heap_alloc_def options_complete_def
        instrumentation_new_def)
  show ?thesis using Agent_OnLoad_cases [OF False s(1) assms(1)] 1 2 by blast
qed

lemma tracer_ok_unload: "tracer_ok s \<Longrightarrow> tracer_ok (Agent_OnUnload s)"
  by (cases "tr_agent s") (simp_all add: Agent_OnUnload_def agent_destroy_def tracer_ok_def agent_ok_def Let_def)

lemma tracer_ok_callback:
  assumes "tracer_ok s"
  shows "tracer_ok (snd (tracer_exec he env call s))"
proof (cases "tr_agent s")
  case None
  then show ?thesis using assms unfolding tracer_exec_guarded by (simp add: guarded_def)
next
  case (Some ag)
  have "tracer_ok (snd (on_profiler (ag_profiler ag) (profiler_exec he env (event_of he call)) s))"
    by (rule tracer_ok_on_profiler [OF assms Some]) (rule ok_profiler_exec)
  with Some show ?thesis unfolding tracer_exec_guarded by (simp add: guarded_def)
qed

lemma tracer_ok_thread_start:
  assumes "tracer_ok s"
  shows "tracer_ok (snd (ThreadStart err name self bounds s))"
proof (cases "tr_agent s")
  case None
  then show ?thesis using assms by (simp add: ThreadStart_def the_agent_def)
next
  case (Some ag)
  let ?f = "\<lambda>pf. (Inr (), pf\<lparr>pf_jvm := addCurrentThread err name self bounds (pf_jvm pf)\<rparr>)"
  have "tracer_ok (snd (on_profiler (ag_profiler ag) ?f s))"
    by (rule tracer_ok_on_profiler [OF assms Some]) (simp add: profiler_ok_def threads_ok_add)
  with Some show ?thesis by (simp add: ThreadStart_def the_agent_def)
qed

lemma tracer_ok_vm_init:
  assumes "tracer_ok s"
  shows "tracer_ok (snd (VMInit jni cwd methods classes s))"
proof (cases "tr_agent s")
  case None
  then show ?thesis using assms by (simp add: VMInit_def the_agent_def)
next
  case (Some ag)
  let ?ag = "\<lambda>md. ag\<lparr>ag_instrumentation := setInstrumentationMetadata md (ag_instrumentation ag)\<rparr>"
  have u: "tracer_ok (s\<lparr>tr_agent := Some (?ag md)\<rparr>)" for md
    using assms Some by (simp add: tracer_ok_def agent_ok_def setInstrumentationMetadata_def)
  have "tracer_ok (snd (on_profiler (ag_profiler (?ag md)) (\<lambda>pf. (Inr (), snd (startProfiler pf)))
      (s\<lparr>tr_agent := Some (?ag md)\<rparr>)))" for md
    by (rule tracer_ok_on_profiler [OF u]) (simp_all add: startProfiler_def profiler_ok_def)
  with u Some assms show ?thesis
    by (cases "initializeMethodIds methods classes"; cases "load jni cwd (getJarPath (ag_instrumentation ag)) ''kotlin-tracer.jar''";
        cases "install_debug_probes jni") (simp_all add: VMInit_def the_agent_def Let_def)
qed

lemma tracer_ok_step:
  assumes "tracer_step he env s s'" and "tracer_ok s"
  shows "tracer_ok s'"
  using assms(1)
proof cases
  case (On_load cwd je options r)
  then show ?thesis using assms(2) by (rule tracer_ok_load)
next
  case On_unload
  then show ?thesis using tracer_ok_unload [OF assms(2)] by simp
next
  case (On_callback call)
  then show ?thesis using tracer_ok_callback [OF assms(2)] by simp
next
  case (On_thread_start err name self bounds)
  then show ?thesis using tracer_ok_thread_start [OF assms(2)] by simp
next
  case (On_vm_init jni cwd methods classes)
  then show ?thesis using tracer_ok_vm_init [OF assms(2)] by simp
qed

lemma tracer_ok_reachable:
  assumes "(tracer_step he env)\<^sup>*\<^sup>* tracer_initial s"
  shows "tracer_ok s"
  using assms by induction (auto intro: tracer_ok_initial tracer_ok_step)

section \<open>A start on the image of a JVM\<close>

definition example_jvm_env :: jvm_env where
  "example_jvm_env = \<lparr>je_AddCapabilities = 0, je_getVariableAddress = image_address, je_memory = image_memory\<rparr>"

definition example_options :: profiler_options where
  "example_options =
     \<lparr>class_name = Some ''A'', method_name = Some ''b'', profiling_period = 1000000,
      threshold = 0, jar_path = None, output_path = Some ''/''\<rparr>"

lemma example_load:
  "Agent_OnLoad ''/'' example_jvm_env (Some ''method=A.b'') tracer_initial =
     Some (Inr 0, loaded_tracer image_cache example_options tracer_initial)"
  using parse_example
  by (simp add: Agent_OnLoad_def agent_create_def tracer_initial_def Let_def JVM_def example_jvm_env_def image_code_cache
      profiler_create_object_def example_options_def loaded_tracer_def heap_alloc_def)

lemma example_loaded: "(tracer_step he env)\<^sup>*\<^sup>* tracer_initial (loaded_tracer image_cache example_options tracer_initial)"
  by (rule r_into_rtranclp, rule On_load, rule example_load)

section \<open>Properties\<close>



text \<open>
  C40. Unloading is final and leaves a dangling pointer. After the agent is unloaded, callbacks do
  nothing and a further \<open>Agent_OnLoad\<close> returns 0 without an effect; but the static pointer
  \<open>Profiler::instance_\<close>, which owns the profiler too, still names the object that the agent has
  deleted.
\<close>

theorem unload_leaves_dangling_pointer:
  assumes "(tracer_step he env)\<^sup>*\<^sup>* tracer_initial s" and "tr_agent s = Some ag"
  shows "tracer_exec he env call (Agent_OnUnload s) = (Inr (), Agent_OnUnload s)
    \<and> Agent_OnLoad cwd je options (Agent_OnUnload s) = Some (Inr 0, Agent_OnUnload s)
    \<and> cells (tr_profilers s) (ag_profiler ag) \<noteq> None
    \<and> tr_instance (Agent_OnUnload s) = Some (ag_profiler ag)
    \<and> cells (tr_profilers (Agent_OnUnload s)) (ag_profiler ag) = None"
proof -
  have "agent_ok s ag" using tracer_ok_reachable [OF assms(1)] assms(2) by (simp add: tracer_ok_def)
  then show ?thesis
    using assms(2) unfolding tracer_exec_guarded
    by (auto simp: Agent_OnUnload_def agent_destroy_def Let_def guarded_def Agent_OnLoad_def agent_create_def agent_ok_def)
qed

theorem unload_leaves_dangling_pointer_witness:
  "tr_instance (Agent_OnUnload (loaded_tracer image_cache example_options tracer_initial)) = Some 0
   \<and> cells (tr_profilers (Agent_OnUnload (loaded_tracer image_cache example_options tracer_initial))) 0 = None"
  using unload_leaves_dangling_pointer [OF example_loaded [of example_hash example_env], where
      ag = "\<lparr>ag_code_cache = image_cache, ag_profiler = 0, ag_instrumentation = instrumentation_new example_options\<rparr>"]
  by (simp add: loaded_tracer_def heap_alloc_def tracer_initial_def heap_empty_def)



end
