(* ===== verification/Interleaving.thy ===== *)
theory Interleaving
  imports Tracer_Prelude
begin

text \<open>
  Threads that share a state. A program is a tree of atomic steps: what it does next may depend on
  the state it finds. Alone it is an action as in \<open>Tracer_Prelude\<close>; together with other programs it
  is interleaved with them step by step. The locale at the end is the interface between the
  programs of a component and the schedules: if every program keeps an invariant and a guarantee
  as long as the others do so, no schedule makes one of them fail in an unexpected way.
\<close>

section \<open>Programs\<close>

text \<open>
  \<open>Step u k\<close> changes the state from \<open>s\<close> to \<open>u s\<close> and goes on with \<open>k s\<close>, in one atomic step.
\<close>

datatype (dead 's, 'a) prog =
    Return 'a
  | Raise error
  | Step "'s \<Rightarrow> 's" "'s \<Rightarrow> ('s, 'a) prog"

primrec pbind :: "('s, 'a) prog \<Rightarrow> ('a \<Rightarrow> ('s, 'b) prog) \<Rightarrow> ('s, 'b) prog" where
  "pbind (Return x) f = f x"
| "pbind (Raise e) f = Raise e"
| "pbind (Step u k) f = Step u (\<lambda>s. pbind (k s) f)"

primrec run :: "('s, 'a) prog \<Rightarrow> ('s, 'a) action" where
  "run (Return x) s = (Inr x, s)"
| "run (Raise e) s = (Inl e, s)"
| "run (Step u k) s = run (k s) (u s)"

text \<open>One step that returns a value, one that may throw instead, and one that only reads.\<close>

definition atomic :: "('s \<Rightarrow> 'a \<times> 's) \<Rightarrow> ('s, 'a) prog" where
  "atomic op = Step (\<lambda>s. snd (op s)) (\<lambda>s. Return (fst (op s)))"

definition attempt :: "('s \<Rightarrow> 'a result \<times> 's) \<Rightarrow> ('s, 'a) prog" where
  "attempt op = Step (\<lambda>s. snd (op s)) (\<lambda>s. case fst (op s) of Inl e \<Rightarrow> Raise e | Inr x \<Rightarrow> Return x)"

definition observe :: "('s \<Rightarrow> 'a) \<Rightarrow> ('s, 'a) prog" where
  "observe f = Step (\<lambda>s. s) (\<lambda>s. Return (f s))"

definition modify :: "('s \<Rightarrow> 's) \<Rightarrow> ('s, unit) prog" where
  "modify u = Step u (\<lambda>s. Return ())"

named_theorems run_simps \<open>the result of a program that runs alone\<close>

lemma run_pbind [run_simps]: "run (pbind p f) s = abind (run p s) (\<lambda>x. run (f x))"
  by (induction p arbitrary: s) simp_all

lemma run_atomic [run_simps]: "run (atomic op) s = (Inr (fst (op s)), snd (op s))"
  by (simp add: atomic_def)

lemma run_attempt [run_simps]: "run (attempt op) s = op s"
  by (cases "op s") (simp add: attempt_def split: sum.splits)

lemma run_observe [run_simps]: "run (observe f) s = (Inr (f s), s)"
  by (simp add: observe_def)

lemma run_modify [run_simps]: "run (modify u) s = (Inr (), u s)"
  by (simp add: modify_def)

section \<open>Schedules\<close>

text \<open>
  A thread is idle or runs the program of some event. \<open>start\<close> says which events may begin on which
  thread; the environment may change the state as well. A thread whose program has raised an error
  does not go on.
\<close>

type_synonym ('i, 'e, 's) pool = "('i \<Rightarrow> ('e \<times> ('s, unit) prog) option) \<times> 's"

inductive pool_step ::
  "('e \<Rightarrow> ('s, unit) prog) \<Rightarrow> ('i \<Rightarrow> 'e \<Rightarrow> 's \<Rightarrow> bool) \<Rightarrow> ('s \<Rightarrow> 's \<Rightarrow> bool) \<Rightarrow>
     ('i, 'e, 's) pool \<Rightarrow> ('i, 'e, 's) pool \<Rightarrow> bool"
  for prog_of start env where
  Begin: "\<lbrakk>ps i = None; start i ev s\<rbrakk> \<Longrightarrow> pool_step prog_of start env (ps, s) (ps(i \<mapsto> (ev, prog_of ev)), s)"
| Advance: "ps i = Some (ev, Step u k) \<Longrightarrow> pool_step prog_of start env (ps, s) (ps(i \<mapsto> (ev, k s)), u s)"
| Finish: "ps i = Some (ev, Return x) \<Longrightarrow> pool_step prog_of start env (ps, s) (ps(i := None), s)"
| Environment: "env s s' \<Longrightarrow> pool_step prog_of start env (ps, s) (ps, s')"

inductive_cases pool_stepE: "pool_step prog_of start env (ps, s) (ps', s')"

text \<open>A schedule as a list of decisions, so that it can be executed.\<close>

datatype ('i, 'e) decision = Start 'i 'e | Go 'i

fun decide ::
  "('e \<Rightarrow> ('s, unit) prog) \<Rightarrow> ('i \<Rightarrow> 'e \<Rightarrow> 's \<Rightarrow> bool) \<Rightarrow> ('i, 'e) decision \<Rightarrow>
     ('i, 'e, 's) pool \<Rightarrow> ('i, 'e, 's) pool option" where
  "decide prog_of start (Start i ev) (ps, s) =
     (case ps i of
        None \<Rightarrow> if start i ev s then Some (ps(i \<mapsto> (ev, prog_of ev)), s) else None
      | Some _ \<Rightarrow> None)"
| "decide prog_of start (Go i) (ps, s) =
     (case ps i of
        Some (ev, Step u k) \<Rightarrow> Some (ps(i \<mapsto> (ev, k s)), u s)
      | Some (ev, Return x) \<Rightarrow> Some (ps(i := None), s)
      | _ \<Rightarrow> None)"

fun schedule ::
  "('e \<Rightarrow> ('s, unit) prog) \<Rightarrow> ('i \<Rightarrow> 'e \<Rightarrow> 's \<Rightarrow> bool) \<Rightarrow> ('i, 'e) decision list \<Rightarrow>
     ('i, 'e, 's) pool \<Rightarrow> ('i, 'e, 's) pool option" where
  "schedule prog_of start [] x = Some x"
| "schedule prog_of start (d # ds) x = Option.bind (decide prog_of start d x) (schedule prog_of start ds)"

lemma decide_step: "decide prog_of start d x = Some y \<Longrightarrow> pool_step prog_of start env x y"
  by (cases "(prog_of, start, d, x)" rule: decide.cases)
    (auto split: option.splits prod.splits prog.splits if_splits intro: pool_step.intros)

lemma schedule_steps:
  "schedule prog_of start ds x = Some y \<Longrightarrow> (pool_step prog_of start env)\<^sup>*\<^sup>* x y"
proof (induction ds arbitrary: x)
  case (Cons d ds)
  then obtain z where "decide prog_of start d x = Some z" "schedule prog_of start ds z = Some y"
    by (auto simp: bind_eq_Some_conv)
  with Cons.IH decide_step show ?case by (meson converse_rtranclp_into_rtranclp)
qed simp

text \<open>The event a thread has failed in at the end of a schedule, and its error.\<close>

definition failure :: "'i \<Rightarrow> ('i, 'e, 's) pool option \<Rightarrow> ('e \<times> error) option" where
  "failure i x =
     (case x of
        None \<Rightarrow> None
      | Some (ps, s) \<Rightarrow> (case ps i of Some (ev, Raise e) \<Rightarrow> Some (ev, e) | _ \<Rightarrow> None))"

lemma failure_reached:
  assumes "failure i (schedule prog_of start ds x) = Some (ev, e)"
  obtains ps s where "(pool_step prog_of start env)\<^sup>*\<^sup>* x (ps, s)" and "ps i = Some (ev, Raise e)"
proof -
  obtain ps s where "schedule prog_of start ds x = Some (ps, s)" "ps i = Some (ev, Raise e)"
    using assms by (auto simp: failure_def split: option.splits prog.splits)
  with schedule_steps that show ?thesis by metis
qed

lemma outcomeE:
  assumes "case x of None \<Rightarrow> False | Some (ps, s) \<Rightarrow> P ps s"
  obtains ps s where "x = Some (ps, s)" and "P ps s"
  using assms by (auto split: option.splits)

section \<open>Reasoning about one thread among others\<close>

text \<open>
  \<open>safe\<close>: whatever the other threads do within the rely \<open>R\<close>, every step of the program keeps the
  invariant \<open>I\<close> and stays within the guarantee \<open>G\<close>, an error it raises is one of \<open>E\<close>, and its result
  satisfies \<open>Q\<close>.
\<close>

primrec safe ::
  "('s \<Rightarrow> bool) \<Rightarrow> ('s \<Rightarrow> 's \<Rightarrow> bool) \<Rightarrow> ('s \<Rightarrow> 's \<Rightarrow> bool) \<Rightarrow> (error \<Rightarrow> bool) \<Rightarrow> ('s, 'a) prog \<Rightarrow>
     ('a \<Rightarrow> 's \<Rightarrow> bool) \<Rightarrow> 's \<Rightarrow> bool" where
  "safe I R G E (Return x) Q s \<longleftrightarrow> (\<forall>s'. I s' \<longrightarrow> R s s' \<longrightarrow> Q x s')"
| "safe I R G E (Raise e) Q s \<longleftrightarrow> E e"
| "safe I R G E (Step u k) Q s \<longleftrightarrow>
     (\<forall>s'. I s' \<longrightarrow> R s s' \<longrightarrow> I (u s') \<and> G s' (u s') \<and> safe I R G E (k s') Q (u s'))"

lemma safe_weaken:
  "safe I R G E p P s \<Longrightarrow> (\<And>x s. P x s \<Longrightarrow> Q x s) \<Longrightarrow> safe I R G E p Q s"
  by (induction p arbitrary: s) auto

text \<open>
  Many programs need no assertion between their steps: each step keeps the invariant and the
  guarantee on its own.
\<close>

primrec bounded ::
  "('s \<Rightarrow> bool) \<Rightarrow> ('s \<Rightarrow> 's \<Rightarrow> bool) \<Rightarrow> (error \<Rightarrow> bool) \<Rightarrow> ('s, 'a) prog \<Rightarrow> bool" where
  "bounded I G E (Return x) \<longleftrightarrow> True"
| "bounded I G E (Raise e) \<longleftrightarrow> E e"
| "bounded I G E (Step u k) \<longleftrightarrow> (\<forall>s. I s \<longrightarrow> I (u s) \<and> G s (u s) \<and> bounded I G E (k s))"

named_theorems bounded_rules \<open>programs whose steps need no assertions\<close>

lemma bounded_Return [bounded_rules]: "bounded I G E (Return x)"
  by simp

lemma bounded_Raise [bounded_rules]: "E e \<Longrightarrow> bounded I G E (Raise e)"
  by simp

lemma bounded_pbind [bounded_rules]:
  assumes "bounded I G E p" and "\<And>x. bounded I G E (f x)"
  shows "bounded I G E (pbind p f)"
  using assms(1)
proof (induction p)
  case (Step u k)
  then show ?case unfolding pbind.simps bounded.simps by blast
qed (use assms(2) in simp_all)

lemma bounded_if [bounded_rules]:
  "(b \<Longrightarrow> bounded I G E p) \<Longrightarrow> (\<not> b \<Longrightarrow> bounded I G E q) \<Longrightarrow> bounded I G E (if b then p else q)"
  by simp

lemma bounded_option [bounded_rules]:
  "(x = None \<Longrightarrow> bounded I G E p) \<Longrightarrow> (\<And>a. x = Some a \<Longrightarrow> bounded I G E (q a)) \<Longrightarrow>
     bounded I G E (case x of None \<Rightarrow> p | Some a \<Rightarrow> q a)"
  by (cases x) simp_all

lemma bounded_modify: "(\<And>s. I s \<Longrightarrow> I (u s) \<and> G s (u s)) \<Longrightarrow> bounded I G E (modify u)"
  by (simp add: modify_def)

lemma bounded_atomic: "(\<And>s. I s \<Longrightarrow> I (snd (op s)) \<and> G s (snd (op s))) \<Longrightarrow> bounded I G E (atomic op)"
  by (simp add: atomic_def)

lemma bounded_attempt:
  assumes "\<And>s. I s \<Longrightarrow> I (snd (op s)) \<and> G s (snd (op s)) \<and> (\<forall>e. fst (op s) = Inl e \<longrightarrow> E e)"
  shows "bounded I G E (attempt op)"
  using assms by (auto simp: attempt_def split: sum.splits)

lemma bounded_observe: "(\<And>s. I s \<Longrightarrow> G s s) \<Longrightarrow> bounded I G E (observe f)"
  by (simp add: observe_def)

text \<open>
  What the steps of a program do to the state, apart from the invariant. A program that is safe and
  whose steps are in a relation is also safe with the relation as part of its guarantee.
\<close>

primrec steps_in :: "('s \<Rightarrow> bool) \<Rightarrow> ('s \<Rightarrow> 's \<Rightarrow> bool) \<Rightarrow> ('s, 'a) prog \<Rightarrow> bool" where
  "steps_in I H (Return x) \<longleftrightarrow> True"
| "steps_in I H (Raise e) \<longleftrightarrow> True"
| "steps_in I H (Step u k) \<longleftrightarrow> (\<forall>s. I s \<longrightarrow> H s (u s) \<and> steps_in I H (k s))"

named_theorems steps_rules \<open>programs whose steps are in a relation\<close>

lemma steps_in_done [steps_rules]: "steps_in I H (Return x)" "steps_in I H (Raise e)"
  by simp_all

lemma steps_in_pbind [steps_rules]:
  assumes "steps_in I H p" and "\<And>x. steps_in I H (f x)"
  shows "steps_in I H (pbind p f)"
  using assms(1)
proof (induction p)
  case (Step u k)
  then show ?case unfolding pbind.simps steps_in.simps by blast
qed (use assms(2) in simp_all)

lemma steps_in_if [steps_rules]: "steps_in I H p \<Longrightarrow> steps_in I H q \<Longrightarrow> steps_in I H (if b then p else q)"
  by simp

lemma steps_in_option [steps_rules]:
  "steps_in I H p \<Longrightarrow> (\<And>a. steps_in I H (q a)) \<Longrightarrow> steps_in I H (case x of None \<Rightarrow> p | Some a \<Rightarrow> q a)"
  by (cases x) simp_all

lemma steps_in_sum [steps_rules]:
  "(\<And>e. steps_in I H (p e)) \<Longrightarrow> (\<And>a. steps_in I H (q a)) \<Longrightarrow> steps_in I H (case x of Inl e \<Rightarrow> p e | Inr a \<Rightarrow> q a)"
  by (cases x) simp_all

lemma steps_in_prod [steps_rules]: "(\<And>a b. steps_in I H (q a b)) \<Longrightarrow> steps_in I H (case x of (a, b) \<Rightarrow> q a b)"
  by (cases x) simp

lemma steps_in_single:
  "(\<And>s. I s \<Longrightarrow> H s (u s)) \<Longrightarrow> steps_in I H (modify u)"
  "(\<And>s. I s \<Longrightarrow> H s (snd (op s))) \<Longrightarrow> steps_in I H (atomic op)"
  "(\<And>s. I s \<Longrightarrow> H s (snd (op' s))) \<Longrightarrow> steps_in I H (attempt op')"
  "(\<And>s. I s \<Longrightarrow> H s s) \<Longrightarrow> steps_in I H (observe f)"
  by (auto simp: modify_def atomic_def attempt_def observe_def split: sum.splits)

lemma safe_strengthen:
  assumes "safe I R G E p Q s" and "steps_in I H p"
  shows "safe I (\<lambda>s s'. R s s' \<and> S s s') (\<lambda>s s'. G s s' \<and> H s s') E p Q s"
  using assms
proof (induction p arbitrary: s)
  case (Step u k)
  then show ?case unfolding safe.simps steps_in.simps by blast
qed simp_all

locale rely_guarantee =
  fixes I :: "'s \<Rightarrow> bool" and R G :: "'i \<Rightarrow> 's \<Rightarrow> 's \<Rightarrow> bool"
  assumes rely_refl: "R i s s"
    and rely_trans: "R i s s' \<Longrightarrow> R i s' s'' \<Longrightarrow> R i s s''"
    and guarantee_refl: "G i s s"
    and guarantee_rely: "i \<noteq> j \<Longrightarrow> G i s s' \<Longrightarrow> R j s s'"
begin

lemma safe_stable:
  assumes "safe I (R i) (G i) E p Q s" and "R i s s'"
  shows "safe I (R i) (G i) E p Q s'"
  using assms rely_trans [OF assms(2)] by (cases p) auto

lemma safe_pbind:
  assumes "safe I (R i) (G i) E p P s" and "I s"
    and "\<And>x s'. I s' \<Longrightarrow> P x s' \<Longrightarrow> safe I (R i) (G i) E (f x) Q s'"
  shows "safe I (R i) (G i) E (pbind p f) Q s"
  using assms(1,2)
proof (induction p arbitrary: s)
  case (Return x)
  with rely_refl have "P x s" by simp
  with Return.prems(2) assms(3) show ?case by simp
qed auto

text \<open>A fact that neither the thread nor the others destroy stays with the program.\<close>

lemma safe_frame:
  assumes "safe I (R i) (G i) E p Q s" and "F s"
    and "\<And>s s'. I s' \<Longrightarrow> F s \<Longrightarrow> R i s s' \<Longrightarrow> F s'" and "\<And>s s'. I s' \<Longrightarrow> F s \<Longrightarrow> G i s s' \<Longrightarrow> F s'"
  shows "safe I (R i) (G i) E p (\<lambda>x s. Q x s \<and> F s) s"
  using assms(1,2)
proof (induction p arbitrary: s)
  case (Return x)
  then show ?case unfolding safe.simps using assms(3) by blast
next
  case (Step u k)
  have "F (u s')" if s': "I s'" "R i s s'" for s'
  proof (rule assms(4))
    show "F s'" by (rule assms(3) [OF s'(1) Step.prems(2) s'(2)])
    show "I (u s')" "G i s' (u s')" using Step.prems(1) s' unfolding safe.simps by blast+
  qed
  with Step.prems(1) Step.IH [OF rangeI] show ?case unfolding safe.simps by blast
qed simp

text \<open>
  Assertions about a program: from every state of the invariant that satisfies \<open>P\<close> it is safe with
  the result \<open>Q\<close>. For a single step the assertions have to be stable under the rely.
\<close>

definition stable :: "'i \<Rightarrow> ('s \<Rightarrow> bool) \<Rightarrow> bool" where
  "stable i P \<longleftrightarrow> (\<forall>s s'. I s \<longrightarrow> I s' \<longrightarrow> P s \<longrightarrow> R i s s' \<longrightarrow> P s')"

definition triple ::
  "'i \<Rightarrow> (error \<Rightarrow> bool) \<Rightarrow> ('s \<Rightarrow> bool) \<Rightarrow> ('s, 'a) prog \<Rightarrow> ('a \<Rightarrow> 's \<Rightarrow> bool) \<Rightarrow> bool" where
  "triple i E P p Q \<longleftrightarrow> (\<forall>s. I s \<longrightarrow> P s \<longrightarrow> safe I (R i) (G i) E p Q s)"

lemma stable_const [simp]: "stable i (\<lambda>_. b)"
  by (simp add: stable_def)

lemma stable_conj: "stable i P \<Longrightarrow> stable i Q \<Longrightarrow> stable i (\<lambda>s. P s \<and> Q s)"
  unfolding stable_def by blast

lemma stable_imp: "(b \<Longrightarrow> stable i P) \<Longrightarrow> stable i (\<lambda>s. b \<longrightarrow> P s)"
  unfolding stable_def by blast

lemma triple_bind:
  assumes "triple i E P p M" and "\<And>x. triple i E (M x) (f x) Q"
  shows "triple i E P (pbind p f) Q"
  using assms safe_pbind unfolding triple_def by metis

lemma triple_Return:
  assumes "stable i (Q x)" and "\<And>s. I s \<Longrightarrow> P s \<Longrightarrow> Q x s"
  shows "triple i E P (Return x) Q"
  unfolding triple_def safe.simps using assms unfolding stable_def by blast

lemma triple_Raise: "(\<And>s. I s \<Longrightarrow> P s \<Longrightarrow> E e) \<Longrightarrow> triple i E P (Raise e) Q"
  unfolding triple_def safe.simps by blast

lemma triple_Step:
  assumes "stable i P" and "\<And>s. I s \<Longrightarrow> P s \<Longrightarrow> I (u s) \<and> G i s (u s) \<and> safe I (R i) (G i) E (k s) Q (u s)"
  shows "triple i E P (Step u k) Q"
  unfolding triple_def safe.simps using assms unfolding stable_def by blast

lemma triple_attempt:
  assumes "stable i P" and "\<And>x. stable i (Q x)"
    and "\<And>s. I s \<Longrightarrow> P s \<Longrightarrow> I (snd (op s)) \<and> G i s (snd (op s))
      \<and> (case fst (op s) of Inl e \<Rightarrow> E e | Inr x \<Rightarrow> Q x (snd (op s)))"
  shows "triple i E P (attempt op) Q"
  unfolding attempt_def using assms(1)
proof (rule triple_Step)
  fix s
  assume "I s" "P s"
  from assms(3) [OF this] assms(2)
  show "I (snd (op s)) \<and> G i s (snd (op s))
    \<and> safe I (R i) (G i) E (case fst (op s) of Inl e \<Rightarrow> Raise e | Inr x \<Rightarrow> Return x) Q (snd (op s))"
    by (auto simp: stable_def split: sum.splits)
qed

lemma triple_single:
  assumes "stable i P" and "\<And>x. stable i (Q x)"
    and "\<And>s. I s \<Longrightarrow> P s \<Longrightarrow> I (u s) \<and> G i s (u s) \<and> Q (f s) (u s)"
  shows "triple i E P (Step u (\<lambda>s. Return (f s))) Q"
  using assms(1)
proof (rule triple_Step)
  fix s
  assume "I s" "P s"
  from assms(3) [OF this] assms(2)
  show "I (u s) \<and> G i s (u s) \<and> safe I (R i) (G i) E (Return (f s)) Q (u s)"
    unfolding safe.simps stable_def by blast
qed

lemma triple_atomic:
  assumes "stable i P" and "\<And>x. stable i (Q x)"
    and "\<And>s. I s \<Longrightarrow> P s \<Longrightarrow> I (snd (op s)) \<and> G i s (snd (op s)) \<and> Q (fst (op s)) (snd (op s))"
  shows "triple i E P (atomic op) Q"
  unfolding atomic_def using assms by (rule triple_single)

lemma triple_observe:
  assumes "stable i P" and "\<And>x. stable i (Q x)" and "\<And>s. I s \<Longrightarrow> P s \<Longrightarrow> Q (f s) s"
  shows "triple i E P (observe f) Q"
  unfolding observe_def using assms(1,2) by (rule triple_single) (use assms(3) guarantee_refl in blast)

lemma triple_modify:
  assumes "stable i P" and "stable i (Q ())"
    and "\<And>s. I s \<Longrightarrow> P s \<Longrightarrow> I (u s) \<and> G i s (u s) \<and> Q () (u s)"
  shows "triple i E P (modify u) Q"
  unfolding modify_def using assms(1) by (rule triple_single) (use assms(2,3) in simp_all)

lemma triple_frame:
  assumes "triple i E P p Q" and "\<And>s s'. I s' \<Longrightarrow> F s \<Longrightarrow> R i s s' \<Longrightarrow> F s'"
    and "\<And>s s'. I s' \<Longrightarrow> F s \<Longrightarrow> G i s s' \<Longrightarrow> F s'"
  shows "triple i E (\<lambda>s. P s \<and> F s) p (\<lambda>x s. Q x s \<and> F s)"
  unfolding triple_def
proof (intro allI impI)
  fix s
  assume "I s" and "P s \<and> F s"
  with assms(1) have "safe I (R i) (G i) E p Q s" "F s" by (simp_all add: triple_def)
  then show "safe I (R i) (G i) E p (\<lambda>x s. Q x s \<and> F s) s" using assms(2,3) by (rule safe_frame)
qed

lemma bounded_safe:
  "bounded I (G i) E p \<Longrightarrow> safe I (R i) (G i) E p (\<lambda>_ _. True) s"
proof (induction p arbitrary: s)
  case (Step u k)
  then show ?case unfolding safe.simps bounded.simps by blast
qed simp_all

lemma triple_bounded: "bounded I (G i) E p \<Longrightarrow> triple i E P p (\<lambda>_ _. True)"
  unfolding triple_def using bounded_safe by blast

lemma triple_pre: "triple i E P p Q \<Longrightarrow> (\<And>s. I s \<Longrightarrow> P' s \<Longrightarrow> P s) \<Longrightarrow> triple i E P' p Q"
  unfolding triple_def by blast

text \<open>A condition on the state that does not depend on it can be assumed.\<close>

lemma triple_given: "(b \<Longrightarrow> triple i E P p Q) \<Longrightarrow> triple i E (\<lambda>s. P s \<and> b) p Q"
  unfolding triple_def by blast

lemma triple_if: "(b \<Longrightarrow> triple i E (\<lambda>_. True) p Q) \<Longrightarrow> triple i E (\<lambda>_. b) p Q"
  unfolding triple_def by blast

lemma triple_post: "triple i E P p M \<Longrightarrow> (\<And>x s. M x s \<Longrightarrow> Q x s) \<Longrightarrow> triple i E P p Q"
  using safe_weaken unfolding triple_def by metis

text \<open>
  Every thread of a pool is safe, and stays so: its own steps by the definition, the steps of the
  others because their guarantee is within its rely.
\<close>

definition pool_safe :: "('i \<Rightarrow> 'e \<Rightarrow> error \<Rightarrow> bool) \<Rightarrow> ('i, 'e, 's) pool \<Rightarrow> bool" where
  "pool_safe E x \<longleftrightarrow>
     I (snd x)
     \<and> (\<forall>i ev p. fst x i = Some (ev, p) \<longrightarrow> safe I (R i) (G i) (E i ev) p (\<lambda>_ _. True) (snd x))"

lemma pool_safeD:
  assumes "pool_safe E x"
  shows "I (snd x)" and "fst x i = Some (ev, Raise e) \<Longrightarrow> E i ev e"
  using assms unfolding pool_safe_def by (blast, metis safe.simps(2))

lemma pool_safe_step:
  assumes "pool_step prog_of start env x y" and "pool_safe E x"
    and start: "\<And>i ev s. I s \<Longrightarrow> start i ev s \<Longrightarrow> safe I (R i) (G i) (E i ev) (prog_of ev) (\<lambda>_ _. True) s"
    and env: "\<And>s s' i. I s \<Longrightarrow> env s s' \<Longrightarrow> I s' \<and> R i s s'"
  shows "pool_safe E y"
  using assms(1,2)
proof (induction rule: pool_step.induct)
  case (Begin ps i ev s)
  then show ?case using start [of s i ev] by (auto simp: pool_safe_def)
next
  case (Advance ps i ev u k s)
  then have s: "I s" and "safe I (R i) (G i) (E i ev) (Step u k) (\<lambda>_ _. True) s"
    unfolding pool_safe_def fst_conv snd_conv by blast+
  then have u: "I (u s) \<and> G i s (u s) \<and> safe I (R i) (G i) (E i ev) (k s) (\<lambda>_ _. True) (u s)"
    using rely_refl unfolding safe.simps by blast
  have "safe I (R j) (G j) (E j ev') p (\<lambda>_ _. True) (u s)" if "ps j = Some (ev', p)" "j \<noteq> i" for j ev' p
  proof (rule safe_stable)
    show "safe I (R j) (G j) (E j ev') p (\<lambda>_ _. True) s"
      using Advance.prems that(1) unfolding pool_safe_def fst_conv snd_conv by blast
    show "R j s (u s)" using that(2) u by (intro guarantee_rely [of i j]) auto
  qed
  with u show ?case by (simp add: pool_safe_def)
next
  case (Finish ps i ev x s)
  then show ?case by (auto simp: pool_safe_def split: if_splits)
next
  case (Environment s s' ps)
  then have s: "I s" and all: "\<And>i ev p. ps i = Some (ev, p) \<Longrightarrow> safe I (R i) (G i) (E i ev) p (\<lambda>_ _. True) s"
    unfolding pool_safe_def fst_conv snd_conv by blast+
  have "safe I (R i) (G i) (E i ev) p (\<lambda>_ _. True) s'" if "ps i = Some (ev, p)" for i ev p
    by (rule safe_stable [OF all [OF that]]) (use env [OF s Environment(1)] in blast)
  with env [OF s Environment(1)] show ?case by (simp add: pool_safe_def)
qed

lemma pool_safe_steps:
  assumes "(pool_step prog_of start env)\<^sup>*\<^sup>* (\<lambda>_. None, s0) y" and "I s0"
    and "\<And>i ev s. I s \<Longrightarrow> start i ev s \<Longrightarrow> safe I (R i) (G i) (E i ev) (prog_of ev) (\<lambda>_ _. True) s"
    and "\<And>s s' i. I s \<Longrightarrow> env s s' \<Longrightarrow> I s' \<and> R i s s'"
  shows "pool_safe E y"
  using assms(1)
proof (induction rule: rtranclp_induct)
  case base
  then show ?case using assms(2) by (simp add: pool_safe_def)
next
  case (step y z)
  with pool_safe_step assms(3,4) show ?case by blast
qed

text \<open>What every guarantee and the environment imply of a step holds of a schedule.\<close>

lemma pool_step_within:
  assumes "pool_step prog_of start env x y" and "pool_safe E x" and "\<And>s. H s s"
    and "\<And>i s s'. G i s s' \<Longrightarrow> H s s'" and "\<And>s s'. I s \<Longrightarrow> env s s' \<Longrightarrow> H s s'"
  shows "H (snd x) (snd y)"
  using assms(1,2)
proof (induction rule: pool_step.induct)
  case (Advance ps i ev u k s)
  then have "I s" and "safe I (R i) (G i) (E i ev) (Step u k) (\<lambda>_ _. True) s"
    unfolding pool_safe_def fst_conv snd_conv by blast+
  then have "G i s (u s)" using rely_refl unfolding safe.simps by blast
  then show ?case unfolding snd_conv by (rule assms(4))
next
  case (Environment s s' ps)
  then have "I s" by (simp add: pool_safe_def)
  with Environment(1) show ?case unfolding snd_conv by (intro assms(5))
qed (simp_all add: assms(3))

lemma pool_steps_within:
  assumes "(pool_step prog_of start env)\<^sup>*\<^sup>* x y" and "pool_safe E x" and "\<And>s. H s s"
    and "\<And>s s' s''. H s s' \<Longrightarrow> H s' s'' \<Longrightarrow> H s s''"
    and "\<And>i s s'. G i s s' \<Longrightarrow> H s s'" and "\<And>s s'. I s \<Longrightarrow> env s s' \<Longrightarrow> H s s'"
    and "\<And>i ev s. I s \<Longrightarrow> start i ev s \<Longrightarrow> safe I (R i) (G i) (E i ev) (prog_of ev) (\<lambda>_ _. True) s"
    and "\<And>s s' i. I s \<Longrightarrow> env s s' \<Longrightarrow> I s' \<and> R i s s'"
  shows "pool_safe E y \<and> H (snd x) (snd y)"
  using assms(1)
proof (induction rule: rtranclp_induct)
  case base
  then show ?case using assms(2,3) by blast
next
  case (step y z)
  have "pool_safe E z" by (rule pool_safe_step [OF step(2) conjunct1 [OF step(3)] assms(7,8)])
  moreover have "H (snd y) (snd z)"
    by (rule pool_step_within [where H = H, OF step(2) conjunct1 [OF step(3)] assms(3,5,6)])
  ultimately show ?case using step(3) assms(4) by blast
qed

text \<open>
  One thread runs one program and begins nothing else: when it has ended, its postcondition holds
  and goes on to hold.
\<close>

definition follows :: "('i \<Rightarrow> 'e \<Rightarrow> error \<Rightarrow> bool) \<Rightarrow> 'i \<Rightarrow> 'e \<Rightarrow> ('s \<Rightarrow> bool) \<Rightarrow> ('i, 'e, 's) pool \<Rightarrow> bool" where
  "follows E i ev Q x \<longleftrightarrow>
     pool_safe E x
     \<and> (case fst x i of
          None \<Rightarrow> Q (snd x)
        | Some (ev', p) \<Rightarrow> ev' = ev \<and> safe I (R i) (G i) (E i ev) p (\<lambda>_. Q) (snd x))"

lemma follows_rely:
  assumes "follows E i ev Q (ps, s)" and "stable i Q" and "R i s s'" and "pool_safe E (ps', s')" and "ps' i = ps i"
  shows "follows E i ev Q (ps', s')"
proof -
  have "I s" "I s'" using assms(1,4) by (simp_all add: follows_def pool_safe_def)
  show ?thesis
  proof (cases "ps i")
    case None
    with assms(1) have "Q s" by (simp add: follows_def)
    with \<open>I s\<close> \<open>I s'\<close> assms(2,3) have "Q s'" unfolding stable_def by blast
    with None assms(4,5) show ?thesis by (simp add: follows_def)
  next
    case (Some evp)
    obtain ev' p where evp: "evp = (ev', p)" by (cases evp)
    with Some assms(1) have "ev' = ev" "safe I (R i) (G i) (E i ev) p (\<lambda>_. Q) s" by (simp_all add: follows_def)
    with safe_stable [OF this(2) assms(3)] Some evp assms(4,5) show ?thesis by (simp add: follows_def)
  qed
qed

lemma follows_advance:
  assumes "ps j = Some (ev', Step u k)" and "follows E i ev Q (ps, s)" and "stable i Q"
    and "pool_safe E (ps(j \<mapsto> (ev', k s)), u s)"
  shows "follows E i ev Q (ps(j \<mapsto> (ev', k s)), u s)"
proof -
  have s: "I s" and j: "safe I (R j) (G j) (E j ev') (Step u k) (\<lambda>_ _. True) s"
    using assms(1,2) unfolding follows_def pool_safe_def fst_conv snd_conv by blast+
  show ?thesis
  proof (cases "j = i")
    case True
    then have "ev' = ev" "safe I (R i) (G i) (E i ev) (Step u k) (\<lambda>_. Q) s"
      using assms(1,2) by (simp_all add: follows_def)
    with s rely_refl True assms(4) show ?thesis unfolding follows_def safe.simps by simp
  next
    case False
    have "G j s (u s)" using j s rely_refl unfolding safe.simps by blast
    then have "R i s (u s)" using False by (rule guarantee_rely [rotated])
    with False assms(3,4) show ?thesis by (intro follows_rely [OF assms(2)]) simp_all
  qed
qed

lemma follows_step:
  assumes "pool_step prog_of (\<lambda>j ev s. j \<noteq> i \<and> start j ev s) env x y" and "follows E i ev Q x" and "stable i Q"
    and start: "\<And>i ev s. I s \<Longrightarrow> start i ev s \<Longrightarrow> safe I (R i) (G i) (E i ev) (prog_of ev) (\<lambda>_ _. True) s"
    and env: "\<And>s s' i. I s \<Longrightarrow> env s s' \<Longrightarrow> I s' \<and> R i s s'"
  shows "follows E i ev Q y"
proof -
  have "pool_safe E x" using assms(2) by (simp add: follows_def)
  then have y: "pool_safe E y" using assms(1) start env by (intro pool_safe_step [OF assms(1)]) blast+
  from assms(1) \<open>pool_safe E x\<close> y assms(2) show ?thesis
  proof (induction rule: pool_step.induct)
    case (Begin ps j ev' s)
    then have "(ps(j \<mapsto> (ev', prog_of ev'))) i = ps i" by auto
    with Begin.prems(3,2) assms(3) rely_refl show ?case by (intro follows_rely [OF Begin.prems(3)])
  next
    case (Advance ps j ev' u k s)
    show ?case by (rule follows_advance [OF Advance(1) Advance.prems(3) assms(3) Advance.prems(2)])
  next
    case (Finish ps j ev' r s)
    then have s: "I s" by (simp add: pool_safe_def)
    show ?case
    proof (cases "j = i")
      case True
      with Finish s rely_refl show ?thesis by (auto simp: follows_def)
    next
      case False
      with Finish.prems assms(3) rely_refl show ?thesis by (intro follows_rely [OF Finish.prems(3)]) simp_all
    qed
  next
    case (Environment s s' ps)
    then have "I s" by (simp add: pool_safe_def)
    with env Environment assms(3) show ?case by (intro follows_rely [OF Environment.prems(3)]) simp_all
  qed
qed

lemma follows_steps:
  assumes "(pool_step prog_of (\<lambda>j ev s. j \<noteq> i \<and> start j ev s) env)\<^sup>*\<^sup>* x y" and "follows E i ev Q x" and "stable i Q"
    and "\<And>i ev s. I s \<Longrightarrow> start i ev s \<Longrightarrow> safe I (R i) (G i) (E i ev) (prog_of ev) (\<lambda>_ _. True) s"
    and "\<And>s s' i. I s \<Longrightarrow> env s s' \<Longrightarrow> I s' \<and> R i s s'"
  shows "follows E i ev Q y"
  using assms(1)
proof (induction rule: rtranclp_induct)
  case (step y z)
  show ?case by (rule follows_step [OF step(2) step(3) assms(3-5)])
qed (rule assms(2))

end

end
