(* ===== verification/Atomic_Handlers.thy ===== *)
theory Atomic_Handlers
  imports Interleaving Profiler_Invariant
begin

text \<open>
  The event handlers once more, one step per critical section. A call on a container of
  \<open>concurrentCollections\<close> takes the lock of that container and releases it before it returns, so
  that an operation of the storage that makes two calls can be interrupted between them. Reading or
  writing fields of an object through a pointer takes no lock and is a step as well. Drawing the
  trace file is one step: it sees one state of the storage.
\<close>

section \<open>Steps on the parts of the profiler\<close>

definition on_storage :: "(trace_storage \<Rightarrow> 'a \<times> trace_storage) \<Rightarrow> profiler \<Rightarrow> 'a \<times> profiler" where
  "on_storage op pf = (let (x, s) = op (pf_storage pf) in (x, pf\<lparr>pf_storage := s\<rparr>))"

definition on_tables :: "(method_tables \<Rightarrow> 'a \<times> method_tables) \<Rightarrow> profiler \<Rightarrow> 'a \<times> profiler" where
  "on_tables op pf = (let (x, mt) = op (pf_tables pf) in (x, pf\<lparr>pf_tables := mt\<rparr>))"

definition storage_reads :: "(trace_storage \<Rightarrow> 'a) \<Rightarrow> (profiler, 'a) prog" where
  "storage_reads f = observe (\<lambda>pf. f (pf_storage pf))"

definition storage_does :: "(trace_storage \<Rightarrow> trace_storage) \<Rightarrow> (profiler, unit) prog" where
  "storage_does u = modify (\<lambda>pf. pf\<lparr>pf_storage := u (pf_storage pf)\<rparr>)"

definition tables_do :: "(method_tables \<Rightarrow> method_tables) \<Rightarrow> (profiler, unit) prog" where
  "tables_do u = modify (\<lambda>pf. pf\<lparr>pf_tables := u (pf_tables pf)\<rparr>)"

lemma on_storage_simps [simp]:
  "fst (on_storage op pf) = fst (op (pf_storage pf))"
  "snd (on_storage op pf) = pf\<lparr>pf_storage := snd (op (pf_storage pf))\<rparr>"
  by (simp_all add: on_storage_def split_def Let_def)

lemma on_tables_simps [simp]:
  "fst (on_tables op pf) = fst (op (pf_tables pf))"
  "snd (on_tables op pf) = pf\<lparr>pf_tables := snd (op (pf_tables pf))\<rparr>"
  by (simp_all add: on_tables_def split_def Let_def)

section \<open>The operations of the storage\<close>

definition insert_coroutine :: "trace_time \<Rightarrow> trace_time \<Rightarrow> jlong \<Rightarrow> trace_storage \<Rightarrow> trace_storage" where
  "insert_coroutine t1 t2 c s =
     (let (m, h) = om_insert c (coroutine_info_new t1 t2) (coroutine_info_map s) (coroutine_infos s)
      in s\<lparr>coroutine_info_map := m, coroutine_infos := h\<rparr>)"

definition createCoroutineInfo_steps :: "trace_time \<Rightarrow> trace_time \<Rightarrow> jlong \<Rightarrow> (profiler, unit) prog" where
  "createCoroutineInfo_steps t1 t2 c =
     pbind (storage_reads (\<lambda>s. cm_contains c (coroutine_info_map s))) (\<lambda>known.
     if \<not> known then storage_does (insert_coroutine t1 t2 c) else Return ())"

text \<open>\<open>get\<close> binds a missing key to a null pointer.\<close>

definition get_coroutine :: "jlong \<Rightarrow> trace_storage \<Rightarrow> ptr \<times> trace_storage" where
  "get_coroutine c s =
     (let (p, m) = cm_get None c (coroutine_info_map s) in (p, s\<lparr>coroutine_info_map := m\<rparr>))"

definition getCoroutineInfo_steps :: "jlong \<Rightarrow> (profiler, ptr) prog" where
  "getCoroutineInfo_steps c =
     pbind (storage_reads (\<lambda>s. cm_contains c (coroutine_info_map s))) (\<lambda>known.
     if known then atomic (on_storage (get_coroutine c)) else Return None)"

definition push_suspension :: "suspension_info \<Rightarrow> addr \<Rightarrow> trace_storage \<Rightarrow> trace_storage" where
  "push_suspension suspension c s =
     (let (a, h) = heap_alloc suspension (suspensions s)
      in s\<lparr>suspensions := h,
           coroutine_infos :=
             heap_update c (\<lambda>ci. ci\<lparr>ci_suspensions_list := cl_push_back a (ci_suspensions_list ci)\<rparr>)
               (coroutine_infos s)\<rparr>)"

definition addSuspensionInfo_steps :: "suspension_info \<Rightarrow> (profiler, unit) prog" where
  "addSuspensionInfo_steps suspension =
     pbind (attempt (on_storage (\<lambda>s. (cm_at (si_coroutine_id suspension) (coroutine_info_map s), s)))) (\<lambda>p.
     case p of
       None \<Rightarrow> Raise (Null_dereference ''addSuspensionInfo'')
     | Some c \<Rightarrow> storage_does (push_suspension suspension c))"

definition find_open_suspension :: "addr \<Rightarrow> trace_storage \<Rightarrow> ptr result \<times> trace_storage" where
  "find_open_suspension c s =
     (case cells (coroutine_infos s) c of
        None \<Rightarrow> Inl (Null_dereference ''getLastSuspensionInfo'')
      | Some ci \<Rightarrow> Inr (cl_find (suspension_open (suspensions s)) (ci_suspensions_list ci)), s)"

definition getLastSuspensionInfo_steps :: "jlong \<Rightarrow> (profiler, ptr) prog" where
  "getLastSuspensionInfo_steps c =
     pbind (storage_reads (\<lambda>s. cm_contains c (coroutine_info_map s))) (\<lambda>known.
     if known then
       pbind (atomic (on_storage (get_coroutine c))) (\<lambda>p.
       case p of
         None \<Rightarrow> Raise (Null_dereference ''getLastSuspensionInfo'')
       | Some a \<Rightarrow> attempt (on_storage (find_open_suspension a)))
     else Return None)"

definition addChildCoroutine_steps :: "jlong \<Rightarrow> jlong \<Rightarrow> (profiler, unit) prog" where
  "addChildCoroutine_steps c parent =
     pbind (atomic (on_storage (getChildCoroutines parent))) (\<lambda>p.
     case p of
       None \<Rightarrow> Raise (Null_dereference ''addChildCoroutine'')
     | Some a \<Rightarrow> storage_does (\<lambda>s. s\<lparr>child_lists := heap_update a (cl_push_back c) (child_lists s)\<rparr>))"

definition insert_samples :: "jlong \<Rightarrow> processed_trace_record \<Rightarrow> trace_storage \<Rightarrow> trace_storage" where
  "insert_samples c r s =
     (let (m, h) = om_insert c (cl_push_back r cl_new) (processed_map s) (processed_lists s)
      in s\<lparr>processed_map := m, processed_lists := h\<rparr>)"

definition addProcessedTrace_steps :: "jlong \<Rightarrow> processed_trace_record \<Rightarrow> (profiler, unit) prog" where
  "addProcessedTrace_steps c r =
     pbind (storage_reads (\<lambda>s. cm_contains c (processed_map s))) (\<lambda>known.
     if known then
       pbind (attempt (on_storage (\<lambda>s. (cm_at c (processed_map s), s)))) (\<lambda>p.
       case p of
         None \<Rightarrow> Raise (Null_dereference ''addProcessedTrace'')
       | Some a \<Rightarrow>
           storage_does (\<lambda>s. s\<lparr>processed_lists := heap_update a (cl_push_back r) (processed_lists s)\<rparr>))
     else storage_does (insert_samples c r))"

text \<open>\<open>pop_front\<close> on the queue of raw samples takes the lock twice.\<close>

definition pop_raw :: "trace_storage \<Rightarrow> raw_call_trace_record result \<times> trace_storage" where
  "pop_raw s =
     (case cl_pop_front_locked (raw_list s) of
        Inl e \<Rightarrow> (Inl e, s)
      | Inr (r, l) \<Rightarrow> (Inr r, s\<lparr>raw_list := l\<rparr>))"

definition removeRawTraceHeader_steps :: "(profiler, raw_call_trace_record option) prog" where
  "removeRawTraceHeader_steps =
     pbind (storage_reads (\<lambda>s. cl_empty (raw_list s))) (\<lambda>empty.
     if empty then Return None else pbind (attempt (on_storage pop_raw)) (\<lambda>r. Return (Some r)))"

text \<open>\<open>gcFinish\<close>: \<open>back\<close>, the two critical sections of \<open>pop_front\<close>, the assignment, \<open>push_back\<close>.\<close>

definition pop_gc :: "trace_storage \<Rightarrow> unit result \<times> trace_storage" where
  "pop_gc s =
     (case cl_pop_front_locked (gc_events s) of
        Inl e \<Rightarrow> (Inl e, s)
      | Inr (_, l) \<Rightarrow> (Inr (), s\<lparr>gc_events := l\<rparr>))"

definition gcFinish_steps :: "trace_time \<Rightarrow> (profiler, unit) prog" where
  "gcFinish_steps now =
     pbind (attempt (on_storage (\<lambda>s. (cl_back (gc_events s), s)))) (\<lambda>e.
     pbind (storage_reads (\<lambda>s. cl_empty (gc_events s))) (\<lambda>empty.
     pbind (if empty then Return () else attempt (on_storage pop_gc)) (\<lambda>_.
     pbind (storage_does (\<lambda>s. s\<lparr>gc_heap := heap_update e (\<lambda>g. g\<lparr>gc_end_time := now\<rparr>) (gc_heap s)\<rparr>)) (\<lambda>_.
     storage_does (\<lambda>s. s\<lparr>gc_events := cl_push_back e (gc_events s)\<rparr>)))))"

text \<open>The two calls of the cleaner thread go through the four containers in turn.\<close>

definition mark_for_clean_steps :: "(profiler, unit) prog" where
  "mark_for_clean_steps =
     pbind (storage_does (\<lambda>s. s\<lparr>processed_map := cm_mark_current_values_for_clean (processed_map s)\<rparr>)) (\<lambda>_.
     pbind (storage_does (\<lambda>s. s\<lparr>child_coroutines_map := cm_mark_current_values_for_clean (child_coroutines_map s)\<rparr>)) (\<lambda>_.
     pbind (storage_does (\<lambda>s. s\<lparr>coroutine_info_map := cm_mark_current_values_for_clean (coroutine_info_map s)\<rparr>)) (\<lambda>_.
     storage_does (\<lambda>s. s\<lparr>gc_events := cl_mark_for_clean (gc_events s)\<rparr>))))"

definition clean_gc :: "trace_storage \<Rightarrow> unit result \<times> trace_storage" where
  "clean_gc s =
     (case cl_clean (gc_events s) of Inl e \<Rightarrow> (Inl e, s) | Inr l \<Rightarrow> (Inr (), s\<lparr>gc_events := l\<rparr>))"

definition clean_steps :: "(profiler, unit) prog" where
  "clean_steps =
     pbind (storage_does (\<lambda>s. s\<lparr>processed_map := cm_clean (processed_map s)\<rparr>)) (\<lambda>_.
     pbind (storage_does (\<lambda>s. s\<lparr>child_coroutines_map := cm_clean (child_coroutines_map s)\<rparr>)) (\<lambda>_.
     pbind (storage_does (\<lambda>s. s\<lparr>coroutine_info_map := cm_clean (coroutine_info_map s)\<rparr>)) (\<lambda>_.
     attempt (on_storage clean_gc))))"

section \<open>Naming frames\<close>

definition get_class :: "jmethodID \<Rightarrow> method_tables \<Rightarrow> string \<times> method_tables" where
  "get_class method mt =
     (let (c, m) = cm_get [] method (class_info_map mt) in (c, mt\<lparr>class_info_map := m\<rparr>))"

definition insert_class :: "jmethodID \<Rightarrow> string \<Rightarrow> method_tables \<Rightarrow> method_tables" where
  "insert_class method name mt =
     mt\<lparr>class_info_map := snd (cm_insert method name (class_info_map mt))\<rparr>"

definition get_method :: "jmethodID \<Rightarrow> method_tables \<Rightarrow> string \<times> method_tables" where
  "get_method method mt =
     (let (f, m) = cm_get [] method (method_info_map mt) in (f, mt\<lparr>method_info_map := m\<rparr>))"

definition insert_method :: "jmethodID \<Rightarrow> string \<Rightarrow> method_tables \<Rightarrow> method_tables" where
  "insert_method method name mt =
     mt\<lparr>method_info_map := snd (cm_insert method name (method_info_map mt))\<rparr>"

definition learn_class_steps :: "method_env \<Rightarrow> jmethodID \<Rightarrow> (profiler, unit) prog" where
  "learn_class_steps env method =
     (case GetClassSignature env method of
        None \<Rightarrow> Raise (Undefined_behaviour ''GetClassSignature'')
      | Some sig \<Rightarrow>
          (case class_of_signature sig of
             Inl e \<Rightarrow> Raise e
           | Inr name \<Rightarrow> tables_do (insert_class method name)))"

definition class_name_steps :: "method_env \<Rightarrow> jmethodID \<Rightarrow> (profiler, string) prog" where
  "class_name_steps env method =
     pbind (observe (\<lambda>pf. cm_contains method (class_info_map (pf_tables pf)))) (\<lambda>known.
     pbind (if known then Return () else learn_class_steps env method) (\<lambda>_.
     atomic (on_tables (get_class method))))"

definition processMethodInfo_steps :: "method_env \<Rightarrow> jmethodID \<Rightarrow> (profiler, stack_frame) prog" where
  "processMethodInfo_steps env method =
     pbind (observe (\<lambda>pf. cm_contains method (method_info_map (pf_tables pf)))) (\<lambda>known.
     if \<not> known then
       (case GetMethodName env method of
          None \<Rightarrow> Raise (Undefined_behaviour ''GetMethodName'')
        | Some (name, signature) \<Rightarrow>
            pbind (class_name_steps env method) (\<lambda>className.
            pbind (tables_do (insert_method method (name @ signature))) (\<lambda>_.
            pbind (atomic (on_tables (get_method method))) (\<lambda>f.
            Return \<lparr>sf_frame = f, sf_base = className\<rparr>))))
     else
       pbind (atomic (on_tables (get_method method))) (\<lambda>f.
       pbind (atomic (on_tables (get_class method))) (\<lambda>c.
       Return \<lparr>sf_frame = f, sf_base = c\<rparr>)))"

fun process_methods_steps :: "method_env \<Rightarrow> jmethodID list \<Rightarrow> (profiler, stack_frame list) prog" where
  "process_methods_steps env [] = Return []"
| "process_methods_steps env (m # ms) =
     pbind (processMethodInfo_steps env m) (\<lambda>f.
     pbind (process_methods_steps env ms) (\<lambda>fs. Return (f # fs)))"

definition processProfilerMethodInfo_steps ::
  "method_env \<Rightarrow> instruction_info \<Rightarrow> (profiler, stack_frame) prog" where
  "processProfilerMethodInfo_steps env info =
     (if java_frame info then
        (if instruction info \<noteq> 0 then processMethodInfo_steps env (instruction info)
         else Return \<lparr>sf_frame = ''unknown_java'', sf_base = ''''\<rparr>)
      else
        (case getNativeFunctionInfo env (instruction info) of
           Some (name, lib) \<Rightarrow> Return \<lparr>sf_frame = name, sf_base = lib\<rparr>
         | None \<Rightarrow> Return \<lparr>sf_frame = ''unknown_native'', sf_base = ''''\<rparr>))"

fun process_instructions_steps ::
  "method_env \<Rightarrow> instruction_info list \<Rightarrow> nat list \<Rightarrow> (profiler, stack_frame list) prog" where
  "process_instructions_steps env instrs [] = Return []"
| "process_instructions_steps env instrs (i # is) =
     (if length instrs \<le> i then Raise (Undefined_behaviour ''instructions[i]'')
      else pbind (processProfilerMethodInfo_steps env (instrs ! i)) (\<lambda>f.
           pbind (process_instructions_steps env instrs is) (\<lambda>fs. Return (f # fs))))"

definition record_frames_steps :: "method_env \<Rightarrow> raw_call_trace_record \<Rightarrow> (profiler, stack_frame list) prog" where
  "record_frames_steps env raw =
     (let indices = [0..<nat (sint (rr_trace_count raw))] in
      case rr_trace raw of
        None \<Rightarrow> if indices = [] then Return [] else Raise (Null_dereference ''trace'')
      | Some trace \<Rightarrow> process_instructions_steps env (at_instructions trace) indices)"

section \<open>The handlers\<close>

definition find_thread_steps :: "string \<Rightarrow> pthread_t \<Rightarrow> (profiler, addr) prog" where
  "find_thread_steps site self =
     pbind (observe (\<lambda>pf. findThread self (pf_jvm pf))) (\<lambda>p.
     case p of None \<Rightarrow> Raise (Null_dereference site) | Some a \<Rightarrow> Return a)"

definition count_traces :: "i32 \<Rightarrow> addr \<Rightarrow> (profiler, unit) prog" where
  "count_traces d a = modify (\<lambda>pf. pf\<lparr>pf_jvm := add_current_traces d a (pf_jvm pf)\<rparr>)"

definition traceStart_steps ::
  "hash_env \<Rightarrow> pthread_t \<Rightarrow> trace_time \<Rightarrow> trace_time \<Rightarrow> trace_time \<Rightarrow> jlong \<Rightarrow> (profiler, unit) prog" where
  "traceStart_steps he self t1 t2 start c =
     pbind (if c = -2 then createCoroutineInfo_steps t1 t2 (hash_thread_id he self) else Return ()) (\<lambda>_.
     pbind (find_thread_steps ''traceStart'' self) (\<lambda>a.
     pbind (count_traces 1 a) (\<lambda>_.
     pbind (storage_does (createChildCoroutineStorage (trace_id he self c))) (\<lambda>_.
     pbind (atomic (on_storage (addOngoingTraceInfo
              \<lparr>ti_coroutine_id = trace_id he self c, ti_start = start, ti_end = 0\<rparr>))) (\<lambda>added.
     if added then Return ()
     else Raise (Runtime_error (''Found trace that already started: '' @ to_string (sint (trace_id he self c)))))))))"

definition write_file :: "string \<Rightarrow> trace_info \<Rightarrow> profiler \<Rightarrow> unit result \<times> profiler" where
  "write_file path info pf =
     (case write_perfetto info (pf_storage pf) of
        Inl e \<Rightarrow> (Inl e, pf)
      | Inr ks \<Rightarrow> (Inr (), pf\<lparr>pf_files := pf_files pf @ [(path, ks)]\<rparr>))"

text \<open>\<open>output_counter.fetch_add(1)\<close> is one step, so that no two threads get the same file name.\<close>

definition next_file :: "profiler \<Rightarrow> string \<times> profiler" where
  "next_file pf = (trace_file pf, pf\<lparr>pf_output_counter := pf_output_counter pf + 1\<rparr>)"

definition finish_trace_steps :: "trace_info \<Rightarrow> (profiler, unit) prog" where
  "finish_trace_steps info =
     pbind (observe pf_threshold) (\<lambda>threshold.
     if sint (tt_minus (ti_end info) (ti_start info)) > sint threshold
     then pbind (atomic next_file) (\<lambda>path. attempt (write_file path info))
     else Return ())"

definition traceEnd_steps ::
  "hash_env \<Rightarrow> pthread_t \<Rightarrow> trace_time \<Rightarrow> usage_reading \<Rightarrow> trace_time \<Rightarrow> jlong \<Rightarrow> (profiler, unit) prog" where
  "traceEnd_steps he self now reading finish c =
     pbind (find_thread_steps ''traceEnd'' self) (\<lambda>a.
     pbind (count_traces (-1) a) (\<lambda>_.
     pbind (getCoroutineInfo_steps (trace_id he self c)) (\<lambda>p.
     case p of
       None \<Rightarrow> Return ()
     | Some ci \<Rightarrow>
         pbind (modify (charge_usage self now reading ci)) (\<lambda>_.
         pbind (atomic (on_storage (findOngoingTraceInfo (trace_id he self c)))) (\<lambda>info.
         pbind (storage_does (removeOngoingTraceInfo (ti_coroutine_id info))) (\<lambda>_.
         finish_trace_steps (info\<lparr>ti_end := finish\<rparr>)))))))"

definition coroutineCreated_steps ::
  "pthread_t \<Rightarrow> trace_time \<Rightarrow> trace_time \<Rightarrow> jlong \<Rightarrow> (profiler, unit) prog" where
  "coroutineCreated_steps self t1 t2 c =
     pbind (observe (\<lambda>pf. current_coroutine_id pf self)) (\<lambda>parent.
     pbind (createCoroutineInfo_steps t1 t2 c) (\<lambda>_.
     pbind (storage_reads (containsChildCoroutineStorage parent)) (\<lambda>traced.
     if traced then
       pbind (addChildCoroutine_steps c parent) (\<lambda>_. storage_does (createChildCoroutineStorage c))
     else Return ())))"

definition set_current :: "pthread_t \<Rightarrow> i64 \<Rightarrow> (profiler, unit) prog" where
  "set_current self c = modify (\<lambda>pf. pf\<lparr>current_coroutine_id := (current_coroutine_id pf)(self := c)\<rparr>)"

definition pause_coroutine_steps ::
  "pthread_t \<Rightarrow> trace_time \<Rightarrow> usage_reading \<Rightarrow> addr \<Rightarrow> (profiler, unit) prog" where
  "pause_coroutine_steps self now reading a =
     pbind (storage_reads (\<lambda>s. case cells (coroutine_infos s) a of
              None \<Rightarrow> False | Some ci \<Rightarrow> sint (ci_last_resume ci) > 0)) (\<lambda>running.
     if running then
       pbind (modify (charge_usage self now reading a)) (\<lambda>_.
       storage_does (update_coroutine a (\<lambda>ci. ci\<lparr>ci_last_resume := 0\<rparr>)))
     else Return ())"

definition record_suspension_steps ::
  "method_env \<Rightarrow> trace_time \<Rightarrow> jmethodID list \<Rightarrow> jlong \<Rightarrow> (profiler, unit) prog" where
  "record_suspension_steps env start methods c =
     pbind (process_methods_steps env methods) (\<lambda>frames.
     addSuspensionInfo_steps \<lparr>si_coroutine_id = c, si_start = start, si_end = 0, si_stack_trace = frames\<rparr>)"

definition coroutineSuspended_steps ::
  "method_env \<Rightarrow> pthread_t \<Rightarrow> trace_time \<Rightarrow> usage_reading \<Rightarrow> jmethodID list option \<Rightarrow> trace_time \<Rightarrow>
     jlong \<Rightarrow> (profiler, unit) prog" where
  "coroutineSuspended_steps env self now reading frames start c =
     pbind (set_current self NOT_FOUND) (\<lambda>_.
     pbind (getCoroutineInfo_steps c) (\<lambda>p.
     case p of
       None \<Rightarrow> Return ()
     | Some a \<Rightarrow>
         pbind (pause_coroutine_steps self now reading a) (\<lambda>_.
         case frames of
           None \<Rightarrow> Return ()
         | Some methods \<Rightarrow>
             if length (take suspension_stack_depth methods) \<ge> 1
             then record_suspension_steps env start (take suspension_stack_depth methods) c
             else Return ())))"

definition coroutineResumed_steps ::
  "pthread_t \<Rightarrow> usage_reading \<Rightarrow> trace_time \<Rightarrow> trace_time \<Rightarrow> jlong \<Rightarrow> (profiler, unit) prog" where
  "coroutineResumed_steps self reading now now' c =
     pbind (set_current self c) (\<lambda>_.
     pbind (getCoroutineInfo_steps c) (\<lambda>p.
     case p of
       None \<Rightarrow> Return ()
     | Some a \<Rightarrow>
         pbind (modify (\<lambda>pf. pf\<lparr>current_rusage :=
           (current_rusage pf)(self := update_perf_counters reading (current_rusage pf self))\<rparr>)) (\<lambda>_.
         pbind (storage_does (update_coroutine a (\<lambda>ci. ci\<lparr>ci_last_resume := now\<rparr>))) (\<lambda>_.
         pbind (getLastSuspensionInfo_steps c) (\<lambda>q.
         case q of
           None \<Rightarrow> Return ()
         | Some b \<Rightarrow> storage_does (update_suspension b (\<lambda>si. si\<lparr>si_end := now'\<rparr>)))))))"

definition coroutineCompleted_steps ::
  "pthread_t \<Rightarrow> trace_time \<Rightarrow> trace_time \<Rightarrow> usage_reading \<Rightarrow> jlong \<Rightarrow> (profiler, unit) prog" where
  "coroutineCompleted_steps self finish now reading c =
     pbind (set_current self NOT_FOUND) (\<lambda>_.
     pbind (getCoroutineInfo_steps c) (\<lambda>p.
     case p of
       None \<Rightarrow> Return ()
     | Some a \<Rightarrow>
         pbind (storage_does (update_coroutine a (\<lambda>ci. ci\<lparr>ci_end := finish\<rparr>))) (\<lambda>_.
         modify (charge_usage self now reading a))))"

text \<open>One round of the loop of \<open>processTraces\<close>; the result says whether there was a sample.\<close>

definition process_round_steps :: "method_env \<Rightarrow> (profiler, bool) prog" where
  "process_round_steps env =
     pbind removeRawTraceHeader_steps (\<lambda>r.
     case r of
       None \<Rightarrow> Return False
     | Some raw \<Rightarrow>
         pbind (attempt (\<lambda>pf. (thread_name (findThread (rr_thread raw) (pf_jvm pf)) (pf_jvm pf), pf))) (\<lambda>name.
         pbind (record_frames_steps env raw) (\<lambda>frames.
         pbind (addProcessedTrace_steps (rr_coroutine_id raw)
                  \<lparr>pr_stack_trace = frames, pr_thread_name = name, pr_time = rr_time raw\<rparr>) (\<lambda>_.
         Return True))))"

text \<open>
  The program of an event. The loop of \<open>processTraces\<close> is a sequence of such events, one for each
  round.
\<close>

fun handler_steps :: "hash_env \<Rightarrow> method_env \<Rightarrow> profiler_event \<Rightarrow> (profiler, unit) prog" where
  "handler_steps he env (Trace_start self t1 t2 start c) = traceStart_steps he self t1 t2 start c"
| "handler_steps he env (Trace_end self now r finish c) = traceEnd_steps he self now r finish c"
| "handler_steps he env (Coroutine_created self t1 t2 c) = coroutineCreated_steps self t1 t2 c"
| "handler_steps he env (Coroutine_suspended self now r frames start c) =
     coroutineSuspended_steps env self now r frames start c"
| "handler_steps he env (Coroutine_resumed self r now now' c) = coroutineResumed_steps self r now now' c"
| "handler_steps he env (Coroutine_completed self finish now r c) =
     coroutineCompleted_steps self finish now r c"
| "handler_steps he env (Gc_started now) = storage_does (storage_gcStart now)"
| "handler_steps he env (Gc_finished now) = gcFinish_steps now"
| "handler_steps he env (Sample time trace c) = storage_does (addRawTrace time trace c)"
| "handler_steps he env Process_traces = pbind (process_round_steps env) (\<lambda>_. Return ())"
| "handler_steps he env Cleaner_mark = mark_for_clean_steps"
| "handler_steps he env Cleaner_clean = clean_steps"

section \<open>Without interference the steps are the operations\<close>

lemmas steps_defs = storage_reads_def storage_does_def tables_do_def

lemma storage_id [simp]:
  "s\<lparr>coroutine_info_map := coroutine_info_map s\<rparr> = s"
  "s\<lparr>child_coroutines_map := child_coroutines_map s\<rparr> = s"
  "pf\<lparr>pf_storage := pf_storage pf\<rparr> = pf"
  "pf\<lparr>pf_tables := pf_tables pf\<rparr> = pf"
  by (cases s, simp, cases s, simp, cases pf, simp, cases pf, simp)

lemma cm_get_contains: "cm_contains k m \<Longrightarrow> cm_get d k m = (fst (cm_get d k m), m)"
  by (auto simp: cm_get_def cm_contains_def split: option.splits)

lemma run_createCoroutineInfo [run_simps]:
  "run (createCoroutineInfo_steps t1 t2 c) pf =
     (Inr (), pf\<lparr>pf_storage := createCoroutineInfo t1 t2 c (pf_storage pf)\<rparr>)"
  by (simp add: createCoroutineInfo_steps_def createCoroutineInfo_def insert_coroutine_def steps_defs run_simps)

lemma run_getCoroutineInfo [run_simps]:
  "run (getCoroutineInfo_steps c) pf = (Inr (getCoroutineInfo c (pf_storage pf)), pf)"
  by (simp add: getCoroutineInfo_steps_def getCoroutineInfo_def get_coroutine_def steps_defs run_simps Let_def
      split_def) (metis cm_get_contains snd_conv storage_id(1,3))

lemma run_addSuspensionInfo [run_simps]:
  "run (addSuspensionInfo_steps si) pf =
     (case addSuspensionInfo si (pf_storage pf) of
        Inl e \<Rightarrow> (Inl e, pf) | Inr s \<Rightarrow> (Inr (), pf\<lparr>pf_storage := s\<rparr>))"
  by (simp add: addSuspensionInfo_steps_def addSuspensionInfo_def push_suspension_def on_storage_def steps_defs run_simps
      rbind_def abind_def Let_def split_def split: sum.splits option.splits)

lemma run_getLastSuspensionInfo [run_simps]:
  "run (getLastSuspensionInfo_steps c) pf = (getLastSuspensionInfo c (pf_storage pf), pf)"
  using cm_get_contains [of c "coroutine_info_map (pf_storage pf)" None]
  by (auto simp: getLastSuspensionInfo_steps_def getLastSuspensionInfo_def get_coroutine_def
      find_open_suspension_def on_storage_def steps_defs run_simps Let_def split_def split: option.splits)

lemma run_addChildCoroutine:
  assumes "containsChildCoroutineStorage parent (pf_storage pf)"
  shows "run (addChildCoroutine_steps c parent) pf =
     (case addChildCoroutine c parent (pf_storage pf) of
        Inl e \<Rightarrow> (Inl e, pf) | Inr s \<Rightarrow> (Inr (), pf\<lparr>pf_storage := s\<rparr>))"
  using cm_get_contains [of parent "child_coroutines_map (pf_storage pf)" None] assms
  by (auto simp: addChildCoroutine_steps_def addChildCoroutine_def getChildCoroutines_def
      containsChildCoroutineStorage_def steps_defs run_simps Let_def split_def split: option.splits)

lemma run_addProcessedTrace [run_simps]:
  "run (addProcessedTrace_steps c r) pf =
     (case addProcessedTrace c r (pf_storage pf) of
        Inl e \<Rightarrow> (Inl e, pf) | Inr s \<Rightarrow> (Inr (), pf\<lparr>pf_storage := s\<rparr>))"
  by (auto simp: addProcessedTrace_steps_def addProcessedTrace_def insert_samples_def on_storage_def steps_defs
      run_simps rbind_def abind_def Let_def split_def split: sum.splits option.splits)

lemma run_removeRawTraceHeader [run_simps]:
  "run removeRawTraceHeader_steps pf =
     (case removeRawTraceHeader (pf_storage pf) of
        Inl e \<Rightarrow> (Inl e, pf) | Inr (r, s) \<Rightarrow> (Inr r, pf\<lparr>pf_storage := s\<rparr>))"
  by (auto simp: removeRawTraceHeader_steps_def removeRawTraceHeader_def cl_pop_front_def pop_raw_def
      on_storage_def steps_defs run_simps rbind_def abind_def Let_def split_def split: sum.splits)

lemma run_class_name [run_simps]:
  "run (class_name_steps env m) pf =
     (case class_name_of env m (pf_tables pf) of
        Inl e \<Rightarrow> (Inl e, pf) | Inr (c, mt) \<Rightarrow> (Inr c, pf\<lparr>pf_tables := mt\<rparr>))"
  by (auto simp: class_name_steps_def class_name_of_def learn_class_steps_def insert_class_def get_class_def
      on_tables_def steps_defs run_simps rbind_def abind_def Let_def split_def split: sum.splits option.splits)

lemma run_processMethodInfo [run_simps]:
  "run (processMethodInfo_steps env m) pf =
     (case processMethodInfo env m (pf_tables pf) of
        Inl e \<Rightarrow> (Inl e, pf) | Inr (f, mt) \<Rightarrow> (Inr f, pf\<lparr>pf_tables := mt\<rparr>))"
  by (auto simp: processMethodInfo_steps_def processMethodInfo_def get_method_def get_class_def
      insert_method_def on_tables_def steps_defs run_simps rbind_def abind_def Let_def split_def
      split: sum.splits option.splits)

lemma run_process_methods [run_simps]:
  "run (process_methods_steps env ms) pf =
     (case process_methods env ms (pf_tables pf) of (r, mt) \<Rightarrow> (r, pf\<lparr>pf_tables := mt\<rparr>))"
  by (induction ms arbitrary: pf)
    (auto simp: run_simps abind_def split_def split: sum.splits prod.splits)

lemma run_processProfilerMethodInfo [run_simps]:
  "run (processProfilerMethodInfo_steps env i) pf =
     (case processProfilerMethodInfo env i (pf_tables pf) of
        Inl e \<Rightarrow> (Inl e, pf) | Inr (f, mt) \<Rightarrow> (Inr f, pf\<lparr>pf_tables := mt\<rparr>))"
  by (auto simp: processProfilerMethodInfo_steps_def processProfilerMethodInfo_def run_simps
      split: option.splits)

lemma run_process_instructions [run_simps]:
  "run (process_instructions_steps env xs is) pf =
     (case process_instructions env xs is (pf_tables pf) of (r, mt) \<Rightarrow> (r, pf\<lparr>pf_tables := mt\<rparr>))"
  by (induction "is" arbitrary: pf)
    (auto simp: run_simps abind_def split_def split: sum.splits prod.splits)

lemma run_record_frames [run_simps]:
  "run (record_frames_steps env raw) pf =
     (case record_frames env raw (pf_tables pf) of (r, mt) \<Rightarrow> (r, pf\<lparr>pf_tables := mt\<rparr>))"
  by (simp add: record_frames_steps_def record_frames_def run_simps Let_def split: option.splits)

section \<open>Without interference the programs are the handlers\<close>

lemma run_find_thread [run_simps]:
  "run (find_thread_steps w self) pf =
     (case findThread self (pf_jvm pf) of
        None \<Rightarrow> (Inl (Null_dereference w), pf) | Some a \<Rightarrow> (Inr a, pf))"
  by (simp add: find_thread_steps_def run_simps split: option.splits)

lemma run_traceStart: "run (traceStart_steps he self t1 t2 start c) pf = traceStart he self t1 t2 start c pf"
  by (simp add: traceStart_steps_def traceStart_def trace_id_def count_traces_def steps_defs run_simps Let_def
      split_def split: option.splits)

lemma run_finish_trace [run_simps]:
  "run (finish_trace_steps info) pf =
     (if sint (tt_minus (ti_end info) (ti_start info)) > sint (pf_threshold pf) then write_trace info pf
      else (Inr (), pf))"
  by (simp add: finish_trace_steps_def write_trace_def write_file_def next_file_def run_simps Let_def
      split: sum.splits)

lemma run_traceEnd: "run (traceEnd_steps he self now r finish c) pf = traceEnd he self now r finish c pf"
  by (simp add: traceEnd_steps_def traceEnd_def findOngoingTrace_def removeOngoingTrace_def count_traces_def
      steps_defs run_simps Let_def split_def split: option.splits)

lemma run_coroutineCreated: "run (coroutineCreated_steps self t1 t2 c) pf = coroutineCreated self t1 t2 c pf"
  by (simp add: coroutineCreated_steps_def coroutineCreated_def run_addChildCoroutine abind_def steps_defs
      run_simps Let_def split_def split: sum.splits)

lemma run_pause_coroutine [run_simps]:
  "run (pause_coroutine_steps self now r a) pf = (Inr (), pause_coroutine self now r a pf)"
  by (simp add: pause_coroutine_steps_def pause_coroutine_def steps_defs run_simps Let_def split: option.splits)

lemma run_record_suspension [run_simps]:
  "run (record_suspension_steps env start ms c) pf = record_suspension env start ms c pf"
  by (simp add: record_suspension_steps_def record_suspension_def run_simps abind_def Let_def split_def
      split: sum.splits prod.splits)

lemma run_coroutineSuspended:
  "run (coroutineSuspended_steps env self now r frames start c) pf =
     coroutineSuspended env self now r frames start c pf"
  by (auto simp: coroutineSuspended_steps_def coroutineSuspended_def set_current_def run_simps Let_def
      split: option.splits)

lemma run_coroutineResumed:
  "run (coroutineResumed_steps self r now now' c) pf = coroutineResumed self r now now' c pf"
  by (simp add: coroutineResumed_steps_def coroutineResumed_def set_current_def steps_defs run_simps abind_def
      Let_def split: option.splits sum.splits)

lemma run_coroutineCompleted:
  "run (coroutineCompleted_steps self finish now r c) pf = coroutineCompleted self finish now r c pf"
  by (simp add: coroutineCompleted_steps_def coroutineCompleted_def set_current_def steps_defs run_simps Let_def
      split: option.splits)

lemma run_gcFinish: "run (gcFinish_steps now) pf = gcFinish now pf"
  by (cases "cl_list (gc_events (pf_storage pf))")
    (simp_all add: gcFinish_steps_def gcFinish_def storage_gcFinish_def gcFinish_take_def gcFinish_put_def
      pop_gc_def cl_back_def cl_pop_front_def cl_pop_front_locked_def cl_empty_def on_storage_def steps_defs
      run_simps Let_def)

lemma run_mark: "run mark_for_clean_steps pf = (Inr (), pf\<lparr>pf_storage := mark_for_clean (pf_storage pf)\<rparr>)"
  by (simp add: mark_for_clean_steps_def mark_for_clean_def steps_defs run_simps)

lemma run_clean:
  "run clean_steps pf =
     (case clean (pf_storage pf) of
        Inr s \<Rightarrow> (Inr (), pf\<lparr>pf_storage := s\<rparr>)
      | Inl e \<Rightarrow> (Inl e, pf\<lparr>pf_storage := (pf_storage pf)
          \<lparr>processed_map := cm_clean (processed_map (pf_storage pf)),
           child_coroutines_map := cm_clean (child_coroutines_map (pf_storage pf)),
           coroutine_info_map := cm_clean (coroutine_info_map (pf_storage pf))\<rparr>\<rparr>))"
  by (simp add: clean_steps_def clean_def clean_gc_def on_storage_def steps_defs run_simps Let_def
      split: sum.splits)

lemma run_process_round:
  "run (process_round_steps env) pf =
     (case removeRawTraceHeader (pf_storage pf) of
        Inl e \<Rightarrow> (Inl e, pf)
      | Inr (None, s) \<Rightarrow> (Inr False, pf\<lparr>pf_storage := s\<rparr>)
      | Inr (Some raw, s) \<Rightarrow> abind (process_record env raw (pf\<lparr>pf_storage := s\<rparr>)) (\<lambda>_ pf. (Inr True, pf)))"
  by (simp add: process_round_steps_def process_record_def run_simps abind_def Let_def split_def
      split: sum.splits option.splits prod.splits)

lemmas run_handlers = run_traceStart run_traceEnd run_coroutineCreated run_coroutineSuspended
  run_coroutineResumed run_coroutineCompleted run_gcFinish run_mark run_clean

section \<open>Properties\<close>



end
