(* ===== verification/Profiler_Threads.thy ===== *)
theory Profiler_Threads
  imports Atomic_Handlers Sample_Processing
begin

text \<open>
  What the threads of the tracer promise each other whatever else happens: threads are only added to
  the registry, and only the profiler thread takes samples from the queue. The two locales turn
  these promises into facts about the programs that read the registry and about the profiler thread;
  they are interpreted once for threads that only add to the maps of the storage, and once beside a
  cleaner that removes entries.
\<close>

section \<open>Promises\<close>

abbreviation anything :: "'s \<Rightarrow> bool" where
  "anything \<equiv> \<lambda>_. True"

definition jvm_grows :: "jvm_threads \<Rightarrow> jvm_threads \<Rightarrow> bool" where
  "jvm_grows j j' \<longleftrightarrow>
     (\<forall>tid a. findThread tid j = Some a \<longrightarrow>
        findThread tid j' = Some a \<and> thread_name (Some a) j' = thread_name (Some a) j)"

text \<open>Only the profiler thread takes samples from the queue.\<close>

definition raw_grows :: "profiler \<Rightarrow> profiler \<Rightarrow> bool" where
  "raw_grows pf pf' \<longleftrightarrow>
     (\<exists>rs. cl_list (raw_list (pf_storage pf')) = cl_list (raw_list (pf_storage pf)) @ rs)"

lemma jvm_grows_refl [simp]: "jvm_grows j j"
  by (simp add: jvm_grows_def)

lemma jvm_grows_trans: "jvm_grows j j' \<Longrightarrow> jvm_grows j' j'' \<Longrightarrow> jvm_grows j j''"
  unfolding jvm_grows_def by metis

lemma raw_grows_refl [simp]: "raw_grows pf pf"
  by (simp add: raw_grows_def)

lemma raw_grows_trans: "raw_grows pf pf' \<Longrightarrow> raw_grows pf' pf'' \<Longrightarrow> raw_grows pf pf''"
  by (auto simp: raw_grows_def)

lemma processed_of_grows:
  assumes "jvm_grows j j'" and "processed_of env j r \<noteq> None"
  shows "processed_of env j' r \<noteq> None"
proof -
  obtain a where a: "findThread (rr_thread r) j = Some a"
    using assms(2) by (cases "findThread (rr_thread r) j") (auto simp: processed_of_def thread_name_def)
  with assms(1) have "findThread (rr_thread r) j' = Some a" "thread_name (Some a) j' = thread_name (Some a) j"
    by (auto simp: jvm_grows_def)
  with a assms(2) show ?thesis by (simp add: processed_of_def)
qed

lemma find_append_Some: "find P xs = Some x \<Longrightarrow> find P (xs @ ys) = Some x"
  by (induction xs) (auto split: if_splits)

lemma jvm_grows_add:
  assumes "threads_ok j"
  shows "jvm_grows j (addCurrentThread err name tid b j)"
proof (cases "err = 0")
  case True
  let ?t = "thread_info_new name tid (fst b) (snd b)"
  have same: "cells (snd (heap_alloc ?t (thread_heap j))) a = cells (thread_heap j) a"
    if "a \<in> set (cl_list (threads j))" for a
    using assms that by (auto simp: threads_ok_def heap_simps)
  show ?thesis
    unfolding jvm_grows_def
  proof (intro allI impI)
    fix u a
    assume u: "findThread u j = Some a"
    then have f: "find (has_thread_id (thread_heap j) u) (cl_list (threads j)) = Some a"
      by (simp add: findThread_def cl_find_eq)
    have "find (has_thread_id (snd (heap_alloc ?t (thread_heap j))) u) (cl_list (threads j)) = Some a"
      unfolding f [symmetric] by (rule find_cong) (simp_all add: has_thread_id_def same)
    with same [OF findThread_Some(1) [OF u]] True
    show "findThread u (addCurrentThread err name tid b j) = Some a
      \<and> thread_name (Some a) (addCurrentThread err name tid b j) = thread_name (Some a) j"
      by (simp add: findThread_def cl_find_eq addCurrentThread_def Let_def split_def cl_push_back_def
          find_append_Some thread_name_def)
  qed
qed (simp add: addCurrentThread_def)

lemma processed_of_name:
  "processed_of env j raw = Some x \<Longrightarrow> \<exists>n. thread_name (findThread (rr_thread raw) j) j = Inr n"
  by (auto simp: processed_of_def split: sum.splits)

abbreviation registered :: "pthread_t \<Rightarrow> profiler \<Rightarrow> bool" where
  "registered tid pf \<equiv> \<exists>a. findThread tid (pf_jvm pf) = Some a"

definition sample_record :: "trace_time \<Rightarrow> async_trace \<Rightarrow> i64 \<Rightarrow> raw_call_trace_record" where
  "sample_record time trace c =
     raw_call_trace_record_new\<lparr>rr_time := time, rr_thread := at_thread_id trace, rr_trace := Some trace,
       rr_trace_count := at_size trace, rr_coroutine_id := c\<rparr>"

section \<open>Reading the registry\<close>

locale registry_reader = rely_guarantee I R G
  for I :: "profiler \<Rightarrow> bool" and R G :: "pthread_t \<Rightarrow> profiler \<Rightarrow> profiler \<Rightarrow> bool" +
  assumes rely_jvm: "R i pf pf' \<Longrightarrow> jvm_grows (pf_jvm pf) (pf_jvm pf')"
begin

lemma stable_registered: "stable i (registered tid)"
  unfolding stable_def using rely_jvm unfolding jvm_grows_def by blast

lemma stable_processed: "stable i (\<lambda>pf. \<exists>x. processed_of env (pf_jvm pf) raw = Some x)"
  unfolding stable_def using processed_of_grows [OF rely_jvm] by fastforce

lemma triple_find_thread: "triple i E (registered tid) (find_thread_steps w tid) (\<lambda>_. anything)"
  unfolding find_thread_steps_def
proof (rule triple_bind [where M = "\<lambda>p _. p \<noteq> None"])
  show "triple i E (registered tid) (observe (\<lambda>pf. findThread tid (pf_jvm pf))) (\<lambda>p _. p \<noteq> None)"
    using stable_registered by (rule triple_observe) auto
  show "triple i E (\<lambda>_. p \<noteq> None) (case p of None \<Rightarrow> Raise (Null_dereference w) | Some a \<Rightarrow> Return a)
      (\<lambda>_. anything)" for p
    by (cases p) (auto intro!: triple_Raise triple_Return)
qed

lemma triple_thread_name:
  "triple i E (\<lambda>pf. \<exists>x. processed_of env (pf_jvm pf) raw = Some x)
     (attempt (\<lambda>pf. (thread_name (findThread (rr_thread raw) (pf_jvm pf)) (pf_jvm pf), pf)))
     (\<lambda>_ _. \<exists>j. processed_of env j raw \<noteq> None)"
proof (rule triple_attempt [OF stable_processed])
  fix pf
  assume "I pf" and "\<exists>x. processed_of env (pf_jvm pf) raw = Some x"
  with processed_of_name guarantee_refl
  show "I (snd (thread_name (findThread (rr_thread raw) (pf_jvm pf)) (pf_jvm pf), pf))
    \<and> G i pf (snd (thread_name (findThread (rr_thread raw) (pf_jvm pf)) (pf_jvm pf), pf))
    \<and> (case fst (thread_name (findThread (rr_thread raw) (pf_jvm pf)) (pf_jvm pf), pf) of
         Inl e \<Rightarrow> E e | Inr n \<Rightarrow> \<exists>j. processed_of env j raw \<noteq> None)"
    by fastforce
qed simp_all

end

section \<open>The profiler thread\<close>

text \<open>
  The samples in the queue can be processed, only the profiler thread takes them out, and changing
  the queue keeps the invariant as long as its samples can be processed.
\<close>

locale sample_consumer = registry_reader I R G
  for I :: "profiler \<Rightarrow> bool" and R G :: "pthread_t \<Rightarrow> profiler \<Rightarrow> profiler \<Rightarrow> bool" +
  fixes env :: method_env and prof :: pthread_t
  assumes rely_raw: "R prof pf pf' \<Longrightarrow> raw_grows pf pf'"
    and queue_ok: "I pf \<Longrightarrow> \<forall>r\<in>set (cl_list (raw_list (pf_storage pf))). processed_of env (pf_jvm pf) r \<noteq> None"
    and queue_changes: "I pf \<Longrightarrow> \<forall>r\<in>set (cl_list l). processed_of env (pf_jvm pf) r \<noteq> None \<Longrightarrow>
      I (pf\<lparr>pf_storage := (pf_storage pf)\<lparr>raw_list := l\<rparr>\<rparr>)
      \<and> G prof pf (pf\<lparr>pf_storage := (pf_storage pf)\<lparr>raw_list := l\<rparr>\<rparr>)"
begin

abbreviation nameable :: "raw_call_trace_record \<Rightarrow> profiler \<Rightarrow> bool" where
  "nameable raw pf \<equiv> \<exists>x. processed_of env (pf_jvm pf) raw = Some x"

lemma triple_pop_raw:
  "triple prof E (\<lambda>pf. cl_list (raw_list (pf_storage pf)) \<noteq> []) (attempt (on_storage pop_raw)) nameable"
proof (rule triple_attempt)
  show "stable prof (\<lambda>pf. cl_list (raw_list (pf_storage pf)) \<noteq> [])"
    using rely_raw by (fastforce simp: stable_def raw_grows_def)
next
  fix pf
  assume ok: "I pf" and "cl_list (raw_list (pf_storage pf)) \<noteq> []"
  then obtain r rs where l: "cl_list (raw_list (pf_storage pf)) = r # rs"
    by (cases "cl_list (raw_list (pf_storage pf))") auto
  with queue_ok [OF ok] queue_changes [OF ok, of "(raw_list (pf_storage pf))\<lparr>cl_list := rs\<rparr>"]
  show "I (snd (on_storage pop_raw pf)) \<and> G prof pf (snd (on_storage pop_raw pf))
    \<and> (case fst (on_storage pop_raw pf) of Inl e \<Rightarrow> E e | Inr raw \<Rightarrow> nameable raw (snd (on_storage pop_raw pf)))"
    by (simp add: pop_raw_def cl_pop_front_locked_def)
qed (rule stable_processed)

lemma triple_removeRawTraceHeader:
  "triple prof E anything removeRawTraceHeader_steps (\<lambda>r pf. \<forall>raw. r = Some raw \<longrightarrow> nameable raw pf)"
  unfolding removeRawTraceHeader_steps_def storage_reads_def
proof (rule triple_bind)
  let ?full = "\<lambda>pf. cl_list (raw_list (pf_storage pf)) \<noteq> []"
  have "stable prof (\<lambda>pf. empty \<or> ?full pf)" for empty
    using rely_raw by (fastforce simp: stable_def raw_grows_def)
  then show "triple prof E anything (observe (\<lambda>pf. cl_empty (raw_list (pf_storage pf)))) (\<lambda>empty pf. empty \<or> ?full pf)"
    by (intro triple_observe) (simp_all add: cl_empty_def)
  have "triple prof E (nameable raw) (Return (Some raw)) (\<lambda>r pf. \<forall>raw. r = Some raw \<longrightarrow> nameable raw pf)" for raw
    by (rule triple_Return) (simp_all add: stable_processed)
  from triple_bind [OF triple_pop_raw this]
  show "triple prof E (\<lambda>pf. empty \<or> ?full pf)
      (if empty then Return None else pbind (attempt (on_storage pop_raw)) (\<lambda>r. Return (Some r)))
      (\<lambda>r pf. \<forall>raw. r = Some raw \<longrightarrow> nameable raw pf)" for empty
    by (auto intro!: triple_Return)
qed

text \<open>A round is as safe as naming the frames and filing the sample are.\<close>

lemma triple_process_round:
  assumes name: "\<And>raw j. processed_of env j raw \<noteq> None \<Longrightarrow> triple prof E anything (record_frames_steps env raw) (\<lambda>_. anything)"
    and deliver: "\<And>c r. triple prof E anything (addProcessedTrace_steps c r) (\<lambda>_. anything)"
  shows "triple prof E anything (process_round_steps env) (\<lambda>_. anything)"
  unfolding process_round_steps_def
proof (rule triple_bind [OF triple_removeRawTraceHeader])
  fix r :: "raw_call_trace_record option"
  let ?rest = "\<lambda>raw n. pbind (record_frames_steps env raw) (\<lambda>frames.
    pbind (addProcessedTrace_steps (rr_coroutine_id raw)
      \<lparr>pr_stack_trace = frames, pr_thread_name = n, pr_time = rr_time raw\<rparr>) (\<lambda>_. Return True))"
  have "triple prof E anything (Return True) (\<lambda>_. anything)" by (rule triple_Return) simp_all
  then have "triple prof E anything (?rest raw n) (\<lambda>_. anything)" if "processed_of env j raw \<noteq> None" for raw n j
    by (intro triple_bind [OF name [OF that]] triple_bind [OF deliver])
  then have "triple prof E (\<lambda>_. \<exists>j. processed_of env j raw \<noteq> None) (?rest raw n) (\<lambda>_. anything)" for raw n
    unfolding triple_def by blast
  from triple_bind [OF triple_thread_name this]
  show "triple prof E (\<lambda>pf. \<forall>raw. r = Some raw \<longrightarrow> nameable raw pf)
      (case r of None \<Rightarrow> Return False
       | Some raw \<Rightarrow>
           pbind (attempt (\<lambda>pf. (thread_name (findThread (rr_thread raw) (pf_jvm pf)) (pf_jvm pf), pf))) (?rest raw))
      (\<lambda>_. anything)"
    by (cases r) (auto intro: triple_Return)
qed

lemma triple_sample:
  "triple prof E (nameable (sample_record time trace c)) (storage_does (addRawTrace time trace c)) (\<lambda>_. anything)"
  unfolding storage_does_def
proof (rule triple_modify [OF stable_processed])
  fix pf
  assume ok: "I pf" and "nameable (sample_record time trace c) pf"
  with queue_ok [OF ok] queue_changes [OF ok, of "cl_push_back (sample_record time trace c) (raw_list (pf_storage pf))"]
  show "I (pf\<lparr>pf_storage := addRawTrace time trace c (pf_storage pf)\<rparr>)
    \<and> G prof pf (pf\<lparr>pf_storage := addRawTrace time trace c (pf_storage pf)\<rparr>) \<and> True"
    by (simp add: addRawTrace_def sample_record_def cl_push_back_def Let_def)
qed simp

end

end
