(* ===== verification/Handler_Concurrency.thy ===== *)
theory Handler_Concurrency
  imports Profiler_Threads
begin

text \<open>
  Any number of threads that run event handlers at the same time, the profiler thread, the
  collector and the marking half of the cleaner. As long as nothing is removed, what one thread has
  found in a map another thread leaves there, and the handlers keep their promises. The relations
  below say what the threads rely on and guarantee; the handlers are proved safe one critical
  section after the other.
\<close>

section \<open>What the threads rely on\<close>

definition map_grows :: "'k ptr_map \<Rightarrow> 'k ptr_map \<Rightarrow> bool" where
  "map_grows m m' \<longleftrightarrow> (\<forall>k a. cm_find k m = Some (Some a) \<longrightarrow> cm_find k m' = Some (Some a))"

definition storage_grows :: "trace_storage \<Rightarrow> trace_storage \<Rightarrow> bool" where
  "storage_grows s s' \<longleftrightarrow>
     map_grows (coroutine_info_map s) (coroutine_info_map s')
     \<and> map_grows (child_coroutines_map s) (child_coroutines_map s')
     \<and> map_grows (processed_map s) (processed_map s') \<and> gc_heap s \<le> gc_heap s'"

definition tables_grow :: "method_tables \<Rightarrow> method_tables \<Rightarrow> bool" where
  "tables_grow mt mt' \<longleftrightarrow>
     (\<forall>m. cm_contains m (method_info_map mt) \<longrightarrow> cm_contains m (method_info_map mt'))
     \<and> (\<forall>m. cm_contains m (class_info_map mt) \<longrightarrow> cm_contains m (class_info_map mt'))"

definition grows :: "profiler \<Rightarrow> profiler \<Rightarrow> bool" where
  "grows pf pf' \<longleftrightarrow>
     storage_grows (pf_storage pf) (pf_storage pf') \<and> jvm_grows (pf_jvm pf) (pf_jvm pf')
     \<and> tables_grow (pf_tables pf) (pf_tables pf')"

definition rely :: "pthread_t \<Rightarrow> pthread_t \<Rightarrow> profiler \<Rightarrow> profiler \<Rightarrow> bool" where
  "rely prof i pf pf' \<longleftrightarrow> grows pf pf' \<and> (i = prof \<longrightarrow> raw_grows pf pf')"

definition guar :: "pthread_t \<Rightarrow> pthread_t \<Rightarrow> profiler \<Rightarrow> profiler \<Rightarrow> bool" where
  "guar prof i pf pf' \<longleftrightarrow> grows pf pf' \<and> (i \<noteq> prof \<longrightarrow> raw_grows pf pf')"

definition conc_ok :: "method_env \<Rightarrow> profiler \<Rightarrow> bool" where
  "conc_ok env pf \<longleftrightarrow>
     profiler_ok pf \<and> tables_ok env (pf_tables pf)
     \<and> (\<forall>r\<in>set (cl_list (raw_list (pf_storage pf))). processed_of env (pf_jvm pf) r \<noteq> None)"

lemmas grows_defs = grows_def storage_grows_def map_grows_def jvm_grows_def tables_grow_def

lemma grows_refl [simp]: "grows pf pf"
  by (simp add: grows_defs)

lemma grows_trans: "grows pf pf' \<Longrightarrow> grows pf' pf'' \<Longrightarrow> grows pf pf''"
  unfolding grows_def storage_grows_def map_grows_def tables_grow_def by (auto intro: order_trans jvm_grows_trans)

interpretation growing: rely_guarantee "conc_ok env" "rely prof" "guar prof" for env prof
  by unfold_locales (auto simp: rely_def guar_def intro: grows_trans raw_grows_trans)

interpretation consumer: sample_consumer "conc_ok env" "rely prof" "guar prof" env prof for env prof
proof unfold_locales
  fix pf pf' i
  show "rely prof i pf pf' \<Longrightarrow> jvm_grows (pf_jvm pf) (pf_jvm pf')" by (simp add: rely_def grows_def)
  show "rely prof prof pf pf' \<Longrightarrow> raw_grows pf pf'" by (simp add: rely_def)
next
  fix pf
  assume ok: "conc_ok env pf"
  let ?raw = "\<lambda>l. pf\<lparr>pf_storage := (pf_storage pf)\<lparr>raw_list := l\<rparr>\<rparr>"
  show "\<forall>r\<in>set (cl_list (raw_list (pf_storage pf))). processed_of env (pf_jvm pf) r \<noteq> None"
    using ok by (simp add: conc_ok_def)
  show "conc_ok env (?raw l) \<and> guar prof prof pf (?raw l)"
    if "\<forall>r\<in>set (cl_list l). processed_of env (pf_jvm pf) r \<noteq> None" for l
    using ok that
    by (simp add: conc_ok_def guar_def profiler_ok_def storage_ok_def grows_def storage_grows_def map_grows_def
        tables_grow_def)
qed

lemma conc_okD:
  assumes "conc_ok env pf"
  shows "profiler_ok pf" and "storage_ok (pf_storage pf)" and "tables_ok env (pf_tables pf)"
    and "r \<in> set (cl_list (raw_list (pf_storage pf))) \<Longrightarrow> processed_of env (pf_jvm pf) r \<noteq> None"
  using assms by (auto simp: conc_ok_def profiler_ok_def)

section \<open>Facts that stay true\<close>

definition has_object :: "'k \<Rightarrow> 'k ptr_map \<Rightarrow> bool" where
  "has_object k m \<longleftrightarrow> (\<exists>a. cm_find k m = Some (Some a))"

lemma has_object_contains: "om_no_null m \<Longrightarrow> cm_contains k m = has_object k m"
  by (cases "cm_find k m"; cases "the (cm_find k m)")
    (auto simp: has_object_def om_no_null_def cm_contains_find)

lemma has_object_get:
  assumes "has_object k m"
  shows "snd (cm_get None k m) = m" and "fst (cm_get None k m) \<noteq> None" and "cm_at k m = Inr (fst (cm_get None k m))"
  using assms by (auto simp: has_object_def cm_get_present cm_at_find fst_cm_get)

lemma map_grows_object: "map_grows m m' \<Longrightarrow> has_object k m \<Longrightarrow> has_object k m'"
  by (auto simp: map_grows_def has_object_def)

text \<open>The facts the handlers use are stable under \<open>grows\<close>.\<close>

lemma grows_facts:
  assumes "grows pf pf'"
  shows "has_object c (coroutine_info_map (pf_storage pf)) \<Longrightarrow> has_object c (coroutine_info_map (pf_storage pf'))"
    and "has_object c (child_coroutines_map (pf_storage pf)) \<Longrightarrow> has_object c (child_coroutines_map (pf_storage pf'))"
    and "has_object c (processed_map (pf_storage pf)) \<Longrightarrow> has_object c (processed_map (pf_storage pf'))"
    and "findThread tid (pf_jvm pf) \<noteq> None \<Longrightarrow> findThread tid (pf_jvm pf') \<noteq> None"
    and "processed_of env (pf_jvm pf) r \<noteq> None \<Longrightarrow> processed_of env (pf_jvm pf') r \<noteq> None"
    and "cm_contains m (method_info_map (pf_tables pf)) \<Longrightarrow> cm_contains m (method_info_map (pf_tables pf'))"
    and "cm_contains m (class_info_map (pf_tables pf)) \<Longrightarrow> cm_contains m (class_info_map (pf_tables pf'))"
    and "e < next_addr (gc_heap (pf_storage pf)) \<Longrightarrow> e < next_addr (gc_heap (pf_storage pf'))"
  using assms processed_of_grows [of "pf_jvm pf" "pf_jvm pf'" env r]
  by (auto simp: grows_def storage_grows_def jvm_grows_def tables_grow_def
      intro: map_grows_object heap_le_address)

lemma rely_grows: "rely prof i pf pf' \<Longrightarrow> grows pf pf'" and guar_grows: "guar prof i pf pf' \<Longrightarrow> grows pf pf'"
  by (simp_all add: rely_def guar_def)

lemma stable_grows [intro]:
  assumes "\<And>pf pf'. P pf \<Longrightarrow> grows pf pf' \<Longrightarrow> P pf'"
  shows "growing.stable env prof i P"
  unfolding growing.stable_def using assms rely_grows by blast

lemma stable_facts [simp]:
  "growing.stable env prof i (\<lambda>pf. has_object c (coroutine_info_map (pf_storage pf)))"
  "growing.stable env prof i (\<lambda>pf. has_object c (child_coroutines_map (pf_storage pf)))"
  "growing.stable env prof i (\<lambda>pf. has_object c (processed_map (pf_storage pf)))"
  "growing.stable env prof i (\<lambda>pf. \<exists>a. findThread tid (pf_jvm pf) = Some a)"
  "growing.stable env prof i (\<lambda>pf. \<exists>x. processed_of env' (pf_jvm pf) r = Some x)"
  "growing.stable env prof i (\<lambda>pf. cm_contains m (method_info_map (pf_tables pf)))"
  "growing.stable env prof i (\<lambda>pf. cm_contains m (class_info_map (pf_tables pf)))"
  "growing.stable env prof i (\<lambda>pf. e < next_addr (gc_heap (pf_storage pf)))"
  using grows_facts by (intro stable_grows; force)+

section \<open>Single steps\<close>

definition keeps :: "method_env \<Rightarrow> pthread_t \<Rightarrow> pthread_t \<Rightarrow> profiler \<Rightarrow> profiler \<Rightarrow> bool" where
  "keeps env prof i pf pf' \<longleftrightarrow> conc_ok env pf' \<and> guar prof i pf pf'"

lemma keeps_refl: "conc_ok env pf \<Longrightarrow> keeps env prof i pf pf"
  by (simp add: keeps_def guar_def)

lemma tables_grow_refl [simp]: "tables_grow mt mt"
  by (simp add: tables_grow_def)

lemma map_grows_refl [simp]: "map_grows m m"
  by (simp add: map_grows_def)

lemma keeps_storage:
  assumes "conc_ok env pf" and "storage_ok s" and "ongoing_ok (ongoing_trace_info_map s)"
    and "storage_grows (pf_storage pf) s" and "raw_list s = raw_list (pf_storage pf)"
  shows "keeps env prof i pf (pf\<lparr>pf_storage := s\<rparr>)"
  using assms by (simp add: keeps_def conc_ok_def profiler_ok_def guar_def grows_def raw_grows_def)

lemma keeps_storage_plain:
  assumes "conc_ok env pf" and "storage_ok s"
    and "ongoing_trace_info_map s = ongoing_trace_info_map (pf_storage pf)"
    and "storage_grows (pf_storage pf) s" and "raw_list s = raw_list (pf_storage pf)"
  shows "keeps env prof i pf (pf\<lparr>pf_storage := s\<rparr>)"
  using assms profiler_okD(3) [OF conc_okD(1) [OF assms(1)]] by (intro keeps_storage) simp_all

lemma map_grows_insert [simp]: "map_grows m (fst (om_insert k x m h))"
  by (auto simp: map_grows_def om_insert_def Let_def split_def cm_find_insert)

lemma map_grows_mark [simp]: "map_grows m (cm_mark_current_values_for_clean m)"
  by (simp add: map_grows_def)

text \<open>Which operations of the storage keep its invariant and only add to it.\<close>

lemma ok_insert_coroutine: "storage_ok s \<Longrightarrow> storage_ok (insert_coroutine t1 t2 c s)"
  by (simp add: storage_ok_def insert_coroutine_def Let_def split_def om_ok_insert om_no_null_insert)
    (simp add: om_insert_def Let_def split_def suspensions_ok_alloc_coroutine coroutine_info_new_def cl_new_def)

lemma ok_push_suspension: "storage_ok s \<Longrightarrow> storage_ok (push_suspension si a s)"
  by (simp add: storage_ok_def push_suspension_def Let_def split_def heap_simps suspensions_ok_push)

lemma ok_insert_samples: "storage_ok s \<Longrightarrow> storage_ok (insert_samples c r s)"
  by (simp add: storage_ok_def insert_samples_def Let_def split_def om_ok_insert om_no_null_insert)

lemma ok_push:
  "storage_ok s \<Longrightarrow> storage_ok (s\<lparr>child_lists := heap_update a f (child_lists s)\<rparr>)"
  "storage_ok s \<Longrightarrow> storage_ok (s\<lparr>processed_lists := heap_update a g (processed_lists s)\<rparr>)"
  by (simp_all add: storage_ok_def)

definition adds :: "trace_storage \<Rightarrow> trace_storage \<Rightarrow> bool" where
  "adds s s' \<longleftrightarrow>
     storage_grows s s' \<and> raw_list s' = raw_list s \<and> ongoing_trace_info_map s' = ongoing_trace_info_map s"

lemma adds_operation:
  "adds s (insert_coroutine t1 t2 c s)" "adds s (push_suspension si a s)" "adds s (insert_samples c r s)"
  "adds s (createChildCoroutineStorage c s)" "adds s (update_suspension b g s)" "adds s (storage_gcStart t s)"
  "adds s (s\<lparr>child_lists := heap_update a f (child_lists s)\<rparr>)"
  "adds s (s\<lparr>processed_lists := heap_update a k (processed_lists s)\<rparr>)"
  by (simp_all add: adds_def storage_grows_def insert_coroutine_def push_suspension_def insert_samples_def
      createChildCoroutineStorage_def update_suspension_def storage_gcStart_def Let_def split_def)

lemma keeps_adds:
  assumes "conc_ok env pf" and "storage_ok s" and "adds (pf_storage pf) s"
  shows "keeps env prof i pf (pf\<lparr>pf_storage := s\<rparr>)"
  using assms by (intro keeps_storage_plain) (simp_all add: adds_def)

lemma keeps_operation:
  assumes "conc_ok env pf"
  shows "keeps env prof i pf (pf\<lparr>pf_storage := insert_coroutine t1 t2 c (pf_storage pf)\<rparr>)"
    and "keeps env prof i pf (pf\<lparr>pf_storage := push_suspension si a (pf_storage pf)\<rparr>)"
    and "keeps env prof i pf (pf\<lparr>pf_storage := insert_samples c r (pf_storage pf)\<rparr>)"
    and "keeps env prof i pf (pf\<lparr>pf_storage := createChildCoroutineStorage c (pf_storage pf)\<rparr>)"
    and "keeps env prof i pf (pf\<lparr>pf_storage := update_suspension b g (pf_storage pf)\<rparr>)"
    and "keeps env prof i pf (pf\<lparr>pf_storage := storage_gcStart t (pf_storage pf)\<rparr>)"
    and "keeps env prof i pf (pf\<lparr>pf_storage := (pf_storage pf)\<lparr>child_lists := heap_update a f (child_lists (pf_storage pf))\<rparr>\<rparr>)"
    and "keeps env prof i pf (pf\<lparr>pf_storage := (pf_storage pf)\<lparr>processed_lists := heap_update a k (processed_lists (pf_storage pf))\<rparr>\<rparr>)"
  by (intro keeps_adds [OF assms] adds_operation; simp add: conc_okD(2) [OF assms] ok_insert_coroutine
      ok_push_suspension ok_insert_samples ok_createChildCoroutineStorage ok_update_suspension ok_gcStart ok_push)+

lemma keeps_update_coroutine:
  assumes "conc_ok env pf" and "\<And>ci. ci_suspensions_list (f ci) = ci_suspensions_list ci"
  shows "keeps env prof i pf (pf\<lparr>pf_storage := update_coroutine a f (pf_storage pf)\<rparr>)"
  using conc_okD(2) [OF assms(1)] assms(2)
  by (intro keeps_storage_plain [OF assms(1)] ok_update_coroutine)
    (simp_all add: storage_grows_def update_coroutine_def)

lemma keeps_mark:
  assumes "conc_ok env pf"
  shows "keeps env prof i pf (pf\<lparr>pf_storage := (pf_storage pf)
      \<lparr>processed_map := cm_mark_current_values_for_clean (processed_map (pf_storage pf))\<rparr>\<rparr>)"
    and "keeps env prof i pf (pf\<lparr>pf_storage := (pf_storage pf)
      \<lparr>child_coroutines_map := cm_mark_current_values_for_clean (child_coroutines_map (pf_storage pf))\<rparr>\<rparr>)"
    and "keeps env prof i pf (pf\<lparr>pf_storage := (pf_storage pf)
      \<lparr>coroutine_info_map := cm_mark_current_values_for_clean (coroutine_info_map (pf_storage pf))\<rparr>\<rparr>)"
    and "keeps env prof i pf (pf\<lparr>pf_storage := (pf_storage pf)
      \<lparr>gc_events := cl_mark_for_clean (gc_events (pf_storage pf))\<rparr>\<rparr>)"
  using conc_okD(2) [OF assms]
  by (intro keeps_storage_plain [OF assms];
      simp add: storage_ok_def storage_grows_def gc_ok_def cl_mark_for_clean_def)+

lemma keeps_ongoing:
  assumes "conc_ok env pf"
  shows "keeps env prof i pf (pf\<lparr>pf_storage := snd (addOngoingTraceInfo info (pf_storage pf))\<rparr>)"
    and "keeps env prof i pf (pf\<lparr>pf_storage := snd (findOngoingTraceInfo c (pf_storage pf))\<rparr>)"
    and "keeps env prof i pf (pf\<lparr>pf_storage := removeOngoingTraceInfo c (pf_storage pf)\<rparr>)"
proof -
  note o = profiler_okD(3) [OF conc_okD(1) [OF assms]]
  have "ongoing_ok (ongoing_trace_info_map (snd (addOngoingTraceInfo info (pf_storage pf))))"
    using o by (auto simp: addOngoingTraceInfo_def Let_def split_def ongoing_ok_def cm_find_insert)
  then show "keeps env prof i pf (pf\<lparr>pf_storage := snd (addOngoingTraceInfo info (pf_storage pf))\<rparr>)"
    by (intro keeps_storage [OF assms])
      (simp_all add: ok_ongoing conc_okD(2) [OF assms], simp_all add: storage_grows_def addOngoingTraceInfo_def Let_def split_def)
  show "keeps env prof i pf (pf\<lparr>pf_storage := snd (findOngoingTraceInfo c (pf_storage pf))\<rparr>)"
    by (intro keeps_storage [OF assms])
      (simp_all add: ok_ongoing findOngoing_ok o conc_okD(2) [OF assms], simp_all add: storage_grows_def findOngoingTraceInfo_def Let_def split_def)
  show "keeps env prof i pf (pf\<lparr>pf_storage := removeOngoingTraceInfo c (pf_storage pf)\<rparr>)"
    by (intro keeps_storage [OF assms])
      (simp_all add: ok_ongoing removeOngoing_ok o conc_okD(2) [OF assms], simp_all add: storage_grows_def removeOngoingTraceInfo_def)
qed

text \<open>Steps outside of the storage.\<close>

lemma thread_name_traces [simp]:
  "thread_name p (add_current_traces d a j) = thread_name p j"
  by (auto simp: thread_name_def add_current_traces_def heap_simps split: option.splits)

lemma processed_of_traces [simp]: "processed_of env (add_current_traces d a j) r = processed_of env j r"
  by (simp add: processed_of_def)

lemma keeps_profiler:
  assumes "conc_ok env pf"
  shows "keeps env prof i pf (pf\<lparr>pf_jvm := add_current_traces d a (pf_jvm pf)\<rparr>)"
    and "keeps env prof i pf (pf\<lparr>current_coroutine_id := x\<rparr>)"
    and "keeps env prof i pf (pf\<lparr>current_rusage := y\<rparr>)"
    and "keeps env prof i pf (pf\<lparr>pf_output_counter := n\<rparr>)"
    and "keeps env prof i pf (pf\<lparr>pf_files := fs\<rparr>)"
  using assms
  by (simp_all add: keeps_def conc_ok_def profiler_ok_def guar_def grows_def storage_grows_def jvm_grows_def
      raw_grows_def)

lemma keeps_charge:
  assumes "conc_ok env pf"
  shows "keeps env prof i pf (charge_usage self now r a pf)"
proof (cases "cells (coroutine_infos (pf_storage pf)) a")
  case None
  with keeps_refl [OF assms] show ?thesis by (simp add: charge_usage_def)
next
  case (Some ci)
  have "profiler_ok (charge_usage self now r a pf)"
    using conc_okD(1) [OF assms] by (rule ok_charge_usage)
  with Some assms show ?thesis
    by (simp add: keeps_def conc_ok_def guar_def grows_def storage_grows_def raw_grows_def)
      (simp add: charge_usage_def update_coroutine_def Let_def split_def)
qed

section \<open>Programs of the storage\<close>

lemma triple_does:
  assumes "\<And>pf. conc_ok env pf \<Longrightarrow> keeps env prof i pf (pf\<lparr>pf_storage := u (pf_storage pf)\<rparr>)"
    and "growing.stable env prof i P"
    and "growing.stable env prof i Q" and "\<And>pf. conc_ok env pf \<Longrightarrow> P pf \<Longrightarrow> Q (pf\<lparr>pf_storage := u (pf_storage pf)\<rparr>)"
  shows "growing.triple env prof i E P (storage_does u) (\<lambda>_. Q)"
  unfolding storage_does_def
  by (rule growing.triple_modify [OF assms(2,3)]) (use assms(1,4) in \<open>auto simp: keeps_def\<close>)

lemma triple_reads:
  assumes "growing.stable env prof i P" and "\<And>x. growing.stable env prof i (Q x)"
    and "\<And>pf. conc_ok env pf \<Longrightarrow> P pf \<Longrightarrow> Q (f (pf_storage pf)) pf"
  shows "growing.triple env prof i E P (storage_reads f) Q"
  unfolding storage_reads_def using assms by (rule growing.triple_observe)

abbreviation known_coroutine :: "jlong \<Rightarrow> profiler \<Rightarrow> bool" where
  "known_coroutine c pf \<equiv> has_object c (coroutine_info_map (pf_storage pf))"

lemma contains_has_object:
  assumes "conc_ok env pf"
  shows "cm_contains c (coroutine_info_map (pf_storage pf)) = has_object c (coroutine_info_map (pf_storage pf))"
    and "cm_contains c (child_coroutines_map (pf_storage pf)) = has_object c (child_coroutines_map (pf_storage pf))"
    and "cm_contains c (processed_map (pf_storage pf)) = has_object c (processed_map (pf_storage pf))"
  using storage_okD(2,4,6) [OF conc_okD(2) [OF assms]] by (simp_all add: has_object_contains)

lemma triple_createCoroutineInfo: "growing.triple env prof i E anything (createCoroutineInfo_steps t1 t2 c) (\<lambda>_. anything)"
  unfolding createCoroutineInfo_steps_def
  by (rule growing.triple_bind [where M = "\<lambda>_. anything"])
    (auto intro!: triple_reads triple_does growing.triple_Return keeps_operation)

text \<open>A pointer that was found in the map stays the pointer of its coroutine.\<close>

definition coroutine_at :: "jlong \<Rightarrow> ptr \<Rightarrow> profiler \<Rightarrow> bool" where
  "coroutine_at c p pf \<longleftrightarrow> p \<noteq> None \<and> cm_find c (coroutine_info_map (pf_storage pf)) = Some p"

lemma stable_coroutine_at [simp]: "growing.stable env prof i (coroutine_at c p)"
  by (rule stable_grows) (auto simp: coroutine_at_def grows_def storage_grows_def map_grows_def)

lemma triple_contains_coroutine:
  "growing.triple env prof i E anything (storage_reads (\<lambda>s. cm_contains c (coroutine_info_map s)))
     (\<lambda>known pf. known \<longrightarrow> known_coroutine c pf)"
  by (rule triple_reads) (auto simp: contains_has_object intro!: stable_grows dest: grows_facts(1))

lemma triple_get_coroutine:
  "growing.triple env prof i E (known_coroutine c) (atomic (on_storage (get_coroutine c))) (coroutine_at c)"
  by (rule growing.triple_atomic [OF stable_facts(1) stable_coroutine_at])
    (auto simp: get_coroutine_def coroutine_at_def has_object_get keeps_refl [unfolded keeps_def]
      has_object_def fst_cm_get Let_def split_def)

lemma triple_getCoroutineInfo:
  "growing.triple env prof i E anything (getCoroutineInfo_steps c) (\<lambda>p pf. p \<noteq> None \<longrightarrow> known_coroutine c pf)"
  unfolding getCoroutineInfo_steps_def
proof (rule growing.triple_bind [OF triple_contains_coroutine])
  fix known
  have "growing.triple env prof i E (known_coroutine c) (atomic (on_storage (get_coroutine c)))
      (\<lambda>p pf. p \<noteq> None \<longrightarrow> known_coroutine c pf)"
    by (rule growing.triple_post [OF triple_get_coroutine]) (auto simp: coroutine_at_def has_object_def)
  then show "growing.triple env prof i E (\<lambda>pf. known \<longrightarrow> known_coroutine c pf)
      (if known then atomic (on_storage (get_coroutine c)) else Return None)
      (\<lambda>p pf. p \<noteq> None \<longrightarrow> known_coroutine c pf)"
    by (auto intro!: growing.triple_Return)
qed

lemma triple_addSuspensionInfo:
  "growing.triple env prof i E (known_coroutine (si_coroutine_id si)) (addSuspensionInfo_steps si) (\<lambda>_. anything)"
  unfolding addSuspensionInfo_steps_def
proof (rule growing.triple_bind [where M = "\<lambda>p _. p \<noteq> None"])
  show "growing.triple env prof i E (known_coroutine (si_coroutine_id si))
      (attempt (on_storage (\<lambda>s. (cm_at (si_coroutine_id si) (coroutine_info_map s), s)))) (\<lambda>p _. p \<noteq> None)"
    by (rule growing.triple_attempt) (auto simp: has_object_get keeps_refl [unfolded keeps_def])
  show "growing.triple env prof i E (\<lambda>_. p \<noteq> None)
      (case p of None \<Rightarrow> Raise (Null_dereference ''addSuspensionInfo'')
       | Some c \<Rightarrow> storage_does (push_suspension si c)) (\<lambda>_. anything)" for p
    by (cases p) (auto intro!: growing.triple_Raise triple_does keeps_operation)
qed

lemma triple_find_open:
  "growing.triple env prof i E (coroutine_at c (Some a)) (attempt (on_storage (find_open_suspension a))) (\<lambda>_. anything)"
proof (rule growing.triple_attempt)
  fix pf
  assume "conc_ok env pf" and c: "coroutine_at c (Some a) pf"
  obtain ci where "cells (coroutine_infos (pf_storage pf)) a = Some ci"
    using om_view_cell [OF storage_okD(5) [OF conc_okD(2) [OF \<open>conc_ok env pf\<close>]]] c
    by (auto simp: coroutine_at_def)
  with keeps_refl [OF \<open>conc_ok env pf\<close>]
  show "conc_ok env (snd (on_storage (find_open_suspension a) pf))
    \<and> guar prof i pf (snd (on_storage (find_open_suspension a) pf))
    \<and> (case fst (on_storage (find_open_suspension a) pf) of Inl e \<Rightarrow> E e | Inr x \<Rightarrow> True)"
    by (simp add: find_open_suspension_def keeps_def)
qed simp_all

lemma triple_getLastSuspensionInfo:
  "growing.triple env prof i E anything (getLastSuspensionInfo_steps c) (\<lambda>_. anything)"
  unfolding getLastSuspensionInfo_steps_def
proof (rule growing.triple_bind [OF triple_contains_coroutine])
  fix known
  have "growing.triple env prof i E (coroutine_at c p)
      (case p of None \<Rightarrow> Raise (Null_dereference ''getLastSuspensionInfo'')
       | Some a \<Rightarrow> attempt (on_storage (find_open_suspension a))) (\<lambda>_. anything)" for p
    using triple_find_open by (cases p) (auto simp: coroutine_at_def intro!: growing.triple_Raise)
  note growing.triple_bind [OF triple_get_coroutine this]
  then show "growing.triple env prof i E (\<lambda>pf. known \<longrightarrow> known_coroutine c pf)
      (if known then pbind (atomic (on_storage (get_coroutine c))) (\<lambda>p.
         case p of None \<Rightarrow> Raise (Null_dereference ''getLastSuspensionInfo'')
         | Some a \<Rightarrow> attempt (on_storage (find_open_suspension a)))
       else Return None) (\<lambda>_. anything)"
    by (auto intro!: growing.triple_Return)
qed

lemma triple_addChildCoroutine:
  "growing.triple env prof i E (\<lambda>pf. has_object parent (child_coroutines_map (pf_storage pf)))
     (addChildCoroutine_steps c parent) (\<lambda>_. anything)"
  unfolding addChildCoroutine_steps_def
proof (rule growing.triple_bind [where M = "\<lambda>p _. p \<noteq> None"])
  show "growing.triple env prof i E (\<lambda>pf. has_object parent (child_coroutines_map (pf_storage pf)))
      (atomic (on_storage (getChildCoroutines parent))) (\<lambda>p _. p \<noteq> None)"
    by (rule growing.triple_atomic)
      (auto simp: getChildCoroutines_def has_object_get keeps_refl [unfolded keeps_def] Let_def split_def)
  show "growing.triple env prof i E (\<lambda>_. p \<noteq> None)
      (case p of None \<Rightarrow> Raise (Null_dereference ''addChildCoroutine'')
       | Some a \<Rightarrow> storage_does (\<lambda>s. s\<lparr>child_lists := heap_update a (cl_push_back c) (child_lists s)\<rparr>))
      (\<lambda>_. anything)" for p
    by (cases p) (auto intro!: growing.triple_Raise triple_does keeps_operation)
qed

lemma triple_addProcessedTrace:
  "growing.triple env prof i E anything (addProcessedTrace_steps c r) (\<lambda>_. anything)"
  unfolding addProcessedTrace_steps_def
proof (rule growing.triple_bind [where M = "\<lambda>known pf. known \<longrightarrow> has_object c (processed_map (pf_storage pf))"])
  show "growing.triple env prof i E anything (storage_reads (\<lambda>s. cm_contains c (processed_map s)))
      (\<lambda>known pf. known \<longrightarrow> has_object c (processed_map (pf_storage pf)))"
    by (rule triple_reads) (auto simp: contains_has_object intro!: stable_grows dest: grows_facts(3))
next
  fix known
  let ?push = "\<lambda>p. case p of None \<Rightarrow> Raise (Null_dereference ''addProcessedTrace'')
    | Some a \<Rightarrow> storage_does (\<lambda>s. s\<lparr>processed_lists := heap_update a (cl_push_back r) (processed_lists s)\<rparr>)"
  have "growing.triple env prof i E (\<lambda>pf. has_object c (processed_map (pf_storage pf)))
      (attempt (on_storage (\<lambda>s. (cm_at c (processed_map s), s)))) (\<lambda>p _. p \<noteq> None)"
    by (rule growing.triple_attempt) (auto simp: has_object_get keeps_refl [unfolded keeps_def])
  moreover have "growing.triple env prof i E (\<lambda>_. p \<noteq> None) (?push p) (\<lambda>_. anything)" for p
    by (cases p) (auto intro!: growing.triple_Raise triple_does keeps_operation)
  ultimately have "growing.triple env prof i E (\<lambda>pf. has_object c (processed_map (pf_storage pf)))
      (pbind (attempt (on_storage (\<lambda>s. (cm_at c (processed_map s), s)))) ?push) (\<lambda>_. anything)"
    by (rule growing.triple_bind)
  then show "growing.triple env prof i E (\<lambda>pf. known \<longrightarrow> has_object c (processed_map (pf_storage pf)))
      (if known then pbind (attempt (on_storage (\<lambda>s. (cm_at c (processed_map s), s)))) ?push
       else storage_does (insert_samples c r)) (\<lambda>_. anything)"
    by (auto intro!: triple_does keeps_operation)
qed

section \<open>Naming frames\<close>

lemma keeps_tables:
  assumes "conc_ok env pf" and "tables_ok env mt" and "tables_grow (pf_tables pf) mt"
  shows "keeps env prof i pf (pf\<lparr>pf_tables := mt\<rparr>)"
  using assms by (simp add: keeps_def conc_ok_def guar_def grows_def storage_grows_def raw_grows_def)

lemma tables_insert_class:
  assumes "tables_ok env mt" and "GetClassSignature env m = Some sig" and "sig \<noteq> []"
  shows "tables_ok env (insert_class m (butlast sig) mt)"
  using assms by (auto simp: tables_ok_def insert_class_def cm_find_insert) (metis option.distinct(1))+

lemma tables_insert_method:
  assumes "tables_ok env mt" and "cm_contains m (class_info_map mt)" and "GetMethodName env m = Some (name, sg)"
  shows "tables_ok env (insert_method m (name @ sg) mt)"
proof -
  obtain c sig where "cm_find m (class_info_map mt) = Some c" "GetClassSignature env m = Some sig" "sig \<noteq> []"
    "c = butlast sig"
    using assms(1,2) unfolding tables_ok_def cm_contains_find by blast
  with assms(1,3) show ?thesis
    by (auto simp: tables_ok_def insert_method_def cm_find_insert pure_method_frame_def)
qed

lemma tables_grow_insert:
  "tables_grow mt (insert_class m n mt)" "tables_grow mt (insert_method m n mt)"
  by (simp_all add: tables_grow_def insert_class_def insert_method_def cm_contains_find cm_find_insert)

lemma insert_known:
  "cm_contains m (class_info_map (insert_class m n mt))" "cm_contains m (method_info_map (insert_method m n mt))"
  "class_info_map (insert_method m n mt) = class_info_map mt"
  by (simp_all add: insert_class_def insert_method_def cm_contains_find cm_find_insert)

text \<open>Reading an entry that is there changes nothing.\<close>

lemma cm_get_same: "cm_contains k m \<Longrightarrow> snd (cm_get d k m) = m"
  using cm_get_contains [of k m d] by (metis snd_conv)

lemma tables_same [simp]:
  "mt\<lparr>class_info_map := class_info_map mt\<rparr> = mt" "mt\<lparr>method_info_map := method_info_map mt\<rparr> = mt"
  by (cases mt, simp)+

abbreviation class_known :: "jmethodID \<Rightarrow> profiler \<Rightarrow> bool" where
  "class_known m pf \<equiv> cm_contains m (class_info_map (pf_tables pf))"

abbreviation method_known :: "jmethodID \<Rightarrow> profiler \<Rightarrow> bool" where
  "method_known m pf \<equiv> cm_contains m (method_info_map (pf_tables pf))"

lemma stable_both_known [simp]: "growing.stable env prof i (\<lambda>pf. method_known m pf \<and> class_known m pf)"
  by (auto intro!: stable_grows dest: grows_facts(6,7))

lemma stable_if_known [simp]:
  "growing.stable env prof i (\<lambda>pf. b \<longrightarrow> class_known m pf)"
  "growing.stable env prof i (\<lambda>pf. b \<longrightarrow> method_known m pf \<and> class_known m pf)"
  by (cases b; simp)+

text \<open>The names a thread reads are those the JVM gives, whoever has entered them into the tables.\<close>

abbreviation class_value :: "method_env \<Rightarrow> jmethodID \<Rightarrow> string \<Rightarrow> bool" where
  "class_value env m c \<equiv> \<exists>sig. GetClassSignature env m = Some sig \<and> sig \<noteq> [] \<and> c = butlast sig"

abbreviation method_value :: "method_env \<Rightarrow> jmethodID \<Rightarrow> string \<Rightarrow> bool" where
  "method_value env m f \<equiv> \<exists>fr. pure_method_frame env m = Some fr \<and> sf_frame fr = f"

lemma known_values:
  assumes "conc_ok env pf"
  shows "class_known m pf \<Longrightarrow> class_value env m (fst (cm_get [] m (class_info_map (pf_tables pf))))"
    and "method_known m pf \<Longrightarrow> method_value env m (fst (cm_get [] m (method_info_map (pf_tables pf))))"
    and "method_known m pf \<Longrightarrow> class_known m pf"
  using conc_okD(3) [OF assms] unfolding tables_ok_def
  by (fastforce simp: cm_contains_find fst_cm_get)+

lemma stable_and [simp]: "growing.stable env prof i P \<Longrightarrow> growing.stable env prof i (\<lambda>pf. P pf \<and> b)"
  by (cases b) simp_all

lemma triple_get_class:
  "growing.triple env prof i E (class_known m) (atomic (on_tables (get_class m)))
     (\<lambda>c pf. class_known m pf \<and> class_value env m c)"
  by (rule growing.triple_atomic [OF stable_facts(7) stable_and [OF stable_facts(7)]])
    (simp add: get_class_def Let_def split_def cm_get_same keeps_refl [unfolded keeps_def] known_values)

lemma triple_get_method:
  "growing.triple env prof i E (\<lambda>pf. method_known m pf \<and> class_known m pf) (atomic (on_tables (get_method m)))
     (\<lambda>f pf. class_known m pf \<and> method_value env m f)"
  by (rule growing.triple_atomic [OF stable_both_known stable_and [OF stable_facts(7)]])
    (simp add: get_method_def Let_def split_def cm_get_same keeps_refl [unfolded keeps_def] known_values)

lemma value_frame: "class_value env m c \<Longrightarrow> method_value env m f \<Longrightarrow> pure_method_frame env m = Some \<lparr>sf_frame = f, sf_base = c\<rparr>"
  by (auto simp: pure_method_frame_def split: option.splits if_splits)

lemma triple_tables_do:
  assumes "growing.stable env prof i P" and "growing.stable env prof i Q"
    and "\<And>pf. conc_ok env pf \<Longrightarrow> P pf \<Longrightarrow> tables_ok env (u (pf_tables pf)) \<and> tables_grow (pf_tables pf) (u (pf_tables pf))
      \<and> Q (pf\<lparr>pf_tables := u (pf_tables pf)\<rparr>)"
  shows "growing.triple env prof i E P (tables_do u) (\<lambda>_. Q)"
  unfolding tables_do_def
  by (rule growing.triple_modify [OF assms(1,2)])
    (use assms(3) keeps_tables in \<open>auto simp: keeps_def\<close>)

lemma triple_learn_class:
  assumes "GetMethodName env m \<noteq> None" and "pure_method_frame env m = None \<Longrightarrow> \<forall>e. E e"
  shows "growing.triple env prof i E anything (learn_class_steps env m) (\<lambda>_. class_known m)"
proof (cases "\<exists>sig. GetClassSignature env m = Some sig \<and> sig \<noteq> []")
  case True
  then obtain sig where sig: "GetClassSignature env m = Some sig" "sig \<noteq> []" by blast
  have "growing.triple env prof i E anything (tables_do (insert_class m (butlast sig))) (\<lambda>_. class_known m)"
    by (rule triple_tables_do)
      (simp_all add: tables_insert_class [OF conc_okD(3) sig] tables_grow_insert insert_known)
  with sig show ?thesis by (simp add: learn_class_steps_def class_of_signature_def)
next
  case False
  then have "\<forall>e. E e" using assms by (intro assms(2)) (auto simp: pure_method_frame_def split: option.splits)
  with False show ?thesis
    by (auto simp: learn_class_steps_def class_of_signature_def intro!: growing.triple_Raise split: option.splits)
qed

lemma triple_class_name:
  assumes "GetMethodName env m \<noteq> None" and "pure_method_frame env m = None \<Longrightarrow> \<forall>e. E e"
  shows "growing.triple env prof i E anything (class_name_steps env m) (\<lambda>c pf. class_known m pf \<and> class_value env m c)"
  unfolding class_name_steps_def
proof (rule growing.triple_bind [where M = "\<lambda>known pf. known \<longrightarrow> class_known m pf"])
  show "growing.triple env prof i E anything (observe (class_known m)) (\<lambda>known pf. known \<longrightarrow> class_known m pf)"
    by (rule growing.triple_observe) simp_all
next
  fix known
  have "growing.triple env prof i E (\<lambda>pf. known \<longrightarrow> class_known m pf)
      (if known then Return () else learn_class_steps env m) (\<lambda>_. class_known m)"
    using triple_learn_class [OF assms] by (auto intro!: growing.triple_Return)
  then show "growing.triple env prof i E (\<lambda>pf. known \<longrightarrow> class_known m pf)
      (pbind (if known then Return () else learn_class_steps env m) (\<lambda>_. atomic (on_tables (get_class m))))
      (\<lambda>c pf. class_known m pf \<and> class_value env m c)"
    using triple_get_class by (rule growing.triple_bind)
qed

lemma triple_frame_value:
  "growing.triple env prof i E (\<lambda>pf. class_known m pf \<and> class_value env m c \<and> method_value env m f)
     (Return \<lparr>sf_frame = f, sf_base = c\<rparr>) (\<lambda>fr _. pure_method_frame env m = Some fr)"
  by (rule growing.triple_Return) (use value_frame in auto)

lemma triple_new_method:
  assumes "GetMethodName env m = Some (name, sg)" and "pure_method_frame env m = None \<Longrightarrow> \<forall>e. E e"
  shows "growing.triple env prof i E anything
    (pbind (class_name_steps env m) (\<lambda>className.
     pbind (tables_do (insert_method m (name @ sg))) (\<lambda>_.
     pbind (atomic (on_tables (get_method m))) (\<lambda>f. Return \<lparr>sf_frame = f, sf_base = className\<rparr>))))
    (\<lambda>fr _. pure_method_frame env m = Some fr)"
proof (rule growing.triple_bind [OF triple_class_name])
  show "GetMethodName env m \<noteq> None" using assms(1) by simp
  show "\<forall>e. E e" if "pure_method_frame env m = None" using that by (rule assms(2))
next
  fix c
  let ?rest = "pbind (tables_do (insert_method m (name @ sg))) (\<lambda>_.
    pbind (atomic (on_tables (get_method m))) (\<lambda>f. Return \<lparr>sf_frame = f, sf_base = c\<rparr>))"
  have "growing.triple env prof i E (class_known m) (tables_do (insert_method m (name @ sg)))
      (\<lambda>_ pf. method_known m pf \<and> class_known m pf)"
    by (rule triple_tables_do)
      (simp_all add: tables_insert_method [OF conc_okD(3) _ assms(1)] tables_grow_insert insert_known)
  then show "growing.triple env prof i E (\<lambda>pf. class_known m pf \<and> class_value env m c) ?rest
      (\<lambda>fr _. pure_method_frame env m = Some fr)"
    by (intro growing.triple_given, rule growing.triple_bind)
      (rule growing.triple_bind [OF triple_get_method], rule growing.triple_pre [OF triple_frame_value], blast)
qed

lemma triple_old_method:
  "growing.triple env prof i E (\<lambda>pf. method_known m pf \<and> class_known m pf)
     (pbind (atomic (on_tables (get_method m))) (\<lambda>f.
      pbind (atomic (on_tables (get_class m))) (\<lambda>c. Return \<lparr>sf_frame = f, sf_base = c\<rparr>)))
     (\<lambda>fr _. pure_method_frame env m = Some fr)"
proof (rule growing.triple_bind [OF triple_get_method])
  fix f
  let ?rest = "pbind (atomic (on_tables (get_class m))) (\<lambda>c. Return \<lparr>sf_frame = f, sf_base = c\<rparr>)"
  show "growing.triple env prof i E (\<lambda>pf. class_known m pf \<and> method_value env m f) ?rest
      (\<lambda>fr _. pure_method_frame env m = Some fr)"
    by (rule growing.triple_given, rule growing.triple_bind [OF triple_get_class],
        rule growing.triple_pre [OF triple_frame_value]) blast
qed

lemma triple_processMethodInfo:
  assumes "pure_method_frame env m = None \<Longrightarrow> \<forall>e. E e"
  shows "growing.triple env prof i E anything (processMethodInfo_steps env m) (\<lambda>fr _. pure_method_frame env m = Some fr)"
  unfolding processMethodInfo_steps_def
proof (rule growing.triple_bind [where M = "\<lambda>known pf. known \<longrightarrow> method_known m pf \<and> class_known m pf"])
  show "growing.triple env prof i E anything (observe (method_known m))
      (\<lambda>known pf. known \<longrightarrow> method_known m pf \<and> class_known m pf)"
    by (rule growing.triple_observe) (simp_all add: known_values)
next
  fix known
  have "pure_method_frame env m = None" if "GetMethodName env m = None"
    using that by (simp add: pure_method_frame_def)
  with assms triple_new_method [OF _ assms] triple_old_method
  show "growing.triple env prof i E (\<lambda>pf. known \<longrightarrow> method_known m pf \<and> class_known m pf)
      (if \<not> known then
         (case GetMethodName env m of
            None \<Rightarrow> Raise (Undefined_behaviour ''GetMethodName'')
          | Some (name, sg) \<Rightarrow>
              pbind (class_name_steps env m) (\<lambda>className.
              pbind (tables_do (insert_method m (name @ sg))) (\<lambda>_.
              pbind (atomic (on_tables (get_method m))) (\<lambda>f. Return \<lparr>sf_frame = f, sf_base = className\<rparr>))))
       else
         pbind (atomic (on_tables (get_method m))) (\<lambda>f.
         pbind (atomic (on_tables (get_class m))) (\<lambda>c. Return \<lparr>sf_frame = f, sf_base = c\<rparr>)))
      (\<lambda>fr _. pure_method_frame env m = Some fr)"
    by (auto intro!: growing.triple_Raise split: option.splits)
qed

lemma triple_cons:
  assumes "growing.triple env prof i E anything p (\<lambda>x _. f = Some x)"
    and "growing.triple env prof i E anything q (\<lambda>xs _. those fs = Some xs)"
  shows "growing.triple env prof i E anything (pbind p (\<lambda>x. pbind q (\<lambda>xs. Return (x # xs))))
    (\<lambda>xs _. those (f # fs) = Some xs)"
proof (rule growing.triple_bind [OF assms(1)])
  fix x
  show "growing.triple env prof i E (\<lambda>_. f = Some x) (pbind q (\<lambda>xs. Return (x # xs))) (\<lambda>xs _. those (f # fs) = Some xs)"
    by (rule growing.triple_if, rule growing.triple_bind [OF assms(2)], rule growing.triple_Return) auto
qed

lemma triple_process_methods:
  assumes "those (map (pure_method_frame env) ms) = None \<Longrightarrow> \<forall>e. E e"
  shows "growing.triple env prof i E anything (process_methods_steps env ms)
    (\<lambda>fs _. those (map (pure_method_frame env) ms) = Some fs)"
  using assms
proof (induction ms)
  case Nil
  show ?case by (auto intro!: growing.triple_Return)
next
  case (Cons m ms)
  have "pure_method_frame env m = None \<Longrightarrow> \<forall>e. E e" "those (map (pure_method_frame env) ms) = None \<Longrightarrow> \<forall>e. E e"
    using Cons.prems by (auto split: option.splits)
  then show ?case
    unfolding process_methods_steps.simps list.map by (intro triple_cons triple_processMethodInfo Cons.IH)
qed

lemma triple_processProfilerMethodInfo:
  assumes "pure_frame env info \<noteq> None"
  shows "growing.triple env prof i E anything (processProfilerMethodInfo_steps env info)
    (\<lambda>fr _. pure_frame env info = Some fr)"
  using assms
  by (auto simp: processProfilerMethodInfo_steps_def pure_frame_def
      intro!: growing.triple_Return triple_processMethodInfo split: option.splits)

lemma triple_process_instructions:
  assumes "\<forall>k\<in>set ks. k < length xs \<and> pure_frame env (xs ! k) \<noteq> None"
  shows "growing.triple env prof i E anything (process_instructions_steps env xs ks)
    (\<lambda>fs _. those (map (\<lambda>k. pure_frame env (xs ! k)) ks) = Some fs)"
  using assms
proof (induction ks)
  case Nil
  show ?case by (auto intro!: growing.triple_Return)
next
  case (Cons k ks)
  then have "\<not> length xs \<le> k" by simp
  with Cons show ?case
    unfolding process_instructions_steps.simps list.map by (simp only: if_False) (intro triple_cons triple_processProfilerMethodInfo, simp_all)
qed

lemma those_eq_Some: "those xs = Some ys \<Longrightarrow> None \<notin> set xs"
  by (induction xs arbitrary: ys) (auto split: option.splits)

lemma processed_of_frames:
  assumes "processed_of env j raw \<noteq> None"
  shows "\<exists>trace. rr_trace raw = Some trace \<and> (\<forall>k<nat (sint (rr_trace_count raw)).
    k < length (at_instructions trace) \<and> pure_frame env (at_instructions trace ! k) \<noteq> None)"
proof -
  let ?n = "nat (sint (rr_trace_count raw))"
  obtain trace fs where t: "rr_trace raw = Some trace" "?n \<le> length (at_instructions trace)"
    "those (map (pure_frame env) (take ?n (at_instructions trace))) = Some fs"
    using assms by (auto simp: processed_of_def split: sum.splits option.splits if_splits)
  have "pure_frame env (at_instructions trace ! k) \<noteq> None" if "k < ?n" for k
  proof -
    have "at_instructions trace ! k \<in> set (take ?n (at_instructions trace))"
      using that t(2) by (auto simp: in_set_conv_nth)
    with those_eq_Some [OF t(3)] show ?thesis by force
  qed
  with t(1,2) show ?thesis by auto
qed

lemma triple_record_frames:
  assumes "processed_of env j raw = Some pr"
  shows "growing.triple env prof i E anything (record_frames_steps env raw) (\<lambda>fs _. fs = pr_stack_trace pr)"
proof -
  let ?n = "nat (sint (rr_trace_count raw))"
  obtain trace where t: "rr_trace raw = Some trace" "?n \<le> length (at_instructions trace)"
    "those (map (pure_frame env) (take ?n (at_instructions trace))) = Some (pr_stack_trace pr)"
    using assms by (auto simp: processed_of_def split: sum.splits option.splits if_splits)
  have ks: "\<forall>k\<in>set [0..<?n]. k < length (at_instructions trace) \<and> pure_frame env (at_instructions trace ! k) \<noteq> None"
    using processed_of_frames [of env j raw] assms t(1) by auto
  from growing.triple_post [OF triple_process_instructions [OF ks]] t show ?thesis
    by (simp add: record_frames_steps_def Let_def map_nth_upt)
qed

section \<open>Programs of the handlers\<close>

lemma triple_change:
  assumes "\<And>pf. conc_ok env pf \<Longrightarrow> keeps env prof i pf (u pf)"
  shows "growing.triple env prof i E anything (modify u) (\<lambda>_. anything)"
  by (rule growing.triple_modify) (use assms in \<open>simp_all add: keeps_def\<close>)

lemma triple_op:
  assumes "\<And>pf. conc_ok env pf \<Longrightarrow> keeps env prof i pf (pf\<lparr>pf_storage := u (pf_storage pf)\<rparr>)"
  shows "growing.triple env prof i E anything (storage_does u) (\<lambda>_. anything)"
  unfolding storage_does_def using assms by (rule triple_change)

lemma triple_next:
  assumes "growing.triple env prof i E P p (\<lambda>_. anything)"
    and "\<And>x. growing.triple env prof i E anything (f x) Q"
  shows "growing.triple env prof i E P (pbind p f) Q"
  using assms by (rule growing.triple_bind)

text \<open>The steps that are always possible.\<close>

named_theorems conc_rules \<open>programs that are safe in every well-formed state\<close>

lemma triple_skip [conc_rules]: "growing.triple env prof i E P (Return x) (\<lambda>_. anything)"
  by (rule growing.triple_Return) simp_all

lemma triple_operations [conc_rules]:
  "growing.triple env prof i E anything (storage_does (createChildCoroutineStorage c)) (\<lambda>_. anything)"
  "growing.triple env prof i E anything (storage_does (update_suspension b g)) (\<lambda>_. anything)"
  "growing.triple env prof i E anything (storage_does (storage_gcStart t)) (\<lambda>_. anything)"
  "growing.triple env prof i E anything (storage_does (removeOngoingTraceInfo c)) (\<lambda>_. anything)"
  by (rule triple_op, erule keeps_operation keeps_ongoing)+

lemma triple_updates [conc_rules]:
  "growing.triple env prof i E anything (storage_does (update_coroutine a (\<lambda>ci. ci\<lparr>ci_last_resume := t\<rparr>))) (\<lambda>_. anything)"
  "growing.triple env prof i E anything (storage_does (update_coroutine a (\<lambda>ci. ci\<lparr>ci_end := t\<rparr>))) (\<lambda>_. anything)"
  by (rule triple_op, erule keeps_update_coroutine, simp)+

lemma triple_marks [conc_rules]:
  "growing.triple env prof i E anything (storage_does (\<lambda>s. s\<lparr>processed_map := cm_mark_current_values_for_clean (processed_map s)\<rparr>)) (\<lambda>_. anything)"
  "growing.triple env prof i E anything (storage_does (\<lambda>s. s\<lparr>child_coroutines_map := cm_mark_current_values_for_clean (child_coroutines_map s)\<rparr>)) (\<lambda>_. anything)"
  "growing.triple env prof i E anything (storage_does (\<lambda>s. s\<lparr>coroutine_info_map := cm_mark_current_values_for_clean (coroutine_info_map s)\<rparr>)) (\<lambda>_. anything)"
  "growing.triple env prof i E anything (storage_does (\<lambda>s. s\<lparr>gc_events := cl_mark_for_clean (gc_events s)\<rparr>)) (\<lambda>_. anything)"
  by (rule triple_op, erule keeps_mark)+

lemma triple_changes [conc_rules]:
  "growing.triple env prof i E anything (count_traces d a) (\<lambda>_. anything)"
  "growing.triple env prof i E anything (set_current self c) (\<lambda>_. anything)"
  "growing.triple env prof i E anything (modify (charge_usage self now r a)) (\<lambda>_. anything)"
  "growing.triple env prof i E anything (modify (\<lambda>pf. pf\<lparr>current_rusage := f pf\<rparr>)) (\<lambda>_. anything)"
  unfolding count_traces_def set_current_def
  by (rule triple_change, erule keeps_profiler keeps_charge)+

lemma triple_atomics [conc_rules]:
  "growing.triple env prof i E anything (atomic (on_storage (addOngoingTraceInfo info))) (\<lambda>_. anything)"
  "growing.triple env prof i E anything (atomic (on_storage (findOngoingTraceInfo c))) (\<lambda>_. anything)"
  "growing.triple env prof i E anything (atomic next_file) (\<lambda>_. anything)"
  by (rule growing.triple_atomic; use keeps_ongoing keeps_profiler(4) in \<open>simp add: keeps_def next_file_def\<close>)+

lemma triple_observes [conc_rules]:
  "growing.triple env prof i E anything (observe f) (\<lambda>_. anything)"
  "growing.triple env prof i E anything (storage_reads g) (\<lambda>_. anything)"
  unfolding storage_reads_def by (rule growing.triple_observe; simp)+

lemma triple_write_file [conc_rules]:
  "growing.triple env prof i E anything (attempt (write_file path info)) (\<lambda>_. anything)"
proof (rule growing.triple_attempt)
  fix pf
  assume ok: "conc_ok env pf"
  obtain ks where "write_perfetto info (pf_storage pf) = Inr ks"
    using write_trace_total [OF conc_okD(2) [OF ok], of info] by blast
  with keeps_profiler(5) [OF ok]
  show "conc_ok env (snd (write_file path info pf)) \<and> guar prof i pf (snd (write_file path info pf))
    \<and> (case fst (write_file path info pf) of Inl e \<Rightarrow> E e | Inr x \<Rightarrow> True)"
    by (simp add: write_file_def keeps_def)
qed simp_all

lemmas [conc_rules] = triple_createCoroutineInfo triple_getLastSuspensionInfo triple_addProcessedTrace
  triple_next

text \<open>A fact that stays true can be carried over such a step.\<close>

lemma triple_carry:
  assumes "growing.triple env prof i E anything p (\<lambda>_. anything)"
    and "\<And>pf pf'. F pf \<Longrightarrow> grows pf pf' \<Longrightarrow> F pf'"
  shows "growing.triple env prof i E F p (\<lambda>_. F)"
proof -
  have "growing.triple env prof i E (\<lambda>pf. True \<and> F pf) p (\<lambda>_ pf. True \<and> F pf)"
    by (rule growing.triple_frame [OF assms(1)]) (use assms(2) rely_grows guar_grows in blast)+
  then show ?thesis by simp
qed

lemma carry_facts:
  assumes "growing.triple env prof i E anything p (\<lambda>_. anything)"
  shows "growing.triple env prof i E (registered tid) p (\<lambda>_. registered tid)"
    and "growing.triple env prof i E (known_coroutine c) p (\<lambda>_. known_coroutine c)"
    and "growing.triple env prof i E (\<lambda>pf. e < next_addr (gc_heap (pf_storage pf))) p
      (\<lambda>_ pf. e < next_addr (gc_heap (pf_storage pf)))"
  using assms by (rule triple_carry, use grows_facts in force)+

lemma triple_traceStart:
  assumes "E (Runtime_error (''Found trace that already started: '' @ to_string (sint (trace_id he self c))))"
  shows "growing.triple env prof i E (registered self) (traceStart_steps he self t1 t2 start c) (\<lambda>_. anything)"
  unfolding traceStart_steps_def
proof (rule growing.triple_bind [where M = "\<lambda>_. registered self"])
  show "growing.triple env prof i E (registered self)
      (if c = -2 then createCoroutineInfo_steps t1 t2 (hash_thread_id he self) else Return ()) (\<lambda>_. registered self)"
    by (rule carry_facts) (auto intro: triple_createCoroutineInfo triple_skip)
next
  have "growing.triple env prof i E anything
      (if added then Return ()
       else Raise (Runtime_error (''Found trace that already started: '' @ to_string (sint (trace_id he self c)))))
      (\<lambda>_. anything)" for added
    using assms by (auto intro: triple_skip growing.triple_Raise)
  then show "growing.triple env prof i E (registered self)
      (pbind (find_thread_steps ''traceStart'' self) (\<lambda>a.
       pbind (count_traces 1 a) (\<lambda>_.
       pbind (storage_does (createChildCoroutineStorage (trace_id he self c))) (\<lambda>_.
       pbind (atomic (on_storage (addOngoingTraceInfo
         \<lparr>ti_coroutine_id = trace_id he self c, ti_start = start, ti_end = 0\<rparr>))) (\<lambda>added.
       if added then Return ()
       else Raise (Runtime_error (''Found trace that already started: '' @ to_string (sint (trace_id he self c)))))))))
      (\<lambda>_. anything)"
    by (intro triple_next [OF consumer.triple_find_thread] conc_rules)
qed

lemma triple_finish_trace [conc_rules]: "growing.triple env prof i E anything (finish_trace_steps info) (\<lambda>_. anything)"
  unfolding finish_trace_steps_def by (auto intro!: conc_rules)

lemma triple_getCoroutineInfo_case [conc_rules]:
  assumes "\<And>a. growing.triple env prof i E (known_coroutine c) (f a) (\<lambda>_. anything)"
  shows "growing.triple env prof i E anything
    (pbind (getCoroutineInfo_steps c) (\<lambda>p. case p of None \<Rightarrow> Return () | Some a \<Rightarrow> f a)) (\<lambda>_. anything)"
proof (rule growing.triple_bind [OF triple_getCoroutineInfo])
  show "growing.triple env prof i E (\<lambda>pf. p \<noteq> None \<longrightarrow> known_coroutine c pf)
      (case p of None \<Rightarrow> Return () | Some a \<Rightarrow> f a) (\<lambda>_. anything)" for p
    using assms by (cases p) (auto intro: triple_skip)
qed

lemma triple_forget: "growing.triple env prof i E anything p Q \<Longrightarrow> growing.triple env prof i E P p Q"
  by (rule growing.triple_pre) simp_all

lemma triple_traceEnd:
  "growing.triple env prof i E (registered self) (traceEnd_steps he self now r finish c) (\<lambda>_. anything)"
  unfolding traceEnd_steps_def
  by (rule triple_next [OF consumer.triple_find_thread], rule triple_next, rule conc_rules,
      rule triple_getCoroutineInfo_case, rule triple_forget) (intro conc_rules)

lemma triple_coroutineCreated:
  "growing.triple env prof i E anything (coroutineCreated_steps self t1 t2 c) (\<lambda>_. anything)"
  unfolding coroutineCreated_steps_def
proof (rule triple_next [OF triple_observes(1)], rule triple_next [OF triple_createCoroutineInfo])
  fix parent :: i64
  let ?traced = "\<lambda>pf. has_object parent (child_coroutines_map (pf_storage pf))"
  have "growing.stable env prof i (\<lambda>pf. b \<longrightarrow> ?traced pf)" for b by (cases b) simp_all
  then have "growing.triple env prof i E anything (storage_reads (containsChildCoroutineStorage parent))
      (\<lambda>traced pf. traced \<longrightarrow> ?traced pf)"
    by (intro triple_reads) (simp_all add: containsChildCoroutineStorage_def contains_has_object)
  moreover have "growing.triple env prof i E (\<lambda>pf. traced \<longrightarrow> ?traced pf)
      (if traced then pbind (addChildCoroutine_steps c parent) (\<lambda>_. storage_does (createChildCoroutineStorage c))
       else Return ()) (\<lambda>_. anything)" for traced
    using triple_next [OF triple_addChildCoroutine triple_operations(1)] by (auto intro: triple_skip)
  ultimately show "growing.triple env prof i E anything
      (pbind (storage_reads (containsChildCoroutineStorage parent)) (\<lambda>traced.
       if traced then pbind (addChildCoroutine_steps c parent) (\<lambda>_. storage_does (createChildCoroutineStorage c))
       else Return ())) (\<lambda>_. anything)"
    by (rule growing.triple_bind)
qed

lemma triple_pause [conc_rules]:
  "growing.triple env prof i E anything (pause_coroutine_steps self now r a) (\<lambda>_. anything)"
  unfolding pause_coroutine_steps_def by (auto intro!: conc_rules)

lemma triple_record_suspension:
  assumes "those (map (pure_method_frame env) ms) = None \<Longrightarrow> \<forall>e. E e"
  shows "growing.triple env prof i E (known_coroutine c) (record_suspension_steps env start ms c) (\<lambda>_. anything)"
  unfolding record_suspension_steps_def
proof (rule growing.triple_bind [OF carry_facts(2)])
  show "growing.triple env prof i E anything (process_methods_steps env ms) (\<lambda>_. anything)"
    by (rule growing.triple_post [OF triple_process_methods]) (simp_all add: assms)
  show "growing.triple env prof i E (known_coroutine c)
      (addSuspensionInfo_steps \<lparr>si_coroutine_id = c, si_start = start, si_end = 0, si_stack_trace = frames\<rparr>)
      (\<lambda>_. anything)" for frames
    using triple_addSuspensionInfo [of env prof i E "\<lparr>si_coroutine_id = c, si_start = start, si_end = 0, si_stack_trace = frames\<rparr>"]
    by simp
qed

lemma triple_coroutineSuspended:
  assumes "\<And>ms. frames = Some ms \<Longrightarrow> those (map (pure_method_frame env) (take suspension_stack_depth ms)) = None \<Longrightarrow> \<forall>e. E e"
  shows "growing.triple env prof i E anything (coroutineSuspended_steps env self now r frames start c) (\<lambda>_. anything)"
  unfolding coroutineSuspended_steps_def
proof (rule triple_next [OF triple_changes(2)], rule triple_getCoroutineInfo_case)
  fix a
  show "growing.triple env prof i E (known_coroutine c)
      (pbind (pause_coroutine_steps self now r a) (\<lambda>_.
       case frames of None \<Rightarrow> Return ()
       | Some methods \<Rightarrow>
           if length (take suspension_stack_depth methods) \<ge> 1
           then record_suspension_steps env start (take suspension_stack_depth methods) c else Return ()))
      (\<lambda>_. anything)"
    by (rule growing.triple_bind [OF carry_facts(2) [OF triple_pause]])
      (use assms in \<open>auto intro!: triple_skip triple_record_suspension split: option.splits\<close>)
qed

lemma triple_coroutineResumed:
  "growing.triple env prof i E anything (coroutineResumed_steps self r now now' c) (\<lambda>_. anything)"
  unfolding coroutineResumed_steps_def
proof (rule triple_next [OF triple_changes(2)], rule triple_getCoroutineInfo_case, rule triple_forget,
    rule triple_next [OF triple_changes(4)], rule triple_next [OF triple_updates(1)],
    rule triple_next [OF triple_getLastSuspensionInfo])
  show "growing.triple env prof i E anything
      (case q of None \<Rightarrow> Return () | Some b \<Rightarrow> storage_does (update_suspension b (\<lambda>si. si\<lparr>si_end := now'\<rparr>)))
      (\<lambda>_. anything)" for q
    by (cases q) (auto intro: conc_rules)
qed

lemma triple_coroutineCompleted:
  "growing.triple env prof i E anything (coroutineCompleted_steps self finish now r c) (\<lambda>_. anything)"
  unfolding coroutineCompleted_steps_def
  by (rule triple_next [OF triple_changes(2)], rule triple_getCoroutineInfo_case, rule triple_forget)
    (intro conc_rules)

text \<open>\<open>gcFinish\<close> fails when the list of collections is empty, which its callers have to exclude.\<close>

lemma keeps_gc_list:
  assumes "conc_ok env pf" and "\<forall>e\<in>set (cl_list l). e < next_addr (gc_heap (pf_storage pf))"
  shows "keeps env prof i pf (pf\<lparr>pf_storage := (pf_storage pf)\<lparr>gc_events := l\<rparr>\<rparr>)"
  using conc_okD(2) [OF assms(1)] assms(2)
  by (intro keeps_storage_plain [OF assms(1)]) (simp_all add: storage_ok_def storage_grows_def gc_ok_def)

lemma keeps_gc_heap:
  assumes "conc_ok env pf"
  shows "keeps env prof i pf (pf\<lparr>pf_storage := (pf_storage pf)\<lparr>gc_heap := heap_update e f (gc_heap (pf_storage pf))\<rparr>\<rparr>)"
  using conc_okD(2) [OF assms]
  by (intro keeps_storage_plain [OF assms]) (simp_all add: storage_ok_def storage_grows_def gc_ok_def)

lemma gc_events_bound:
  "conc_ok env pf \<Longrightarrow> e \<in> set (cl_list (gc_events (pf_storage pf))) \<Longrightarrow> e < next_addr (gc_heap (pf_storage pf))"
  using storage_okD(9) [OF conc_okD(2), of env pf] by (simp add: gc_ok_def)

lemma triple_pop_gc:
  assumes "\<And>w. E (Undefined_behaviour w)"
  shows "growing.triple env prof i E anything (attempt (on_storage pop_gc)) (\<lambda>_. anything)"
proof (rule growing.triple_attempt)
  fix pf
  assume ok: "conc_ok env pf"
  show "conc_ok env (snd (on_storage pop_gc pf)) \<and> guar prof i pf (snd (on_storage pop_gc pf))
    \<and> (case fst (on_storage pop_gc pf) of Inl e \<Rightarrow> E e | Inr x \<Rightarrow> True)"
  proof (cases "cl_list (gc_events (pf_storage pf))")
    case Nil
    with ok assms show ?thesis
      by (simp add: pop_gc_def cl_pop_front_locked_def keeps_refl [unfolded keeps_def])
  next
    case (Cons a as)
    with keeps_gc_list [OF ok, of "(gc_events (pf_storage pf))\<lparr>cl_list := as\<rparr>"] gc_events_bound [OF ok]
    show ?thesis by (simp add: pop_gc_def cl_pop_front_locked_def keeps_def)
  qed
qed simp_all

lemma triple_gcFinish:
  assumes "\<And>w. E (Undefined_behaviour w)"
  shows "growing.triple env prof i E anything (gcFinish_steps now) (\<lambda>_. anything)"
  unfolding gcFinish_steps_def
proof (rule growing.triple_bind)
  let ?event = "\<lambda>e pf. e < next_addr (gc_heap (pf_storage pf))"
  show "growing.triple env prof i E anything (attempt (on_storage (\<lambda>s. (cl_back (gc_events s), s)))) ?event"
    by (rule growing.triple_attempt)
      (use assms in \<open>auto simp: cl_back_def keeps_refl [unfolded keeps_def] intro!: gc_events_bound\<close>)
  fix e
  have push: "growing.triple env prof i E (?event e)
      (storage_does (\<lambda>s. s\<lparr>gc_events := cl_push_back e (gc_events s)\<rparr>)) (\<lambda>_. anything)"
    unfolding storage_does_def
  proof (rule growing.triple_modify)
    fix pf
    assume ok: "conc_ok env pf" and e: "?event e pf"
    have "\<forall>x\<in>set (cl_list (cl_push_back e (gc_events (pf_storage pf)))). x < next_addr (gc_heap (pf_storage pf))"
      using e gc_events_bound [OF ok] by (auto simp: cl_push_back_def)
    from keeps_gc_list [OF ok this]
    show "conc_ok env (pf\<lparr>pf_storage := (pf_storage pf)\<lparr>gc_events := cl_push_back e (gc_events (pf_storage pf))\<rparr>\<rparr>)
      \<and> guar prof i pf (pf\<lparr>pf_storage := (pf_storage pf)\<lparr>gc_events := cl_push_back e (gc_events (pf_storage pf))\<rparr>\<rparr>)
      \<and> True"
      by (simp add: keeps_def)
  qed simp_all
  have pop: "growing.triple env prof i E anything (if empty then Return () else attempt (on_storage pop_gc)) (\<lambda>_. anything)"
    for empty
    using triple_pop_gc [where E = E, OF assms] by (auto intro: triple_skip)
  have set_end: "growing.triple env prof i E anything
      (storage_does (\<lambda>s. s\<lparr>gc_heap := heap_update e (\<lambda>g. g\<lparr>gc_end_time := now\<rparr>) (gc_heap s)\<rparr>)) (\<lambda>_. anything)"
    by (rule triple_op) (rule keeps_gc_heap)
  show "growing.triple env prof i E (?event e)
      (pbind (storage_reads (\<lambda>s. cl_empty (gc_events s))) (\<lambda>empty.
       pbind (if empty then Return () else attempt (on_storage pop_gc)) (\<lambda>_.
       pbind (storage_does (\<lambda>s. s\<lparr>gc_heap := heap_update e (\<lambda>g. g\<lparr>gc_end_time := now\<rparr>) (gc_heap s)\<rparr>)) (\<lambda>_.
       storage_does (\<lambda>s. s\<lparr>gc_events := cl_push_back e (gc_events s)\<rparr>))))) (\<lambda>_. anything)"
    by (rule growing.triple_bind [OF carry_facts(3) [OF triple_observes(2)]],
        rule growing.triple_bind [OF carry_facts(3) [OF pop]],
        rule growing.triple_bind [OF carry_facts(3) [OF set_end]]) (rule push)
qed

section \<open>Schedules\<close>

text \<open>
  Which events may begin on a thread: the callbacks of the agent report their own thread, which
  starts and ends traces only once it is registered; samples are taken and processed by the
  profiler thread. Marking is included, cleaning is not.
\<close>

definition may_start :: "method_env \<Rightarrow> pthread_t \<Rightarrow> pthread_t \<Rightarrow> profiler_event \<Rightarrow> profiler \<Rightarrow> bool" where
  "may_start env prof i ev pf =
     (case ev of
        Trace_start self _ _ _ _ \<Rightarrow> self = i \<and> findThread i (pf_jvm pf) \<noteq> None
      | Trace_end self _ _ _ _ \<Rightarrow> self = i \<and> findThread i (pf_jvm pf) \<noteq> None
      | Coroutine_created self _ _ _ \<Rightarrow> self = i
      | Coroutine_suspended self _ _ _ _ _ \<Rightarrow> self = i
      | Coroutine_resumed self _ _ _ _ \<Rightarrow> self = i
      | Coroutine_completed self _ _ _ _ \<Rightarrow> self = i
      | Sample time trace c \<Rightarrow> i = prof \<and> processed_of env (pf_jvm pf) (sample_record time trace c) \<noteq> None
      | Process_traces \<Rightarrow> i = prof
      | Cleaner_clean \<Rightarrow> False
      | _ \<Rightarrow> True)"

text \<open>The failures that are left.\<close>

definition conc_error :: "hash_env \<Rightarrow> method_env \<Rightarrow> profiler_event \<Rightarrow> error \<Rightarrow> bool" where
  "conc_error he env ev e =
     (case ev of
        Trace_start self _ _ _ c \<Rightarrow>
          e = Runtime_error (''Found trace that already started: '' @ to_string (sint (trace_id he self c)))
      | Coroutine_suspended _ _ _ frames _ _ \<Rightarrow>
          (case frames of
             None \<Rightarrow> False
           | Some ms \<Rightarrow> those (map (pure_method_frame env) (take suspension_stack_depth ms)) = None)
      | Gc_finished _ \<Rightarrow> (\<exists>w. e = Undefined_behaviour w)
      | _ \<Rightarrow> False)"

definition registers :: "profiler \<Rightarrow> profiler \<Rightarrow> bool" where
  "registers pf pf' \<longleftrightarrow>
     (\<exists>err name tid b. pf' = pf\<lparr>pf_jvm := addCurrentThread err name tid b (pf_jvm pf)\<rparr>)"

lemma registers_grows:
  assumes "conc_ok env pf" and "registers pf pf'"
  shows "conc_ok env pf' \<and> rely prof i pf pf'"
proof -
  from assms(2) obtain err name tid b where pf': "pf' = pf\<lparr>pf_jvm := addCurrentThread err name tid b (pf_jvm pf)\<rparr>"
    by (auto simp: registers_def)
  have g: "jvm_grows (pf_jvm pf) (addCurrentThread err name tid b (pf_jvm pf))"
    using profiler_okD(2) [OF conc_okD(1) [OF assms(1)]] by (rule jvm_grows_add)
  moreover have "profiler_ok pf'"
    using conc_okD(1) [OF assms(1)] by (simp add: pf' profiler_ok_def threads_ok_add)
  ultimately show ?thesis
    using assms(1) processed_of_grows [OF g]
    by (simp add: pf' conc_ok_def rely_def grows_def storage_grows_def raw_grows_def)
qed

lemma triple_profiler_thread:
  "growing.triple env prof i E (may_start env prof i Process_traces) (handler_steps he env Process_traces) (\<lambda>_. anything)"
  "growing.triple env prof i E (may_start env prof i (Sample time trace c)) (handler_steps he env (Sample time trace c))
     (\<lambda>_. anything)"
proof -
  have "growing.triple env prof prof E anything (handler_steps he env Process_traces) (\<lambda>_. anything)"
    unfolding handler_steps.simps
    by (rule triple_next [OF consumer.triple_process_round triple_skip])
      (auto intro: growing.triple_post [OF triple_record_frames] triple_addProcessedTrace)
  then show "growing.triple env prof i E (may_start env prof i Process_traces) (handler_steps he env Process_traces)
      (\<lambda>_. anything)"
    by (auto simp: growing.triple_def may_start_def)
  show "growing.triple env prof i E (may_start env prof i (Sample time trace c))
      (handler_steps he env (Sample time trace c)) (\<lambda>_. anything)"
    using consumer.triple_sample [of env prof E time trace c] by (auto simp: growing.triple_def may_start_def)
qed

lemma safe_handler:
  assumes "conc_ok env pf" and "may_start env prof i ev pf"
  shows "safe (conc_ok env) (rely prof i) (guar prof i) (conc_error he env ev) (handler_steps he env ev)
    (\<lambda>_. anything) pf"
proof -
  let ?E = "conc_error he env ev"
  have "growing.triple env prof i ?E (may_start env prof i ev) (handler_steps he env ev) (\<lambda>_. anything)"
  proof (cases ev)
    case (Trace_start self t1 t2 start c)
    have "growing.triple env prof i ?E (registered self) (traceStart_steps he self t1 t2 start c) (\<lambda>_. anything)"
      by (rule triple_traceStart) (simp add: Trace_start conc_error_def)
    then show ?thesis
      unfolding Trace_start handler_steps.simps by (rule growing.triple_pre) (auto simp: may_start_def)
  next
    case (Trace_end self now r finish c)
    then show ?thesis
      unfolding Trace_end handler_steps.simps by (intro growing.triple_pre [OF triple_traceEnd]) (auto simp: may_start_def)
  next
    case (Coroutine_suspended self now r frames start c)
    have "growing.triple env prof i ?E anything (coroutineSuspended_steps env self now r frames start c) (\<lambda>_. anything)"
      by (rule triple_coroutineSuspended) (simp add: Coroutine_suspended conc_error_def)
    then show ?thesis unfolding Coroutine_suspended handler_steps.simps by (rule triple_forget)
  next
    case (Gc_finished t)
    have "growing.triple env prof i ?E anything (gcFinish_steps t) (\<lambda>_. anything)"
      by (rule triple_gcFinish) (simp add: Gc_finished conc_error_def)
    then show ?thesis unfolding Gc_finished handler_steps.simps by (rule triple_forget)
  next
    case Cleaner_clean
    then show ?thesis by (simp add: growing.triple_def may_start_def)
  qed (simp_all only: triple_profiler_thread, simp_all only: handler_steps.simps mark_for_clean_steps_def,
      (rule triple_forget, intro triple_coroutineCreated triple_coroutineResumed triple_coroutineCompleted conc_rules)+)
  then show ?thesis using assms by (simp add: growing.triple_def)
qed

section \<open>Properties\<close>

text \<open>
  C3. Handlers that run at the same time do not break each other. Any number of threads run
  handlers, interleaved critical section by critical section, while the profiler thread takes and
  processes samples, the collector reports, threads are registered and the cleaner marks entries.
  Then the profiler is well-formed in every state, and a handler fails only for the reasons it has
  when it runs alone: the trace is already started, the JVM cannot name a method of the suspended
  stack, or a collection ends when none is recorded. No pointer is null and no entry is missing.
\<close>

theorem handlers_interleave_safely:
  assumes "conc_ok env pf0"
    and "(pool_step (handler_steps he env) (may_start env prof) registers)\<^sup>*\<^sup>* (\<lambda>_. None, pf0) (ps, pf)"
  shows "profiler_ok pf \<and> tables_ok env (pf_tables pf)
    \<and> (\<forall>i ev e. ps i = Some (ev, Raise e) \<longrightarrow> conc_error he env ev e)"
proof -
  have "growing.pool_safe env prof (\<lambda>_. conc_error he env) (ps, pf)"
    using assms(2,1) safe_handler registers_grows by (rule growing.pool_safe_steps)
  from growing.pool_safeD [OF this] show ?thesis by (simp add: conc_ok_def)
qed

text \<open>
  The instance: thread 4 creates a coroutine while thread 3 starts a trace twice; the second start
  is refused.
\<close>

definition example_schedule :: "(pthread_t, profiler_event) decision list" where
  "example_schedule =
     [Start 3 (Trace_start 3 10 11 12 7), Go 3, Start 4 (Coroutine_created 4 1 2 7), Go 4, Go 3, Go 4, Go 4,
      Go 3, Go 4, Go 3, Go 3, Start 3 (Trace_start 3 10 11 13 7), Go 3, Go 3, Go 4, Go 3, Go 3]"

lemma example_conc_ok: "conc_ok example_env example_profiler"
  using example_ok by (simp add: conc_ok_def)
    (simp add: example_profiler_def profiler_new_def storage_new_def cl_new_def)

theorem handlers_interleave_safely_witness:
  "\<exists>ps pf ev e.
     (pool_step (handler_steps example_hash example_env) (may_start example_env 1) registers)\<^sup>*\<^sup>*
       (\<lambda>_. None, example_profiler) (ps, pf)
     \<and> profiler_ok pf \<and> ps 3 = Some (ev, Raise e) \<and> conc_error example_hash example_env ev e"
proof -
  have "failure 3 (schedule (handler_steps example_hash example_env) (may_start example_env 1) example_schedule
      (\<lambda>_. None, example_profiler)) =
        Some (Trace_start 3 10 11 13 7, Runtime_error ''Found trace that already started: 7'')"
    by code_simp
  then obtain ps pf where
    r: "(pool_step (handler_steps example_hash example_env) (may_start example_env 1) registers)\<^sup>*\<^sup>*
      (\<lambda>_. None, example_profiler) (ps, pf)"
    and f: "ps 3 = Some (Trace_start 3 10 11 13 7, Raise (Runtime_error ''Found trace that already started: 7''))"
    by (rule failure_reached [where env = registers])
  from handlers_interleave_safely [OF example_conc_ok r] r f show ?thesis by blast
qed

end
