(* ===== verification/Cleaner_Races.thy ===== *)
theory Cleaner_Races
  imports Handler_Concurrency
begin

text \<open>
  The same threads beside a cleaner that removes entries. Between the call that asks whether a map
  contains a key and the call that fetches its value the cleaner may remove the key; \<open>get\<close> then
  binds it to a null pointer and \<open>at\<close> throws. The theory shows which errors each handler can meet,
  and that the cleaner really causes them.
\<close>

section \<open>What is left of the invariant\<close>

text \<open>
  Objects are never freed while somebody holds a pointer, so that addresses stay valid; but an
  entry may vanish and a key may be bound to null.
\<close>

definition weak_ok :: "method_env \<Rightarrow> profiler \<Rightarrow> bool" where
  "weak_ok env pf \<longleftrightarrow>
     om_ok (coroutine_info_map (pf_storage pf)) (coroutine_infos (pf_storage pf))
     \<and> om_ok (child_coroutines_map (pf_storage pf)) (child_lists (pf_storage pf))
     \<and> om_ok (processed_map (pf_storage pf)) (processed_lists (pf_storage pf))
     \<and> om_no_null (processed_map (pf_storage pf))
     \<and> threads_ok (pf_jvm pf)
     \<and> (\<forall>r\<in>set (cl_list (raw_list (pf_storage pf))). processed_of env (pf_jvm pf) r \<noteq> None)"

definition weak_rely :: "pthread_t \<Rightarrow> pthread_t \<Rightarrow> profiler \<Rightarrow> profiler \<Rightarrow> bool" where
  "weak_rely prof i pf pf' \<longleftrightarrow> jvm_grows (pf_jvm pf) (pf_jvm pf') \<and> (i = prof \<longrightarrow> raw_grows pf pf')"

definition weak_guar :: "pthread_t \<Rightarrow> pthread_t \<Rightarrow> profiler \<Rightarrow> profiler \<Rightarrow> bool" where
  "weak_guar prof i pf pf' \<longleftrightarrow> jvm_grows (pf_jvm pf) (pf_jvm pf') \<and> (i \<noteq> prof \<longrightarrow> raw_grows pf pf')"

interpretation cleaned: rely_guarantee "weak_ok env" "weak_rely prof" "weak_guar prof" for env prof
  by unfold_locales (auto simp: weak_rely_def weak_guar_def intro: jvm_grows_trans raw_grows_trans)

interpretation bereft: sample_consumer "weak_ok env" "weak_rely prof" "weak_guar prof" env prof for env prof
  by unfold_locales (simp_all add: weak_rely_def weak_guar_def weak_ok_def)

lemma conc_ok_weak: "conc_ok env pf \<Longrightarrow> weak_ok env pf"
  by (simp add: conc_ok_def weak_ok_def profiler_ok_def storage_ok_def)

section \<open>Steps\<close>

text \<open>An operation is harmless when it keeps what is left of the invariant of the storage.\<close>

definition maps_ok :: "trace_storage \<Rightarrow> bool" where
  "maps_ok s \<longleftrightarrow>
     om_ok (coroutine_info_map s) (coroutine_infos s) \<and> om_ok (child_coroutines_map s) (child_lists s)
     \<and> om_ok (processed_map s) (processed_lists s) \<and> om_no_null (processed_map s)"

definition harmless :: "(trace_storage \<Rightarrow> trace_storage) \<Rightarrow> bool" where
  "harmless u \<longleftrightarrow> (\<forall>s. maps_ok s \<longrightarrow> maps_ok (u s) \<and> raw_list (u s) = raw_list s)"

named_theorems harmless_rules \<open>operations that keep the rest of the invariant\<close>

lemma harmless_operations [harmless_rules]:
  "harmless (insert_coroutine t1 t2 c)" "harmless (push_suspension si a)" "harmless (insert_samples c r)"
  "harmless (createChildCoroutineStorage c)" "harmless (update_coroutine a f)" "harmless (update_suspension b g)"
  "harmless (removeOngoingTraceInfo c)" "harmless (storage_gcStart t)"
  "harmless (\<lambda>s. s\<lparr>child_lists := heap_update a h (child_lists s)\<rparr>)"
  "harmless (\<lambda>s. s\<lparr>processed_lists := heap_update a k (processed_lists s)\<rparr>)"
  by (simp_all add: harmless_def maps_ok_def insert_coroutine_def push_suspension_def insert_samples_def
      createChildCoroutineStorage_def update_coroutine_def update_suspension_def removeOngoingTraceInfo_def
      storage_gcStart_def om_ok_insert om_no_null_insert Let_def split_def)

lemma harmless_results [harmless_rules]:
  "harmless (\<lambda>s. snd (get_coroutine c s))" "harmless (\<lambda>s. snd (getChildCoroutines c s))"
  "harmless (\<lambda>s. snd (addOngoingTraceInfo i s))" "harmless (\<lambda>s. snd (findOngoingTraceInfo c s))"
  "harmless (\<lambda>s. snd (find_open_suspension a s))" "harmless (\<lambda>s. snd (pop_gc s))" "harmless (\<lambda>s. snd (clean_gc s))"
  by (auto simp: harmless_def maps_ok_def get_coroutine_def getChildCoroutines_def addOngoingTraceInfo_def
      findOngoingTraceInfo_def find_open_suspension_def pop_gc_def clean_gc_def om_ok_get_null Let_def split_def
      split: sum.splits)

lemma harmless_cleaner [harmless_rules]:
  "harmless (\<lambda>s. s\<lparr>processed_map := cm_mark_current_values_for_clean (processed_map s)\<rparr>)"
  "harmless (\<lambda>s. s\<lparr>child_coroutines_map := cm_mark_current_values_for_clean (child_coroutines_map s)\<rparr>)"
  "harmless (\<lambda>s. s\<lparr>coroutine_info_map := cm_mark_current_values_for_clean (coroutine_info_map s)\<rparr>)"
  "harmless (\<lambda>s. s\<lparr>processed_map := cm_clean (processed_map s)\<rparr>)"
  "harmless (\<lambda>s. s\<lparr>child_coroutines_map := cm_clean (child_coroutines_map s)\<rparr>)"
  "harmless (\<lambda>s. s\<lparr>coroutine_info_map := cm_clean (coroutine_info_map s)\<rparr>)"
  "harmless (\<lambda>s. s\<lparr>gc_events := f s\<rparr>)" "harmless (\<lambda>s. s\<lparr>gc_heap := h s\<rparr>)"
  by (simp_all add: harmless_def maps_ok_def om_ok_clean om_no_null_clean)

lemma weak_storage:
  assumes "harmless u" and "weak_ok env pf"
  shows "weak_ok env (pf\<lparr>pf_storage := u (pf_storage pf)\<rparr>) \<and> weak_guar prof i pf (pf\<lparr>pf_storage := u (pf_storage pf)\<rparr>)"
proof -
  have "maps_ok (pf_storage pf)" using assms(2) by (simp add: weak_ok_def maps_ok_def)
  with assms(1) have "maps_ok (u (pf_storage pf))" "raw_list (u (pf_storage pf)) = raw_list (pf_storage pf)"
    unfolding harmless_def by blast+
  with assms(2) show ?thesis by (simp add: weak_ok_def maps_ok_def weak_guar_def raw_grows_def)
qed

lemma bounded_does [bounded_rules]:
  "harmless u \<Longrightarrow> bounded (weak_ok env) (weak_guar prof i) E (storage_does u)"
  unfolding storage_does_def by (rule bounded_modify) (rule weak_storage)

lemma bounded_on_storage [bounded_rules]:
  "harmless (\<lambda>s. snd (op s)) \<Longrightarrow> bounded (weak_ok env) (weak_guar prof i) E (atomic (on_storage op))"
  by (rule bounded_atomic) (use weak_storage [of "\<lambda>s. snd (op s)"] in simp)

lemma bounded_tries:
  assumes "harmless (\<lambda>s. snd (op s))" and "\<And>s e. maps_ok s \<Longrightarrow> fst (op s) = Inl e \<Longrightarrow> E e"
  shows "bounded (weak_ok env) (weak_guar prof i) E (attempt (on_storage op))"
proof (rule bounded_attempt)
  fix pf
  assume ok: "weak_ok env pf"
  then have "maps_ok (pf_storage pf)" by (simp add: weak_ok_def maps_ok_def)
  with assms(2) weak_storage [OF assms(1) ok]
  show "weak_ok env (snd (on_storage op pf)) \<and> weak_guar prof i pf (snd (on_storage op pf))
    \<and> (\<forall>e. fst (on_storage op pf) = Inl e \<longrightarrow> E e)"
    by simp
qed

lemma weak_guar_refl [simp]: "weak_guar prof i pf pf"
  by (simp add: weak_guar_def)

lemma bounded_reads [bounded_rules]:
  "bounded (weak_ok env) (weak_guar prof i) E (observe f)"
  "bounded (weak_ok env) (weak_guar prof i) E (storage_reads g)"
  unfolding storage_reads_def by (rule bounded_observe, simp)+

lemma weak_fields:
  assumes "weak_ok env pf"
  shows "weak_ok env (pf\<lparr>current_coroutine_id := x\<rparr>) \<and> weak_guar prof i pf (pf\<lparr>current_coroutine_id := x\<rparr>)"
    and "weak_ok env (pf\<lparr>current_rusage := y\<rparr>) \<and> weak_guar prof i pf (pf\<lparr>current_rusage := y\<rparr>)"
    and "weak_ok env (pf\<lparr>pf_output_counter := n\<rparr>) \<and> weak_guar prof i pf (pf\<lparr>pf_output_counter := n\<rparr>)"
    and "weak_ok env (pf\<lparr>pf_files := fs\<rparr>) \<and> weak_guar prof i pf (pf\<lparr>pf_files := fs\<rparr>)"
    and "weak_ok env (pf\<lparr>pf_tables := mt\<rparr>) \<and> weak_guar prof i pf (pf\<lparr>pf_tables := mt\<rparr>)"
    and "weak_ok env (pf\<lparr>pf_jvm := add_current_traces d a (pf_jvm pf)\<rparr>)
      \<and> weak_guar prof i pf (pf\<lparr>pf_jvm := add_current_traces d a (pf_jvm pf)\<rparr>)"
  using assms by (simp_all add: weak_ok_def weak_guar_def raw_grows_def jvm_grows_def)

lemma weak_charge:
  assumes "weak_ok env pf"
  shows "weak_ok env (charge_usage self now r a pf) \<and> weak_guar prof i pf (charge_usage self now r a pf)"
proof (cases "cells (coroutine_infos (pf_storage pf)) a")
  case None
  with assms show ?thesis by (simp add: charge_usage_def)
next
  case (Some ci)
  define ci' where "ci' = fst (calculate_resource_usage now r (current_rusage pf self) ci)"
  have "charge_usage self now r a pf =
      (pf\<lparr>pf_storage := update_coroutine a (\<lambda>_. ci') (pf_storage pf)\<rparr>)\<lparr>current_rusage :=
        (current_rusage pf)(self := snd (calculate_resource_usage now r (current_rusage pf self) ci))\<rparr>"
    using Some by (simp add: charge_usage_def Let_def split_def ci'_def)
  with weak_storage [OF harmless_operations(5) assms] show ?thesis
    by (simp add: weak_ok_def weak_guar_def raw_grows_def)
qed

lemma bounded_changes [bounded_rules]:
  "bounded (weak_ok env) (weak_guar prof i) E (set_current self c)"
  "bounded (weak_ok env) (weak_guar prof i) E (count_traces d a)"
  "bounded (weak_ok env) (weak_guar prof i) E (modify (charge_usage self now r a))"
  "bounded (weak_ok env) (weak_guar prof i) E (modify (\<lambda>pf. pf\<lparr>current_rusage := f pf\<rparr>))"
  "bounded (weak_ok env) (weak_guar prof i) E (tables_do u)"
  unfolding set_current_def count_traces_def tables_do_def
  by (rule bounded_modify, rule weak_fields weak_charge, assumption)+

lemma bounded_atomics [bounded_rules]:
  "bounded (weak_ok env) (weak_guar prof i) E (atomic (on_tables op))"
  "bounded (weak_ok env) (weak_guar prof i) E (atomic next_file)"
  by (rule bounded_atomic; simp add: next_file_def weak_fields)+

section \<open>The errors of each handler\<close>

definition race_error :: "hash_env \<Rightarrow> method_env \<Rightarrow> profiler_event \<Rightarrow> error \<Rightarrow> bool" where
  "race_error he env ev e =
     (case ev of
        Trace_start self _ _ _ c \<Rightarrow>
          e = Runtime_error (''Found trace that already started: '' @ to_string (sint (trace_id he self c)))
      | Trace_end _ _ _ _ _ \<Rightarrow> e = Null_dereference ''add_trace_info''
      | Coroutine_created _ _ _ _ \<Rightarrow> e = Null_dereference ''addChildCoroutine''
      | Coroutine_suspended _ _ _ frames _ _ \<Rightarrow>
          e = Out_of_range ''unordered_map::at'' \<or> e = Null_dereference ''addSuspensionInfo''
          \<or> (case frames of
                None \<Rightarrow> False
              | Some ms \<Rightarrow> those (map (pure_method_frame env) (take suspension_stack_depth ms)) = None)
      | Coroutine_resumed _ _ _ _ _ \<Rightarrow> e = Null_dereference ''getLastSuspensionInfo''
      | Process_traces \<Rightarrow> e = Out_of_range ''unordered_map::at''
      | Gc_finished _ \<Rightarrow> (\<exists>w. e = Undefined_behaviour w)
      | Cleaner_clean \<Rightarrow> (\<exists>w. e = Undefined_behaviour w)
      | _ \<Rightarrow> False)"

lemma cm_at_error: "cm_at k m = Inl e \<Longrightarrow> e = Out_of_range ''unordered_map::at''"
  by (auto simp: cm_at_def split: option.splits)

lemma bounded_createCoroutineInfo [bounded_rules]:
  "bounded (weak_ok env) (weak_guar prof i) E (createCoroutineInfo_steps t1 t2 c)"
  unfolding createCoroutineInfo_steps_def by (intro bounded_rules harmless_rules)

lemma bounded_getCoroutineInfo [bounded_rules]:
  "bounded (weak_ok env) (weak_guar prof i) E (getCoroutineInfo_steps c)"
  unfolding getCoroutineInfo_steps_def by (intro bounded_rules harmless_rules)

lemma bounded_getLastSuspensionInfo:
  assumes "E (Null_dereference ''getLastSuspensionInfo'')"
  shows "bounded (weak_ok env) (weak_guar prof i) E (getLastSuspensionInfo_steps c)"
  unfolding getLastSuspensionInfo_steps_def
  by (intro bounded_rules bounded_tries harmless_rules assms)
    (use assms in \<open>auto simp: find_open_suspension_def split: option.splits\<close>)

lemma bounded_addSuspensionInfo:
  assumes "E (Null_dereference ''addSuspensionInfo'')" and "E (Out_of_range ''unordered_map::at'')"
  shows "bounded (weak_ok env) (weak_guar prof i) E (addSuspensionInfo_steps si)"
  unfolding addSuspensionInfo_steps_def
  by (intro bounded_rules bounded_tries harmless_rules assms)
    (use assms in \<open>auto simp: harmless_def dest: cm_at_error\<close>)

lemma bounded_addChildCoroutine:
  assumes "E (Null_dereference ''addChildCoroutine'')"
  shows "bounded (weak_ok env) (weak_guar prof i) E (addChildCoroutine_steps c parent)"
  unfolding addChildCoroutine_steps_def by (intro bounded_rules harmless_rules assms)

lemma bounded_processMethodInfo:
  assumes "pure_method_frame env m = None \<Longrightarrow> \<forall>e. E e"
  shows "bounded (weak_ok env) (weak_guar prof i) E (processMethodInfo_steps env m)"
proof -
  have learn: "bounded (weak_ok env) (weak_guar prof i) E (learn_class_steps env m)"
    if "GetMethodName env m = Some nm" for nm
    using assms that
    by (auto simp: learn_class_steps_def pure_method_frame_def class_of_signature_def intro: bounded_rules
        split: option.splits if_splits prod.splits)
  show ?thesis
  proof (cases "GetMethodName env m")
    case None
    then have "\<forall>e. E e" by (intro assms) (simp add: pure_method_frame_def)
    with None show ?thesis unfolding processMethodInfo_steps_def by (auto intro!: bounded_rules)
  next
    case (Some nm)
    with learn [OF Some] show ?thesis
      unfolding processMethodInfo_steps_def class_name_steps_def
      by (cases nm) (auto intro!: bounded_rules)
  qed
qed

lemma bounded_process_methods:
  assumes "those (map (pure_method_frame env) ms) = None \<Longrightarrow> \<forall>e. E e"
  shows "bounded (weak_ok env) (weak_guar prof i) E (process_methods_steps env ms)"
  using assms
proof (induction ms)
  case (Cons m ms)
  then show ?case by (auto intro!: bounded_rules bounded_processMethodInfo split: option.splits)
qed simp

lemma bounded_processProfilerMethodInfo:
  assumes "pure_frame env info \<noteq> None"
  shows "bounded (weak_ok env) (weak_guar prof i) E (processProfilerMethodInfo_steps env info)"
  using assms
  by (auto simp: processProfilerMethodInfo_steps_def pure_frame_def
      intro!: bounded_rules bounded_processMethodInfo split: option.splits)

lemma bounded_process_instructions:
  assumes "\<forall>k\<in>set ks. k < length xs \<and> pure_frame env (xs ! k) \<noteq> None"
  shows "bounded (weak_ok env) (weak_guar prof i) E (process_instructions_steps env xs ks)"
  using assms by (induction ks) (auto intro!: bounded_rules bounded_processProfilerMethodInfo)

lemma bounded_record_frames:
  assumes "processed_of env j raw \<noteq> None"
  shows "bounded (weak_ok env) (weak_guar prof i) E (record_frames_steps env raw)"
  using processed_of_frames [OF assms]
  by (auto simp: record_frames_steps_def Let_def intro!: bounded_process_instructions)

text \<open>Drawing the file meets a null pointer only in the map of child coroutines.\<close>

lemma getProcessedTraces_total: "\<exists>p. getProcessedTraces c s = Inr p"
  by (auto simp: getProcessedTraces_def cm_contains_def cm_at_def split: option.splits)

lemma add_coroutine_defined:
  assumes "maps_ok s"
  shows "\<exists>p'. add_coroutine info s n c parent ci p = Inr p'"
proof -
  have "\<exists>l. cells (processed_lists s) a = Some l" if "getProcessedTraces c s = Inr (Some a)" for a
  proof -
    have "cm_find c (processed_map s) = Some (Some a)"
      using that by (auto simp: getProcessedTraces_def cm_at_def cm_find_def split: if_splits option.splits)
    with om_view_cell [of "processed_map s" "processed_lists s" c a] assms show ?thesis by (auto simp: maps_ok_def)
  qed
  with getProcessedTraces_total [of c s] show ?thesis
    by (auto simp: add_coroutine_def add_samples_def Let_def split_def split: option.splits)
qed

lemma trace_info_round_error:
  assumes "maps_ok s" and "trace_info_round info s n V item st = Inl e"
  shows "e = Null_dereference ''add_trace_info''"
proof -
  obtain c parent q p where st: "item = (c, parent)" "st = (q, p)" by (cases item, cases st)
  have "add_coroutine info s n c parent ci p \<noteq> Inl e" for ci
    using add_coroutine_defined [OF assms(1), of info n c parent ci p] by auto
  with assms(2) show ?thesis
    by (auto simp: trace_info_round_def st rbind_eq_Inl push_children_def split: option.splits if_splits)
qed

lemma write_perfetto_error:
  assumes "maps_ok s" and "write_perfetto info s = Inl e"
  shows "e = Null_dereference ''add_trace_info''"
proof -
  have "maps_ok s \<Longrightarrow> add_trace_info_loop info s n V q p = Inl e \<Longrightarrow> e = Null_dereference ''add_trace_info''" for n V q p
    by (induction info s n V q p rule: add_trace_info_loop.induct)
      (auto split: sum.splits prod.splits dest: trace_info_round_error)
  with assms show ?thesis
    by (auto simp: write_perfetto_def add_trace_info_def Let_def split_def rbind_eq_Inl
        simp del: add_trace_info_loop.simps)
qed

lemma bounded_write_file:
  assumes "E (Null_dereference ''add_trace_info'')"
  shows "bounded (weak_ok env) (weak_guar prof i) E (attempt (write_file path info))"
proof (rule bounded_attempt)
  fix pf
  assume ok: "weak_ok env pf"
  then have "maps_ok (pf_storage pf)" by (simp add: weak_ok_def maps_ok_def)
  with ok assms weak_fields(4) [OF ok] show "weak_ok env (snd (write_file path info pf))
    \<and> weak_guar prof i pf (snd (write_file path info pf)) \<and> (\<forall>e. fst (write_file path info pf) = Inl e \<longrightarrow> E e)"
    by (auto simp: write_file_def dest: write_perfetto_error split: sum.splits)
qed

lemma bounded_finish_trace:
  assumes "E (Null_dereference ''add_trace_info'')"
  shows "bounded (weak_ok env) (weak_guar prof i) E (finish_trace_steps info)"
  unfolding finish_trace_steps_def using bounded_write_file [where E = E, OF assms] by (auto intro!: bounded_rules)

section \<open>The handlers\<close>

lemma weak_registered:
  assumes "bounded (weak_ok env) (weak_guar prof i) E p"
  shows "cleaned.triple env prof i E (registered tid) p (\<lambda>_. registered tid)"
proof -
  have "cleaned.triple env prof i E (\<lambda>pf. True \<and> registered tid pf) p (\<lambda>_ pf. True \<and> registered tid pf)"
    by (rule cleaned.triple_frame [OF cleaned.triple_bounded [OF assms]])
      (auto simp: weak_rely_def weak_guar_def jvm_grows_def)
  then show ?thesis by simp
qed

lemma weak_traceStart:
  assumes "E (Runtime_error (''Found trace that already started: '' @ to_string (sint (trace_id he self c))))"
  shows "cleaned.triple env prof i E (registered self) (traceStart_steps he self t1 t2 start c) (\<lambda>_. anything)"
  unfolding traceStart_steps_def
  by (rule cleaned.triple_bind [OF weak_registered], (intro bounded_rules)[1],
      rule cleaned.triple_bind [OF bereft.triple_find_thread], rule cleaned.triple_bounded)
    (intro bounded_rules harmless_rules assms)

lemma weak_traceEnd:
  assumes "E (Null_dereference ''add_trace_info'')"
  shows "cleaned.triple env prof i E (registered self) (traceEnd_steps he self now r finish c) (\<lambda>_. anything)"
  unfolding traceEnd_steps_def
  by (rule cleaned.triple_bind [OF bereft.triple_find_thread], rule cleaned.triple_bounded)
    (intro bounded_rules harmless_rules bounded_finish_trace assms)

lemma bounded_coroutineCreated:
  assumes "E (Null_dereference ''addChildCoroutine'')"
  shows "bounded (weak_ok env) (weak_guar prof i) E (coroutineCreated_steps self t1 t2 c)"
  unfolding coroutineCreated_steps_def by (intro bounded_rules harmless_rules bounded_addChildCoroutine assms)

lemma bounded_coroutineSuspended:
  assumes "E (Null_dereference ''addSuspensionInfo'')" and "E (Out_of_range ''unordered_map::at'')"
    and "\<And>ms. frames = Some ms \<Longrightarrow> those (map (pure_method_frame env) (take suspension_stack_depth ms)) = None \<Longrightarrow> \<forall>e. E e"
  shows "bounded (weak_ok env) (weak_guar prof i) E (coroutineSuspended_steps env self now r frames start c)"
  unfolding coroutineSuspended_steps_def pause_coroutine_steps_def record_suspension_steps_def
  by (intro bounded_rules harmless_rules bounded_addSuspensionInfo bounded_process_methods assms)

lemma bounded_coroutineResumed:
  assumes "E (Null_dereference ''getLastSuspensionInfo'')"
  shows "bounded (weak_ok env) (weak_guar prof i) E (coroutineResumed_steps self r now now' c)"
  unfolding coroutineResumed_steps_def by (intro bounded_rules harmless_rules bounded_getLastSuspensionInfo assms)

lemma bounded_coroutineCompleted:
  "bounded (weak_ok env) (weak_guar prof i) E (coroutineCompleted_steps self finish now r c)"
  unfolding coroutineCompleted_steps_def by (intro bounded_rules harmless_rules)

lemma cl_clean_loop_error: "cl_clean_loop n xs = Inl e \<Longrightarrow> \<exists>w. e = Undefined_behaviour w"
  by (induction n xs rule: cl_clean_loop.induct) auto

lemma bounded_gc:
  assumes "\<And>w. E (Undefined_behaviour w)"
  shows "bounded (weak_ok env) (weak_guar prof i) E (gcFinish_steps now)"
    and "bounded (weak_ok env) (weak_guar prof i) E clean_steps"
proof -
  have "bounded (weak_ok env) (weak_guar prof i) E (attempt (on_storage (\<lambda>s. (cl_back (gc_events s), s))))"
    by (rule bounded_tries) (use assms in \<open>auto simp: harmless_def cl_back_def split: if_splits\<close>)
  moreover have "bounded (weak_ok env) (weak_guar prof i) E (attempt (on_storage pop_gc))"
    by (rule bounded_tries [OF harmless_results(6)])
      (use assms in \<open>auto simp: pop_gc_def cl_pop_front_locked_def split: list.splits\<close>)
  ultimately show "bounded (weak_ok env) (weak_guar prof i) E (gcFinish_steps now)"
    unfolding gcFinish_steps_def by (intro bounded_rules harmless_rules)
  have "bounded (weak_ok env) (weak_guar prof i) E (attempt (on_storage clean_gc))"
    by (rule bounded_tries [OF harmless_results(7)])
      (use assms in \<open>auto simp: clean_gc_def cl_clean_def rbind_eq_Inl dest!: cl_clean_loop_error split: sum.splits\<close>)
  then show "bounded (weak_ok env) (weak_guar prof i) E clean_steps"
    unfolding clean_steps_def by (intro bounded_rules harmless_rules)
qed

text \<open>The map of samples has no null entries, but the entry that was found may be gone.\<close>

lemma weak_addProcessedTrace:
  assumes "E (Out_of_range ''unordered_map::at'')"
  shows "cleaned.triple env prof i E anything (addProcessedTrace_steps c r) (\<lambda>_. anything)"
proof -
  let ?push = "\<lambda>p. case p of None \<Rightarrow> Raise (Null_dereference ''addProcessedTrace'')
    | Some a \<Rightarrow> storage_does (\<lambda>s. s\<lparr>processed_lists := heap_update a (cl_push_back r) (processed_lists s)\<rparr>)"
  have "cm_at c m = Inl e \<Longrightarrow> E e" and "om_no_null m \<Longrightarrow> cm_at c m = Inr p \<Longrightarrow> p \<noteq> None" for m :: "jlong ptr_map" and e p
    using assms by (auto simp: om_no_null_def cm_at_find split: option.splits) (cases p; simp)
  then have "cleaned.triple env prof i E anything (attempt (on_storage (\<lambda>s. (cm_at c (processed_map s), s)))) (\<lambda>p _. p \<noteq> None)"
    by (intro cleaned.triple_attempt) (auto simp: weak_ok_def split: sum.splits)
  moreover have "cleaned.triple env prof i E (\<lambda>_. p \<noteq> None) (?push p) (\<lambda>_. anything)" for p
    by (cases p) (simp_all add: cleaned.triple_def [of _ _ _ _ "\<lambda>_. False"] cleaned.triple_bounded bounded_does harmless_rules)
  ultimately have "cleaned.triple env prof i E anything
      (pbind (attempt (on_storage (\<lambda>s. (cm_at c (processed_map s), s)))) ?push) (\<lambda>_. anything)"
    by (rule cleaned.triple_bind)
  then have "cleaned.triple env prof i E anything
      (if known then pbind (attempt (on_storage (\<lambda>s. (cm_at c (processed_map s), s)))) ?push
       else storage_does (insert_samples c r)) (\<lambda>_. anything)" for known
    by (auto intro!: cleaned.triple_bounded bounded_rules harmless_rules)
  then show ?thesis
    unfolding addProcessedTrace_steps_def
    by (rule cleaned.triple_bind [OF cleaned.triple_bounded [OF bounded_reads(2)]])
qed

section \<open>Schedules\<close>

text \<open>Now the cleaner may begin a cleaning on its thread as well.\<close>

definition race_start :: "method_env \<Rightarrow> pthread_t \<Rightarrow> pthread_t \<Rightarrow> profiler_event \<Rightarrow> profiler \<Rightarrow> bool" where
  "race_start env prof i ev pf \<longleftrightarrow> ev = Cleaner_clean \<or> may_start env prof i ev pf"

lemma registers_weak:
  assumes "weak_ok env pf" and "registers pf pf'"
  shows "weak_ok env pf' \<and> weak_rely prof i pf pf'"
proof -
  from assms(2) obtain err name tid b where pf': "pf' = pf\<lparr>pf_jvm := addCurrentThread err name tid b (pf_jvm pf)\<rparr>"
    by (auto simp: registers_def)
  have "threads_ok (pf_jvm pf)" using assms(1) by (simp add: weak_ok_def)
  then have g: "jvm_grows (pf_jvm pf) (pf_jvm pf')" and "threads_ok (pf_jvm pf')"
    by (simp_all add: pf' jvm_grows_add threads_ok_add)
  with assms(1) processed_of_grows [OF g] show ?thesis
    by (simp add: pf' weak_ok_def weak_rely_def raw_grows_def)
qed

lemma weak_bounded: "bounded (weak_ok env) (weak_guar prof i) E p \<Longrightarrow> cleaned.triple env prof i E P p (\<lambda>_. anything)"
  by (rule cleaned.triple_bounded)

lemma weak_handler:
  assumes "weak_ok env pf" and "race_start env prof i ev pf"
  shows "safe (weak_ok env) (weak_rely prof i) (weak_guar prof i) (race_error he env ev) (handler_steps he env ev)
    (\<lambda>_. anything) pf"
proof -
  let ?E = "race_error he env ev"
  have "cleaned.triple env prof i ?E (race_start env prof i ev) (handler_steps he env ev) (\<lambda>_. anything)"
  proof (cases ev)
    case (Trace_start self t1 t2 start c)
    have "cleaned.triple env prof i ?E (registered self) (traceStart_steps he self t1 t2 start c) (\<lambda>_. anything)"
      by (rule weak_traceStart) (simp add: Trace_start race_error_def)
    then show ?thesis
      unfolding Trace_start handler_steps.simps
      by (rule cleaned.triple_pre) (auto simp: race_start_def may_start_def)
  next
    case (Trace_end self now r finish c)
    have "cleaned.triple env prof i ?E (registered self) (traceEnd_steps he self now r finish c) (\<lambda>_. anything)"
      by (rule weak_traceEnd) (simp add: Trace_end race_error_def)
    then show ?thesis
      unfolding Trace_end handler_steps.simps
      by (rule cleaned.triple_pre) (auto simp: race_start_def may_start_def)
  next
    case (Sample time trace c)
    then show ?thesis
      using bereft.triple_sample [of env prof ?E time trace c]
      by (auto simp: cleaned.triple_def race_start_def may_start_def)
  next
    case Process_traces
    have "cleaned.triple env prof prof ?E anything (handler_steps he env Process_traces) (\<lambda>_. anything)"
      unfolding handler_steps.simps
      by (rule cleaned.triple_bind [OF bereft.triple_process_round], rule weak_bounded,
          erule bounded_record_frames, rule weak_addProcessedTrace, simp add: Process_traces race_error_def)
        (rule cleaned.triple_Return, simp_all)
    then show ?thesis unfolding Process_traces cleaned.triple_def by (auto simp: race_start_def may_start_def)
  next
    case (Coroutine_suspended self now r frames start c)
    then show ?thesis
      by (auto intro!: weak_bounded bounded_coroutineSuspended simp: race_error_def)
  qed (auto intro!: weak_bounded bounded_coroutineCreated bounded_coroutineResumed bounded_coroutineCompleted
      bounded_gc bounded_rules harmless_rules simp: race_error_def mark_for_clean_steps_def)
  then show ?thesis using assms by (simp add: cleaned.triple_def)
qed

section \<open>Properties\<close>


text \<open>
  Schedules of the races. Thread 4 creates coroutine 7 and has it suspended or resumed, thread 3
  traces it, thread 5 is the cleaner, thread 1 the profiler thread.
\<close>

definition coroutine_born :: "(pthread_t, profiler_event) decision list" where
  "coroutine_born = Start 4 (Coroutine_created 4 1 2 7) # replicate 5 (Go 4)"

definition all_marked :: "(pthread_t, profiler_event) decision list" where
  "all_marked = Start 5 Cleaner_mark # replicate 5 (Go 5)"

definition removal :: "nat \<Rightarrow> (pthread_t, profiler_event) decision list" where
  "removal n = Start 5 Cleaner_clean # replicate n (Go 5)"

definition late_suspension :: "(pthread_t, profiler_event) decision list" where
  "late_suspension = coroutine_born @ all_marked
     @ Start 4 (Coroutine_suspended 4 20 (Linux_rusage None) (Some [77]) 21 7) # replicate 3 (Go 4)
     @ removal 3 @ replicate 10 (Go 4)"

definition late_resumption :: "(pthread_t, profiler_event) decision list" where
  "late_resumption = coroutine_born @ all_marked
     @ Start 4 (Coroutine_resumed 4 (Linux_rusage None) 20 21 7) # replicate 6 (Go 4) @ removal 3 @ [Go 4]"

definition late_child :: "(pthread_t, profiler_event) decision list" where
  "late_child = coroutine_born @ Start 3 (Trace_start 3 10 11 12 7) # replicate 5 (Go 3)
     @ Start 4 (Coroutine_resumed 4 (Linux_rusage None) 20 21 7) # replicate 9 (Go 4) @ all_marked
     @ Start 4 (Coroutine_created 4 30 31 8) # replicate 4 (Go 4) @ removal 2 @ [Go 4]"

definition late_sample :: "(pthread_t, profiler_event) decision list" where
  "late_sample = Start 1 (Sample 50 example_trace 7) # replicate 2 (Go 1)
     @ Start 1 (Sample 51 example_trace 7) # replicate 2 (Go 1) @ Start 1 Process_traces # replicate 12 (Go 1)
     @ all_marked @ Start 1 Process_traces # replicate 7 (Go 1) @ removal 1 @ [Go 1]"

definition lost_collection :: "(pthread_t, profiler_event) decision list" where
  "lost_collection = Start 2 (Gc_started 60) # replicate 2 (Go 2) @ all_marked
     @ Start 2 (Gc_finished 61) # replicate 2 (Go 2) @ removal 4 @ [Go 2]"

definition taken_collection :: "(pthread_t, profiler_event) decision list" where
  "taken_collection = Start 2 (Gc_started 60) # replicate 2 (Go 2) @ all_marked
     @ Start 2 (Gc_finished 61) # replicate 3 (Go 2) @ removal 4"

definition race_fails :: "hash_env \<Rightarrow> method_env \<Rightarrow> profiler \<Rightarrow> pthread_t \<Rightarrow> profiler_event \<Rightarrow> error \<Rightarrow> bool" where
  "race_fails he env pf0 i ev e \<longleftrightarrow>
     (\<exists>ps pf. (pool_step (handler_steps he env) (race_start env 1) registers)\<^sup>*\<^sup>* (\<lambda>_. None, pf0) (ps, pf)
        \<and> ps i = Some (ev, Raise e))"

lemma race_failsI:
  assumes "failure i (schedule (handler_steps he env) (race_start env 1) ds (\<lambda>_. None, pf0)) = Some (ev, e)"
  shows "race_fails he env pf0 i ev e"
  using failure_reached [OF assms] unfolding race_fails_def by metis


text \<open>
  C14. The cleaner does cause these failures. Each of four handlers asks whether a key is present
  and fetches its value in a second call; an interleaving in which the cleaner removes the key in
  between makes \<open>coroutineSuspended\<close> throw \<open>out_of_range\<close> in \<open>addSuspensionInfo\<close>,
  \<open>coroutineResumed\<close> dereference a null pointer in \<open>getLastSuspensionInfo\<close>, \<open>coroutineCreated\<close> in
  \<open>addChildCoroutine\<close>, and \<open>processTraces\<close> throw \<open>out_of_range\<close> in \<open>addProcessedTrace\<close>. Between the
  calls of \<open>gcFinish\<close> on the list of collections, the cleaner makes \<open>gcFinish\<close> read the front of
  an empty list, or pops from an empty list itself.
\<close>

theorem cleaner_races_happen:
  "race_fails example_hash example_env example_profiler 4
     (Coroutine_suspended 4 20 (Linux_rusage None) (Some [77]) 21 7) (Out_of_range ''unordered_map::at'')
   \<and> race_fails example_hash example_env example_profiler 4
     (Coroutine_resumed 4 (Linux_rusage None) 20 21 7) (Null_dereference ''getLastSuspensionInfo'')
   \<and> race_fails example_hash example_env example_profiler 4
     (Coroutine_created 4 30 31 8) (Null_dereference ''addChildCoroutine'')
   \<and> race_fails example_hash example_env example_profiler 1
     Process_traces (Out_of_range ''unordered_map::at'')
   \<and> race_fails example_hash example_env example_profiler 2
     (Gc_finished 61) (Undefined_behaviour ''list::front'')
   \<and> race_fails example_hash example_env example_profiler 5
     Cleaner_clean (Undefined_behaviour ''list::pop_front'')"
proof (intro conjI)
  show "race_fails example_hash example_env example_profiler 4
      (Coroutine_suspended 4 20 (Linux_rusage None) (Some [77]) 21 7) (Out_of_range ''unordered_map::at'')"
    by (rule race_failsI [of _ _ _ late_suspension]) code_simp
  show "race_fails example_hash example_env example_profiler 4
      (Coroutine_resumed 4 (Linux_rusage None) 20 21 7) (Null_dereference ''getLastSuspensionInfo'')"
    by (rule race_failsI [of _ _ _ late_resumption]) code_simp
  show "race_fails example_hash example_env example_profiler 4
      (Coroutine_created 4 30 31 8) (Null_dereference ''addChildCoroutine'')"
    by (rule race_failsI [of _ _ _ late_child]) code_simp
  show "race_fails example_hash example_env example_profiler 1 Process_traces (Out_of_range ''unordered_map::at'')"
    by (rule race_failsI [of _ _ _ late_sample]) code_simp
  show "race_fails example_hash example_env example_profiler 2 (Gc_finished 61) (Undefined_behaviour ''list::front'')"
    by (rule race_failsI [of _ _ _ lost_collection]) code_simp
  show "race_fails example_hash example_env example_profiler 5 Cleaner_clean (Undefined_behaviour ''list::pop_front'')"
    by (rule race_failsI [of _ _ _ taken_collection]) code_simp
qed

end
