(* ===== verification/Handler_Progress.thy ===== *)
theory Handler_Progress
  imports Atomic_Handlers
begin

text \<open>
  The handlers run on the threads of the application, so that it matters how long they keep them.
  No handler waits for another thread: it ends after a number of its own steps that is known when
  it begins, whatever the other threads do in between.
\<close>

section \<open>Programs with a bounded number of steps\<close>

primrec within :: "('s, 'a) prog \<Rightarrow> nat \<Rightarrow> bool" where
  "within (Return x) n \<longleftrightarrow> True"
| "within (Raise e) n \<longleftrightarrow> True"
| "within (Step u k) n \<longleftrightarrow> (case n of 0 \<Rightarrow> False | Suc m \<Rightarrow> \<forall>s. within (k s) m)"

named_theorems within_rules \<open>how many steps a program needs\<close>

lemma within_mono: "within p m \<Longrightarrow> m \<le> n \<Longrightarrow> within p n"
proof (induction p arbitrary: m n)
  case (Step u k)
  from Step.prems obtain i j where n: "m = Suc i" "n = Suc j" "i \<le> j" by (cases m; cases n) simp_all
  with Step.prems(1) have "within (k s) j" for s
    by (intro Step.IH [OF rangeI, of s i j]) simp_all
  with n(2) show ?case by simp
qed simp_all

lemma within_done [within_rules]: "within (Return x) 0" "within (Raise e) 0"
  by simp_all

lemma within_pbind [within_rules]:
  assumes "within p m" and "\<And>x. within (f x) n"
  shows "within (pbind p f) (m + n)"
  using assms(1)
proof (induction p arbitrary: m)
  case (Return x)
  then show ?case using within_mono [OF assms(2), of "m + n" x] by simp
next
  case (Step u k)
  then obtain i where "m = Suc i" by (cases m) auto
  with Step show ?case by auto
qed simp

lemma within_if [within_rules]: "within p m \<Longrightarrow> within q n \<Longrightarrow> within (if b then p else q) (max m n)"
  by (cases b; simp only: if_True if_False; rule within_mono, assumption, simp)

lemma within_option [within_rules]:
  "within p m \<Longrightarrow> (\<And>a. within (q a) n) \<Longrightarrow> within (case x of None \<Rightarrow> p | Some a \<Rightarrow> q a) (max m n)"
  by (cases x; simp only: option.case sum.case; rule within_mono, assumption, simp)

lemma within_sum [within_rules]:
  "(\<And>e. within (p e) m) \<Longrightarrow> (\<And>a. within (q a) n) \<Longrightarrow> within (case x of Inl e \<Rightarrow> p e | Inr a \<Rightarrow> q a) (max m n)"
  by (cases x; simp only: option.case sum.case; rule within_mono, assumption, simp)

lemma within_prod [within_rules]: "(\<And>a b. within (q a b) n) \<Longrightarrow> within (case x of (a, b) \<Rightarrow> q a b) n"
  by (cases x) simp

lemma within_single [within_rules]:
  "within (observe f) (Suc 0)" "within (modify u) (Suc 0)" "within (atomic op) (Suc 0)" "within (attempt op') (Suc 0)"
  "within (storage_reads g) (Suc 0)" "within (storage_does h) (Suc 0)" "within (tables_do t) (Suc 0)"
  by (simp_all add: observe_def modify_def atomic_def attempt_def steps_defs split: sum.splits)

section \<open>A thread among others\<close>

text \<open>A thread that is idle stays so; one that runs a program uses up its steps and nothing else does.\<close>

lemma schedule_idle:
  assumes "schedule prog_of start ds (ps, s) = Some (ps', s')" and "\<forall>ev. Start i ev \<notin> set ds" and "ps i = None"
  shows "ps' i = None \<and> count_list ds (Go i) = 0"
  using assms
proof (induction ds arbitrary: ps s)
  case (Cons d ds)
  then obtain ps1 s1 where "decide prog_of start d (ps, s) = Some (ps1, s1)"
    and rest: "schedule prog_of start ds (ps1, s1) = Some (ps', s')"
    by (auto simp: bind_eq_Some_conv)
  with Cons.prems(2,3) have "ps1 i = None \<and> d \<noteq> Go i"
    by (cases d) (auto split: option.splits prog.splits if_splits)
  with Cons.IH [OF rest] Cons.prems(2) show ?case by auto
qed simp

lemma schedule_budget:
  assumes "schedule prog_of start ds (ps, s) = Some (ps', s')" and "\<forall>ev. Start i ev \<notin> set ds"
    and "ps i = Some (ev, p)" and "within p n"
  shows "count_list ds (Go i) \<le> n + 1
    \<and> (ps' i = None \<or> (\<exists>p' m. ps' i = Some (ev, p') \<and> within p' m \<and> count_list ds (Go i) + m = n))"
  using assms
proof (induction ds arbitrary: ps s p n)
  case (Cons d ds)
  then obtain ps1 s1 where d: "decide prog_of start d (ps, s) = Some (ps1, s1)"
    and rest: "schedule prog_of start ds (ps1, s1) = Some (ps', s')"
    by (auto simp: bind_eq_Some_conv)
  have free: "\<forall>ev. Start i ev \<notin> set ds" using Cons.prems(2) by simp
  show ?case
  proof (cases "d = Go i")
    case False
    with d Cons.prems(2,3) have "ps1 i = Some (ev, p)"
      by (cases d) (auto split: option.splits prog.splits if_splits)
    from Cons.IH [OF rest free this Cons.prems(4)] False show ?thesis by simp
  next
    case True
    show ?thesis
    proof (cases p)
      case (Return x)
      with d True Cons.prems(3) have "ps1 i = None" by auto
      from schedule_idle [OF rest free this] True show ?thesis by simp
    next
      case (Step u k)
      with Cons.prems(4) obtain m where m: "n = Suc m" "within (k s) m" by (cases n) auto
      from d True Step Cons.prems(3) have "ps1 i = Some (ev, k s)" by auto
      from Cons.IH [OF rest free this m(2)] True m(1) show ?thesis by auto
    qed (use d True Cons.prems(3) in auto)
  qed
qed auto

text \<open>And it can use them up alone.\<close>

lemma schedule_solo:
  assumes "ps i = Some (ev, p)" and "within p m"
  shows "\<exists>n ps' s'. n \<le> m + 1 \<and> schedule prog_of start (replicate n (Go i)) (ps, s) = Some (ps', s')
    \<and> (ps' i = None \<or> (\<exists>e. ps' i = Some (ev, Raise e)))"
  using assms
proof (induction p arbitrary: ps s m)
  case (Return x)
  then show ?case by (intro exI [of _ 1] exI [of _ "ps(i := None)"] exI [of _ s]) auto
next
  case (Raise e)
  then show ?case by (intro exI [of _ 0] exI [of _ ps] exI [of _ s]) auto
next
  case (Step u k)
  then obtain m' where m: "m = Suc m'" "within (k s) m'" by (cases m) auto
  have "(ps(i \<mapsto> (ev, k s))) i = Some (ev, k s)" by simp
  from Step.IH [of "k s" "ps(i \<mapsto> (ev, k s))" m' "u s", OF rangeI this m(2)] obtain n ps' s' where "n \<le> m' + 1"
    "schedule prog_of start (replicate n (Go i)) (ps(i \<mapsto> (ev, k s)), u s) = Some (ps', s')"
    "ps' i = None \<or> (\<exists>e. ps' i = Some (ev, Raise e))"
    by blast
  with Step.prems(1) m(1) show ?case by (intro exI [of _ "Suc n"] exI [of _ ps'] exI [of _ s']) auto
qed

section \<open>The steps of each handler\<close>

lemma within_createCoroutineInfo [within_rules]: "within (createCoroutineInfo_steps t1 t2 c) 2"
  unfolding createCoroutineInfo_steps_def by (rule within_mono, (rule within_rules)+, simp)

lemma within_getCoroutineInfo [within_rules]: "within (getCoroutineInfo_steps c) 2"
  unfolding getCoroutineInfo_steps_def by (rule within_mono, (rule within_rules)+, simp)

lemma within_addSuspensionInfo [within_rules]: "within (addSuspensionInfo_steps si) 2"
  unfolding addSuspensionInfo_steps_def by (rule within_mono, (rule within_rules)+, simp)

lemma within_getLastSuspensionInfo [within_rules]: "within (getLastSuspensionInfo_steps c) 3"
  unfolding getLastSuspensionInfo_steps_def by (rule within_mono, (rule within_rules)+, simp)

lemma within_addChildCoroutine [within_rules]: "within (addChildCoroutine_steps c parent) 2"
  unfolding addChildCoroutine_steps_def by (rule within_mono, (rule within_rules)+, simp)

lemma within_processMethodInfo [within_rules]: "within (processMethodInfo_steps env m) 6"
  unfolding processMethodInfo_steps_def class_name_steps_def learn_class_steps_def
  by (rule within_mono, (rule within_rules)+, simp)

lemma within_process_methods [within_rules]: "within (process_methods_steps env ms) (6 * length ms)"
proof (induction ms)
  case (Cons m ms)
  have "within (process_methods_steps env (m # ms)) (6 + (6 * length ms + 0))"
    unfolding process_methods_steps.simps by (intro within_rules Cons)
  then show ?case by simp
qed simp

text \<open>The number of frames of a sample is a signed 64-bit number.\<close>

lemma within_process_instructions: "within (process_instructions_steps env xs ks) (6 * length ks)"
proof (induction ks)
  case (Cons k ks)
  have "within (processProfilerMethodInfo_steps env (xs ! k)) 6"
    unfolding processProfilerMethodInfo_steps_def by (rule within_mono, (rule within_rules)+, simp)
  then have "within (process_instructions_steps env xs (k # ks)) (max 0 (6 + (6 * length ks + 0)))"
    unfolding process_instructions_steps.simps by (intro within_rules Cons)
  then show ?case by simp
qed simp

lemma within_record_frames [within_rules]: "within (record_frames_steps env raw) (6 * (2 ^ 63 - 1))"
proof -
  have "nat (sint (rr_trace_count raw)) \<le> 2 ^ 63 - 1"
    using sint_lt [of "rr_trace_count raw"] by simp
  then have "within (process_instructions_steps env xs [0..<nat (sint (rr_trace_count raw))]) (6 * (2 ^ 63 - 1))" for xs
    by (intro within_mono [OF within_process_instructions]) simp
  then show ?thesis by (auto simp: record_frames_steps_def Let_def split: option.splits)
qed

lemma within_find_thread [within_rules]: "within (find_thread_steps w self) 1"
  unfolding find_thread_steps_def by (rule within_mono, (rule within_rules)+, simp)

lemma within_changes [within_rules]: "within (set_current self c) 1" "within (count_traces d a) 1"
  unfolding set_current_def count_traces_def by (rule within_mono, (rule within_rules)+, simp)+

text \<open>The number of steps of a handler, from its event.\<close>

fun handler_bound :: "profiler_event \<Rightarrow> nat" where
  "handler_bound (Trace_start _ _ _ _ _) = 6"
| "handler_bound (Trace_end _ _ _ _ _) = 10"
| "handler_bound (Coroutine_created _ _ _ _) = 7"
| "handler_bound (Coroutine_suspended _ _ _ frames _ _) =
     (case frames of None \<Rightarrow> 6 | Some ms \<Rightarrow> 8 + 6 * length (take suspension_stack_depth ms))"
| "handler_bound (Coroutine_resumed _ _ _ _ _) = 9"
| "handler_bound (Coroutine_completed _ _ _ _ _) = 5"
| "handler_bound (Gc_finished _) = 5"
| "handler_bound (Gc_started _) = 1"
| "handler_bound (Sample _ _ _) = 1"
| "handler_bound Cleaner_mark = 4"
| "handler_bound Cleaner_clean = 4"
| "handler_bound Process_traces = 6 + 6 * (2 ^ 63 - 1)"

lemma within_coroutineSuspended:
  "within (coroutineSuspended_steps env self now r frames start c)
     (handler_bound (Coroutine_suspended self now r frames start c))"
  unfolding coroutineSuspended_steps_def pause_coroutine_steps_def record_suspension_steps_def
  by (cases frames) (simp_all only: option.case handler_bound.simps,
      (rule within_mono, (rule within_rules)+, simp)+)

lemma within_handler: "within (handler_steps he env ev) (handler_bound ev)"
proof (cases ev)
  case (Coroutine_suspended self now r frames start c)
  then show ?thesis using within_coroutineSuspended by simp
qed (simp_all only: handler_steps.simps traceStart_steps_def traceEnd_steps_def finish_trace_steps_def
    coroutineCreated_steps_def coroutineResumed_steps_def coroutineCompleted_steps_def gcFinish_steps_def
    mark_for_clean_steps_def clean_steps_def process_round_steps_def removeRawTraceHeader_steps_def
    addProcessedTrace_steps_def handler_bound.simps,
    (rule within_mono, (rule within_rules)+, simp)+)

section \<open>Properties\<close>


text \<open>The instance: thread 3 starts a trace and is interrupted by thread 4.\<close>

definition example_begun :: "(pthread_t, profiler_event, profiler) pool" where
  "example_begun = ([3 \<mapsto> (Trace_start 3 10 11 12 7,
     handler_steps example_hash example_env (Trace_start 3 10 11 12 7))], example_profiler)"


end
