(* ===== verification/Handler_Effects.thy ===== *)
theory Handler_Effects
  imports Handler_Concurrency Coroutine_Accounting "HOL-Library.Sublist"
begin

text \<open>
  What a handler has recorded when it ends, although other handlers ran in between, and that it is
  still there later. As long as nothing is removed, the lists of children, samples and suspensions
  only get longer, and no thread changes the current coroutine of another one.
\<close>

section \<open>Records only grow\<close>

definition cells_grow :: "('a \<Rightarrow> 'a \<Rightarrow> bool) \<Rightarrow> 'a heap \<Rightarrow> 'a heap \<Rightarrow> bool" where
  "cells_grow R h h' \<longleftrightarrow> (\<forall>a x. cells h a = Some x \<longrightarrow> (\<exists>x'. cells h' a = Some x' \<and> R x x'))"

definition longer :: "'a concurrent_list \<Rightarrow> 'a concurrent_list \<Rightarrow> bool" where
  "longer l l' \<longleftrightarrow> prefix (cl_list l) (cl_list l')"

definition more_suspensions :: "coroutine_info \<Rightarrow> coroutine_info \<Rightarrow> bool" where
  "more_suspensions ci ci' \<longleftrightarrow> longer (ci_suspensions_list ci) (ci_suspensions_list ci')"

definition same_suspension :: "suspension_info \<Rightarrow> suspension_info \<Rightarrow> bool" where
  "same_suspension si si' \<longleftrightarrow>
     si_coroutine_id si' = si_coroutine_id si \<and> si_start si' = si_start si \<and> si_stack_trace si' = si_stack_trace si"

definition records_grow :: "trace_storage \<Rightarrow> trace_storage \<Rightarrow> bool" where
  "records_grow s s' \<longleftrightarrow>
     cells_grow longer (child_lists s) (child_lists s')
     \<and> cells_grow longer (processed_lists s) (processed_lists s')
     \<and> cells_grow more_suspensions (coroutine_infos s) (coroutine_infos s')
     \<and> cells_grow same_suspension (suspensions s) (suspensions s')"

definition others_current :: "pthread_t \<Rightarrow> profiler \<Rightarrow> profiler \<Rightarrow> bool" where
  "others_current i pf pf' \<longleftrightarrow> (\<forall>j. j \<noteq> i \<longrightarrow> current_coroutine_id pf' j = current_coroutine_id pf j)"

text \<open>Only the profiler thread enters coroutines into the map of samples.\<close>

definition no_new_samples :: "trace_storage \<Rightarrow> trace_storage \<Rightarrow> bool" where
  "no_new_samples s s' \<longleftrightarrow> (\<forall>c. cm_contains c (processed_map s') \<longrightarrow> cm_contains c (processed_map s))"

definition record_step :: "pthread_t \<Rightarrow> pthread_t \<Rightarrow> profiler \<Rightarrow> profiler \<Rightarrow> bool" where
  "record_step prof i pf pf' \<longleftrightarrow>
     records_grow (pf_storage pf) (pf_storage pf') \<and> others_current i pf pf'
     \<and> (i \<noteq> prof \<longrightarrow> no_new_samples (pf_storage pf) (pf_storage pf'))"

definition record_rely :: "pthread_t \<Rightarrow> pthread_t \<Rightarrow> profiler \<Rightarrow> profiler \<Rightarrow> bool" where
  "record_rely prof i pf pf' \<longleftrightarrow>
     records_grow (pf_storage pf) (pf_storage pf') \<and> current_coroutine_id pf' i = current_coroutine_id pf i
     \<and> (i = prof \<longrightarrow> no_new_samples (pf_storage pf) (pf_storage pf'))"

lemma longer_refl [simp]: "longer l l"
  and longer_push [simp]: "longer l (cl_push_back x l)"
  and more_suspensions_refl [simp]: "more_suspensions ci ci"
  and same_suspension_refl [simp]: "same_suspension si si"
  by (simp_all add: longer_def cl_push_back_def more_suspensions_def same_suspension_def)

lemma records_trans:
  "longer l l' \<Longrightarrow> longer l' l'' \<Longrightarrow> longer l l''"
  "more_suspensions ci ci' \<Longrightarrow> more_suspensions ci' ci'' \<Longrightarrow> more_suspensions ci ci''"
  "same_suspension si si' \<Longrightarrow> same_suspension si' si'' \<Longrightarrow> same_suspension si si''"
  by (auto simp: longer_def more_suspensions_def same_suspension_def)

lemma cells_grow_trans:
  assumes "cells_grow R h h'" and "cells_grow R h' h''" and "\<And>x y z. R x y \<Longrightarrow> R y z \<Longrightarrow> R x z"
  shows "cells_grow R h h''"
  using assms unfolding cells_grow_def by metis

lemma cells_grow_refl: "(\<And>x. R x x) \<Longrightarrow> cells_grow R h h"
  by (simp add: cells_grow_def)

lemma cells_grow_alloc: "heap_ok h \<Longrightarrow> (\<And>x. R x x) \<Longrightarrow> cells_grow R h (snd (heap_alloc x h))"
  by (auto simp: cells_grow_def heap_alloc_def heap_ok_def)

lemma cells_grow_insert: "heap_ok h \<Longrightarrow> (\<And>x. R x x) \<Longrightarrow> cells_grow R h (snd (om_insert k x m h))"
  using cells_grow_alloc [of h R x] by (simp add: om_insert_def Let_def split_def)

lemma cells_grow_update: "(\<And>x. R x (f x)) \<Longrightarrow> (\<And>x. R x x) \<Longrightarrow> cells_grow R h (heap_update a f h)"
  by (auto simp: cells_grow_def heap_update_def)

lemma records_grow_refl [simp]: "records_grow s s"
  by (simp add: records_grow_def cells_grow_refl)

lemma no_new_samples_refl [simp]: "no_new_samples s s"
  by (simp add: no_new_samples_def)

lemma no_new_samples_trans: "no_new_samples s s' \<Longrightarrow> no_new_samples s' s'' \<Longrightarrow> no_new_samples s s''"
  by (simp add: no_new_samples_def)

lemma records_grow_trans: "records_grow s s' \<Longrightarrow> records_grow s' s'' \<Longrightarrow> records_grow s s''"
  unfolding records_grow_def by (meson cells_grow_trans records_trans)

interpretation lasting: rely_guarantee "conc_ok env" "\<lambda>i pf pf'. rely prof i pf pf' \<and> record_rely prof i pf pf'"
  "\<lambda>i pf pf'. guar prof i pf pf' \<and> record_step prof i pf pf'" for env prof
proof unfold_locales
  fix i j pf pf' pf''
  show "rely prof i pf pf \<and> record_rely prof i pf pf" by (simp add: growing.rely_refl record_rely_def)
  show "guar prof i pf pf \<and> record_step prof i pf pf" by (simp add: growing.guarantee_refl record_step_def others_current_def)
  show "rely prof i pf pf' \<and> record_rely prof i pf pf' \<Longrightarrow> rely prof i pf' pf'' \<and> record_rely prof i pf' pf'' \<Longrightarrow>
      rely prof i pf pf'' \<and> record_rely prof i pf pf''"
    using growing.rely_trans [of prof i pf pf' pf''] by (auto simp: record_rely_def intro: records_grow_trans no_new_samples_trans)
  show "i \<noteq> j \<Longrightarrow> guar prof i pf pf' \<and> record_step prof i pf pf' \<Longrightarrow> rely prof j pf pf' \<and> record_rely prof j pf pf'"
    using growing.guarantee_rely [of i j prof pf pf'] by (simp add: record_step_def others_current_def record_rely_def)
qed

section \<open>The steps of the handlers\<close>

definition recording :: "bool \<Rightarrow> (trace_storage \<Rightarrow> trace_storage) \<Rightarrow> bool" where
  "recording w u \<longleftrightarrow> (\<forall>s. storage_ok s \<longrightarrow> records_grow s (u s) \<and> (w \<or> no_new_samples s (u s)))"

lemma heaps_ok:
  assumes "storage_ok s"
  shows "heap_ok (child_lists s)" and "heap_ok (processed_lists s)" and "heap_ok (coroutine_infos s)"
    and "heap_ok (suspensions s)"
  using assms by (simp_all add: storage_ok_def om_ok_def suspensions_ok_def)

named_theorems recording_rules \<open>operations under which the records grow\<close>

lemma recording_operations [recording_rules]:
  "recording w (insert_coroutine t1 t2 c)" "w \<Longrightarrow> recording w (insert_samples c r)"
  "recording w (createChildCoroutineStorage c)" "recording w (removeOngoingTraceInfo c)" "recording w (storage_gcStart t)"
  "recording w (\<lambda>s. s\<lparr>child_lists := heap_update a (cl_push_back c) (child_lists s)\<rparr>)"
  "recording w (\<lambda>s. s\<lparr>processed_lists := heap_update a (cl_push_back r) (processed_lists s)\<rparr>)"
  "recording w (update_suspension b (\<lambda>si. si\<lparr>si_end := t\<rparr>))"
  "recording w (update_coroutine a (\<lambda>ci. ci\<lparr>ci_last_resume := t\<rparr>))" "recording w (update_coroutine a (\<lambda>ci. ci\<lparr>ci_end := t\<rparr>))"
  by (simp_all add: recording_def records_grow_def no_new_samples_def heaps_ok cells_grow_refl cells_grow_insert cells_grow_update
      insert_coroutine_def insert_samples_def createChildCoroutineStorage_def removeOngoingTraceInfo_def
      storage_gcStart_def update_suspension_def update_coroutine_def more_suspensions_def same_suspension_def
      Let_def split_def)

lemma recording_push [recording_rules]: "recording w (push_suspension si a)"
  by (simp add: recording_def records_grow_def no_new_samples_def push_suspension_def Let_def split_def cells_grow_refl
      cells_grow_alloc heaps_ok)
    (simp add: cells_grow_update more_suspensions_def)

lemma recording_results [recording_rules]:
  "recording w (\<lambda>s. snd (get_coroutine c s))" "recording w (\<lambda>s. snd (getChildCoroutines c s))"
  "recording w (\<lambda>s. snd (addOngoingTraceInfo i s))" "recording w (\<lambda>s. snd (findOngoingTraceInfo c s))"
  "recording w (\<lambda>s. snd (find_open_suspension a s))" "recording w (\<lambda>s. snd (pop_gc s))" "recording w (\<lambda>s. snd (pop_raw s))"
  "recording w (\<lambda>s. snd (x s, s))"
  by (auto simp: recording_def records_grow_def no_new_samples_def cells_grow_refl get_coroutine_def getChildCoroutines_def
      addOngoingTraceInfo_def findOngoingTraceInfo_def find_open_suspension_def pop_gc_def pop_raw_def Let_def
      split_def split: sum.splits)

lemma recording_fields [recording_rules]:
  "recording w (\<lambda>s. s\<lparr>gc_heap := h s\<rparr>)" "recording w (\<lambda>s. s\<lparr>gc_events := f s\<rparr>)" "recording w (addRawTrace t tr c)"
  "recording w (\<lambda>s. s\<lparr>processed_map := cm_mark_current_values_for_clean (processed_map s)\<rparr>)" "recording w (\<lambda>s. s\<lparr>child_coroutines_map := m' s\<rparr>)"
  "recording w (\<lambda>s. s\<lparr>coroutine_info_map := m'' s\<rparr>)"
  by (simp_all add: recording_def records_grow_def no_new_samples_def cells_grow_refl addRawTrace_def cm_contains_find Let_def)

text \<open>Every step of a handler on thread \<open>i\<close> is a \<open>record_step prof i\<close>.\<close>

lemma record_storage:
  "recording (i = prof) u \<Longrightarrow> conc_ok env pf \<Longrightarrow> record_step prof i pf (pf\<lparr>pf_storage := u (pf_storage pf)\<rparr>)"
  by (auto simp: recording_def record_step_def others_current_def dest: conc_okD(2))

lemma steps_storage [steps_rules]:
  "recording (i = prof) u \<Longrightarrow> steps_in (conc_ok env) (record_step prof i) (storage_does u)"
  "recording (i = prof) (\<lambda>s. snd (op s)) \<Longrightarrow> steps_in (conc_ok env) (record_step prof i) (atomic (on_storage op))"
  "recording (i = prof) (\<lambda>s. snd (op' s)) \<Longrightarrow> steps_in (conc_ok env) (record_step prof i) (attempt (on_storage op'))"
  unfolding storage_does_def using record_storage [where u = "\<lambda>s. snd (op s)"] record_storage [where u = "\<lambda>s. snd (op' s)"]
  by (intro steps_in_single; simp add: record_storage)+

lemma record_step_refl [simp]: "record_step prof i pf pf"
  by (simp add: record_step_def others_current_def)

lemma record_fields [simp]:
  "record_step prof i pf (pf\<lparr>current_rusage := y\<rparr>)" "record_step prof i pf (pf\<lparr>pf_output_counter := n\<rparr>)"
  "record_step prof i pf (pf\<lparr>pf_files := fs\<rparr>)" "record_step prof i pf (pf\<lparr>pf_tables := mt\<rparr>)"
  "record_step prof i pf (pf\<lparr>pf_jvm := j\<rparr>)" "record_step prof i pf (pf\<lparr>current_coroutine_id := (current_coroutine_id pf)(i := c)\<rparr>)"
  by (simp_all add: record_step_def others_current_def)

lemma record_charge: "conc_ok env pf \<Longrightarrow> record_step prof i pf (charge_usage self now r a pf)"
proof (cases "cells (coroutine_infos (pf_storage pf)) a")
  case (Some ci)
  have "cells_grow more_suspensions h (heap_update a (\<lambda>_. ci') h)"
    if "cells h a = Some ci" "ci_suspensions_list ci' = ci_suspensions_list ci" for h ci'
    using that by (auto simp: cells_grow_def cells_update more_suspensions_def)
  with Some show ?thesis
    by (simp add: charge_usage_def Let_def split_def record_step_def others_current_def records_grow_def
        no_new_samples_def update_coroutine_def usage_keeps cells_grow_refl)
qed (simp add: charge_usage_def)

lemma steps_profiler [steps_rules]:
  "steps_in (conc_ok env) (record_step prof i) (observe f)" "steps_in (conc_ok env) (record_step prof i) (storage_reads g)"
  "steps_in (conc_ok env) (record_step prof i) (tables_do t)" "steps_in (conc_ok env) (record_step prof i) (atomic (on_tables op))"
  "steps_in (conc_ok env) (record_step prof i) (atomic next_file)"
  "steps_in (conc_ok env) (record_step prof i) (attempt (write_file path info))"
  "steps_in (conc_ok env) (record_step prof i) (count_traces d a)" "steps_in (conc_ok env) (record_step prof i) (set_current i c)"
  "steps_in (conc_ok env) (record_step prof i) (modify (charge_usage self now r a))"
  "steps_in (conc_ok env) (record_step prof i) (modify (\<lambda>pf. pf\<lparr>current_rusage := h pf\<rparr>))"
  "steps_in (conc_ok env) (record_step prof i) (attempt (\<lambda>pf. (x pf, pf)))"
  unfolding storage_reads_def tables_do_def count_traces_def set_current_def
  by (rule steps_in_single; simp add: record_charge next_file_def write_file_def split: sum.splits)+

lemma steps_naming [steps_rules]:
  "steps_in (conc_ok env) (record_step prof i) (processMethodInfo_steps env' m)"
  "steps_in (conc_ok env) (record_step prof i) (processProfilerMethodInfo_steps env' info)"
  unfolding processProfilerMethodInfo_steps_def processMethodInfo_steps_def class_name_steps_def learn_class_steps_def
  by (intro steps_rules)+

lemma steps_lists [steps_rules]:
  "steps_in (conc_ok env) (record_step prof i) (process_methods_steps env' ms)"
  "steps_in (conc_ok env) (record_step prof i) (process_instructions_steps env' xs ks)"
  by (induction ms, simp_all add: steps_rules, induction ks, simp_all add: steps_rules)

lemma steps_record_frames [steps_rules]: "steps_in (conc_ok env) (record_step prof i) (record_frames_steps env' raw)"
  unfolding record_frames_steps_def Let_def by (intro steps_rules)

lemmas storage_programs = createCoroutineInfo_steps_def getCoroutineInfo_steps_def addSuspensionInfo_steps_def
  getLastSuspensionInfo_steps_def addChildCoroutine_steps_def addProcessedTrace_steps_def
  removeRawTraceHeader_steps_def

lemma steps_storage_programs [steps_rules]:
  "steps_in (conc_ok env) (record_step prof i) (createCoroutineInfo_steps t1 t2 c)"
  "steps_in (conc_ok env) (record_step prof i) (getCoroutineInfo_steps c)"
  "steps_in (conc_ok env) (record_step prof i) (addSuspensionInfo_steps si)"
  "steps_in (conc_ok env) (record_step prof i) (getLastSuspensionInfo_steps c)"
  "steps_in (conc_ok env) (record_step prof i) (addChildCoroutine_steps c parent)"
  "steps_in (conc_ok env) (record_step prof prof) (addProcessedTrace_steps c r)"
  "steps_in (conc_ok env) (record_step prof i) removeRawTraceHeader_steps"
  unfolding storage_programs by (auto intro!: steps_rules recording_rules)

lemma steps_handler:
  assumes "may_start env prof i ev pf"
  shows "steps_in (conc_ok env) (record_step prof i) (handler_steps he env ev)"
proof -
  note programs = traceStart_steps_def traceEnd_steps_def finish_trace_steps_def find_thread_steps_def
    coroutineCreated_steps_def coroutineSuspended_steps_def pause_coroutine_steps_def record_suspension_steps_def
    coroutineResumed_steps_def coroutineCompleted_steps_def gcFinish_steps_def mark_for_clean_steps_def
    process_round_steps_def
  show ?thesis
    using assms by (cases ev) (auto simp: may_start_def programs intro!: steps_rules recording_rules)
qed

lemma lasting_triple:
  assumes "growing.triple env prof i E P p Q" and "steps_in (conc_ok env) (record_step prof i) p"
  shows "lasting.triple env prof i E P p Q"
  using assms(1) safe_strengthen [OF _ assms(2)] unfolding growing.triple_def lasting.triple_def by blast

section \<open>What is recorded stays recorded\<close>

abbreviation traced :: "jlong \<Rightarrow> profiler \<Rightarrow> bool" where
  "traced c pf \<equiv> has_object c (child_coroutines_map (pf_storage pf))"

definition grows_on :: "profiler \<Rightarrow> profiler \<Rightarrow> bool" where
  "grows_on pf pf' \<longleftrightarrow> grows pf pf' \<and> records_grow (pf_storage pf) (pf_storage pf')"

lemma om_view_grows:
  assumes "map_grows m m'" and "cells_grow R h h'" and "om_view m h k = Some x"
  shows "\<exists>x'. om_view m' h' k = Some x' \<and> R x x'"
proof -
  obtain a where "cm_find k m = Some (Some a)" "cells h a = Some x"
    using assms(3) by (auto simp: om_view_def split: option.splits)
  with assms(1,2) show ?thesis by (auto simp: om_view_def map_grows_def cells_grow_def)
qed

lemma children_grow: "grows_on pf pf' \<Longrightarrow> prefix (children (pf_storage pf) c) (children (pf_storage pf') c)"
  using om_view_grows [of "child_coroutines_map (pf_storage pf)" "child_coroutines_map (pf_storage pf')" longer
      "child_lists (pf_storage pf)" "child_lists (pf_storage pf')" c]
  by (cases "om_view (child_coroutines_map (pf_storage pf)) (child_lists (pf_storage pf)) c")
    (auto simp: grows_on_def grows_def storage_grows_def records_grow_def children_def longer_def)

lemma samples_grow: "grows_on pf pf' \<Longrightarrow> prefix (samples pf c) (samples pf' c)"
  using om_view_grows [of "processed_map (pf_storage pf)" "processed_map (pf_storage pf')" longer
      "processed_lists (pf_storage pf)" "processed_lists (pf_storage pf')" c]
  by (cases "om_view (processed_map (pf_storage pf)) (processed_lists (pf_storage pf)) c")
    (auto simp: grows_on_def grows_def storage_grows_def records_grow_def samples_def storage_abs_def longer_def)

text \<open>A suspension of a coroutine, apart from its end.\<close>

definition suspension_recorded :: "jlong \<Rightarrow> trace_time \<Rightarrow> stack_frame list \<Rightarrow> profiler \<Rightarrow> bool" where
  "suspension_recorded c start frames pf \<longleftrightarrow>
     (\<exists>ci b si. om_view (coroutine_info_map (pf_storage pf)) (coroutine_infos (pf_storage pf)) c = Some ci
        \<and> b \<in> set (cl_list (ci_suspensions_list ci)) \<and> cells (suspensions (pf_storage pf)) b = Some si
        \<and> si_coroutine_id si = c \<and> si_start si = start \<and> si_stack_trace si = frames)"

lemma suspension_grows:
  assumes "grows_on pf pf'" and "suspension_recorded c start frames pf"
  shows "suspension_recorded c start frames pf'"
proof -
  from assms(2) obtain ci b si where ci: "om_view (coroutine_info_map (pf_storage pf)) (coroutine_infos (pf_storage pf)) c = Some ci"
    and b: "b \<in> set (cl_list (ci_suspensions_list ci))" "cells (suspensions (pf_storage pf)) b = Some si"
    and si: "si_coroutine_id si = c" "si_start si = start" "si_stack_trace si = frames"
    by (auto simp: suspension_recorded_def)
  have g: "map_grows (coroutine_info_map (pf_storage pf)) (coroutine_info_map (pf_storage pf'))"
    "cells_grow more_suspensions (coroutine_infos (pf_storage pf)) (coroutine_infos (pf_storage pf'))"
    "cells_grow same_suspension (suspensions (pf_storage pf)) (suspensions (pf_storage pf'))"
    using assms(1) by (simp_all add: grows_on_def grows_def storage_grows_def records_grow_def)
  obtain ci' where ci': "om_view (coroutine_info_map (pf_storage pf')) (coroutine_infos (pf_storage pf')) c = Some ci'"
    "b \<in> set (cl_list (ci_suspensions_list ci'))"
    using om_view_grows [OF g(1,2) ci] b(1) by (auto simp: more_suspensions_def longer_def dest: set_mono_prefix)
  obtain si' where "cells (suspensions (pf_storage pf')) b = Some si'" "same_suspension si si'"
    using g(3) b(2) by (auto simp: cells_grow_def)
  with ci' si show ?thesis by (auto simp: suspension_recorded_def same_suspension_def)
qed

text \<open>It is in the list of suspensions of the abstract storage.\<close>

lemma suspension_recorded_view:
  assumes "suspension_recorded c start frames pf"
  shows "\<exists>sis. csuspensions pf c = Some sis \<and> (\<exists>si\<in>set sis. si_start si = start \<and> si_stack_trace si = frames)"
  using assms by (force simp: suspension_recorded_def csuspensions_def storage_abs_def suspension_view_def)

lemma lasting_rely:
  "rely prof i pf pf' \<and> record_rely prof i pf pf' \<Longrightarrow> grows_on pf pf'"
  "guar prof i pf pf' \<and> record_step prof i pf pf' \<Longrightarrow> grows_on pf pf'"
  by (simp_all add: grows_on_def rely_def guar_def record_rely_def record_step_def)

lemma lasting_stable:
  assumes "\<And>pf pf'. P pf \<Longrightarrow> grows_on pf pf' \<Longrightarrow> P pf'"
  shows "lasting.stable env prof i P"
  unfolding lasting.stable_def using assms lasting_rely(1) by blast

lemma lasting_carry:
  assumes "lasting.triple env prof i E P p Q" and "\<And>pf pf'. F pf \<Longrightarrow> grows_on pf pf' \<Longrightarrow> F pf'"
  shows "lasting.triple env prof i E (\<lambda>pf. P pf \<and> F pf) p (\<lambda>x pf. Q x pf \<and> F pf)"
  using assms(1) by (rule lasting.triple_frame) (use assms(2) lasting_rely in blast)+

text \<open>Facts that go on to hold.\<close>

lemma grows_on_facts:
  assumes "grows_on pf pf'"
  shows "traced c pf \<Longrightarrow> traced c pf'" and "known_coroutine c pf \<Longrightarrow> known_coroutine c pf'"
    and "x \<in> set (children (pf_storage pf) c) \<Longrightarrow> x \<in> set (children (pf_storage pf') c)"
    and "y \<in> set (samples pf c) \<Longrightarrow> y \<in> set (samples pf' c)"
    and "cm_find c (child_coroutines_map (pf_storage pf)) = Some (Some a) \<Longrightarrow>
      cm_find c (child_coroutines_map (pf_storage pf')) = Some (Some a)"
    and "cm_find c (coroutine_info_map (pf_storage pf)) = Some (Some a) \<Longrightarrow>
      cm_find c (coroutine_info_map (pf_storage pf')) = Some (Some a)"
    and "cm_find c (processed_map (pf_storage pf)) = Some (Some a) \<Longrightarrow>
      cm_find c (processed_map (pf_storage pf')) = Some (Some a)"
proof -
  have g: "grows pf pf'" using assms by (simp add: grows_on_def)
  show "traced c pf \<Longrightarrow> traced c pf'" "known_coroutine c pf \<Longrightarrow> known_coroutine c pf'"
    using grows_facts(1,2) [OF g] by blast+
  show "x \<in> set (children (pf_storage pf) c) \<Longrightarrow> x \<in> set (children (pf_storage pf') c)"
    "y \<in> set (samples pf c) \<Longrightarrow> y \<in> set (samples pf' c)"
    using set_mono_prefix [OF children_grow [OF assms]] set_mono_prefix [OF samples_grow [OF assms]] by blast+
qed (use assms in \<open>auto simp: grows_on_def grows_def storage_grows_def map_grows_def\<close>)

lemma lasting_does:
  assumes "\<And>pf. conc_ok env pf \<Longrightarrow> keeps env prof i pf (pf\<lparr>pf_storage := u (pf_storage pf)\<rparr>)" and "recording (i = prof) u"
    and "lasting.stable env prof i P" and "lasting.stable env prof i Q"
    and "\<And>pf. conc_ok env pf \<Longrightarrow> P pf \<Longrightarrow> Q (pf\<lparr>pf_storage := u (pf_storage pf)\<rparr>)"
  shows "lasting.triple env prof i E P (storage_does u) (\<lambda>_. Q)"
  unfolding storage_does_def
  by (rule lasting.triple_modify [OF assms(3,4)])
    (use assms(1,5) record_storage [OF assms(2)] in \<open>auto simp: keeps_def\<close>)

section \<open>What the programs of the storage leave behind\<close>

lemma lasting_facts [simp]:
  "lasting.stable env prof i (traced c)" "lasting.stable env prof i (known_coroutine c)"
  "lasting.stable env prof i (\<lambda>pf. x \<in> set (children (pf_storage pf) c))"
  "lasting.stable env prof i (\<lambda>pf. y \<in> set (samples pf c))"
  "lasting.stable env prof i (\<lambda>pf. cm_find c (child_coroutines_map (pf_storage pf)) = Some (Some a))"
  "lasting.stable env prof i (coroutine_at c p)"
  "lasting.stable env prof i (\<lambda>pf. cm_find c (processed_map (pf_storage pf)) = Some (Some a))"
  "lasting.stable env prof i (suspension_recorded c start frames)"
  by (rule lasting_stable; auto simp: coroutine_at_def dest: grows_on_facts suspension_grows)+

lemma insert_has_object: "om_no_null m \<Longrightarrow> has_object k (fst (om_insert k x m h))"
  using om_no_null_insert [of m k x h] has_object_contains [of "fst (om_insert k x m h)" k]
  by (auto simp: om_insert_def Let_def split_def cm_find_insert cm_contains_find split: if_splits)

lemma after_insert:
  assumes "storage_ok s"
  shows "has_object c (child_coroutines_map (createChildCoroutineStorage c s))"
    and "has_object c (coroutine_info_map (insert_coroutine t1 t2 c s))"
  using storage_okD(2,4,6) [OF assms] insert_has_object
  by (simp_all add: createChildCoroutineStorage_def insert_coroutine_def Let_def split_def)

lemma lasting_createChild:
  "lasting.triple env prof i E anything (storage_does (createChildCoroutineStorage c)) (\<lambda>_. traced c)"
  by (rule lasting_does) (auto simp: keeps_operation recording_operations after_insert conc_okD(2))

lemma lasting_createCoroutineInfo:
  "lasting.triple env prof i E anything (createCoroutineInfo_steps t1 t2 c) (\<lambda>_. known_coroutine c)"
  unfolding createCoroutineInfo_steps_def
proof (rule lasting.triple_bind [OF lasting_triple [OF triple_contains_coroutine]])
  have "lasting.triple env prof i E P (storage_does (insert_coroutine t1 t2 c)) (\<lambda>_. known_coroutine c)" for P
    by (rule lasting.triple_pre [where P = anything], rule lasting_does)
      (auto simp: keeps_operation recording_operations after_insert conc_okD(2))
  then show "lasting.triple env prof i E (\<lambda>pf. known \<longrightarrow> known_coroutine c pf)
      (if \<not> known then storage_does (insert_coroutine t1 t2 c) else Return ()) (\<lambda>_. known_coroutine c)" for known
    by (auto intro!: lasting.triple_Return)
qed (rule steps_rules)

lemma triple_getCoroutineInfo_known:
  "growing.triple env prof i E (known_coroutine c) (getCoroutineInfo_steps c) (coroutine_at c)"
  unfolding getCoroutineInfo_steps_def
proof (rule growing.triple_bind)
  show "growing.triple env prof i E (known_coroutine c) (storage_reads (\<lambda>s. cm_contains c (coroutine_info_map s)))
      (\<lambda>known pf. known_coroutine c pf \<and> known)"
    by (rule triple_reads) (simp_all add: contains_has_object)
  show "growing.triple env prof i E (\<lambda>pf. known_coroutine c pf \<and> known)
      (if known then atomic (on_storage (get_coroutine c)) else Return None) (coroutine_at c)" for known
    by (rule growing.triple_given) (simp add: triple_get_coroutine)
qed

lemma triple_at_coroutine:
  "growing.triple env prof i E (known_coroutine c)
     (attempt (on_storage (\<lambda>s. (cm_at c (coroutine_info_map s), s)))) (coroutine_at c)"
  by (rule growing.triple_attempt)
    (auto simp: has_object_get coroutine_at_def keeps_refl [unfolded keeps_def], auto simp: has_object_def fst_cm_get)

lemma after_push_suspension:
  assumes "conc_ok env pf" and "coroutine_at c (Some a) pf" and "si_coroutine_id si = c"
  shows "suspension_recorded c (si_start si) (si_stack_trace si)
    (pf\<lparr>pf_storage := push_suspension si a (pf_storage pf)\<rparr>)"
proof -
  have a: "cm_find c (coroutine_info_map (pf_storage pf)) = Some (Some a)" using assms(2) by (simp add: coroutine_at_def)
  obtain ci where "cells (coroutine_infos (pf_storage pf)) a = Some ci"
    using om_view_cell [OF storage_okD(5) [OF conc_okD(2) [OF assms(1)]] a] by blast
  with a assms(3) show ?thesis
    by (auto simp: suspension_recorded_def push_suspension_def om_view_def heap_simps cl_push_back_def Let_def split_def)
qed

lemma lasting_addSuspensionInfo:
  assumes "si_coroutine_id si = c"
  shows "lasting.triple env prof i E (known_coroutine c) (addSuspensionInfo_steps si)
    (\<lambda>_. suspension_recorded c (si_start si) (si_stack_trace si))"
  unfolding addSuspensionInfo_steps_def assms
proof (rule lasting.triple_bind [OF lasting_triple [OF triple_at_coroutine]])
  show "lasting.triple env prof i E (coroutine_at c p)
      (case p of None \<Rightarrow> Raise (Null_dereference ''addSuspensionInfo'') | Some a \<Rightarrow> storage_does (push_suspension si a))
      (\<lambda>_. suspension_recorded c (si_start si) (si_stack_trace si))" for p
  proof (cases p)
    case None
    then show ?thesis by (auto simp: coroutine_at_def intro!: lasting.triple_Raise)
  next
    case (Some a)
    show ?thesis unfolding Some option.case
      by (rule lasting_does) (simp_all add: keeps_operation recording_push after_push_suspension assms)
  qed
qed (intro steps_rules recording_rules)

lemma lasting_addChildCoroutine:
  "lasting.triple env prof i E (traced parent) (addChildCoroutine_steps c parent)
     (\<lambda>_ pf. c \<in> set (children (pf_storage pf) parent))"
  unfolding addChildCoroutine_steps_def
proof (rule lasting.triple_bind)
  let ?at = "\<lambda>p pf. p \<noteq> None \<and> cm_find parent (child_coroutines_map (pf_storage pf)) = Some p"
  have "growing.stable env prof i (?at p)" for p
    by (rule stable_grows) (auto simp: grows_def storage_grows_def map_grows_def)
  then have "growing.triple env prof i E (traced parent) (atomic (on_storage (getChildCoroutines parent))) ?at"
    by (intro growing.triple_atomic)
      (auto simp: getChildCoroutines_def has_object_get keeps_refl [unfolded keeps_def] Let_def split_def,
       auto simp: has_object_def fst_cm_get)
  then show "lasting.triple env prof i E (traced parent) (atomic (on_storage (getChildCoroutines parent))) ?at"
    by (rule lasting_triple) (intro steps_rules recording_rules)
  fix p
  show "lasting.triple env prof i E (?at p)
      (case p of None \<Rightarrow> Raise (Null_dereference ''addChildCoroutine'')
       | Some a \<Rightarrow> storage_does (\<lambda>s. s\<lparr>child_lists := heap_update a (cl_push_back c) (child_lists s)\<rparr>))
      (\<lambda>_ pf. c \<in> set (children (pf_storage pf) parent))"
  proof (cases p)
    case None
    then show ?thesis by (auto intro!: lasting.triple_Raise)
  next
    case (Some a)
    have "c \<in> set (children (s\<lparr>child_lists := heap_update a (cl_push_back c) (child_lists s)\<rparr>) parent)"
      if ok: "storage_ok s" and a: "cm_find parent (child_coroutines_map s) = Some (Some a)" for s :: trace_storage
      using om_view_cell [OF storage_okD(3) [OF ok] a] a by (auto simp: children_def om_view_def heap_simps cl_push_back_def)
    then show ?thesis unfolding Some option.case
      by (intro lasting_does) (simp_all add: keeps_operation recording_operations conc_okD(2))
  qed
qed

text \<open>
  A coroutine without samples gets its first one by an insertion, which does nothing when there is
  an entry by now. The sample is not lost because no other thread files samples.
\<close>

abbreviation unsampled :: "jlong \<Rightarrow> profiler \<Rightarrow> bool" where
  "unsampled c pf \<equiv> \<not> cm_contains c (processed_map (pf_storage pf))"

abbreviation samples_at :: "jlong \<Rightarrow> ptr \<Rightarrow> profiler \<Rightarrow> bool" where
  "samples_at c p pf \<equiv> p \<noteq> None \<and> cm_find c (processed_map (pf_storage pf)) = Some p"

lemma stable_samples [simp]:
  "lasting.stable env prof prof (unsampled c)" "lasting.stable env prof i (\<lambda>pf. has_object c (processed_map (pf_storage pf)))"
  "lasting.stable env prof i (samples_at c p)"
proof -
  show "lasting.stable env prof prof (unsampled c)"
    unfolding lasting.stable_def by (auto simp: record_rely_def no_new_samples_def)
  show "lasting.stable env prof i (\<lambda>pf. has_object c (processed_map (pf_storage pf)))" "lasting.stable env prof i (samples_at c p)"
    by (rule lasting_stable; auto simp: has_object_def dest: grows_on_facts)+
qed

lemma samples_view:
  "samples pf c = (case om_view (processed_map (pf_storage pf)) (processed_lists (pf_storage pf)) c of
     Some l \<Rightarrow> cl_list l | None \<Rightarrow> [])"
  by (simp add: samples_def storage_abs_def split: option.splits)

lemma after_file:
  assumes "conc_ok env pf"
  shows "samples_at c (Some a) pf \<Longrightarrow> r \<in> set (samples (pf\<lparr>pf_storage := (pf_storage pf)
      \<lparr>processed_lists := heap_update a (cl_push_back r) (processed_lists (pf_storage pf))\<rparr>\<rparr>) c)"
    and "unsampled c pf \<Longrightarrow> r \<in> set (samples (pf\<lparr>pf_storage := insert_samples c r (pf_storage pf)\<rparr>) c)"
proof -
  note ok = storage_okD(1) [OF conc_okD(2) [OF assms]]
  show "r \<in> set (samples (pf\<lparr>pf_storage := (pf_storage pf)
      \<lparr>processed_lists := heap_update a (cl_push_back r) (processed_lists (pf_storage pf))\<rparr>\<rparr>) c)"
    if a: "samples_at c (Some a) pf"
    using om_view_cell [OF ok, of c a] a by (auto simp: samples_view om_view_def heap_simps cl_push_back_def)
  show "r \<in> set (samples (pf\<lparr>pf_storage := insert_samples c r (pf_storage pf)\<rparr>) c)" if "unsampled c pf"
    using that by (simp add: samples_view insert_samples_def Let_def split_def om_view_insert [OF ok] cl_push_back_def)
qed

lemma lasting_addProcessedTrace:
  "lasting.triple env prof prof E anything (addProcessedTrace_steps c r) (\<lambda>_ pf. r \<in> set (samples pf c))"
  unfolding addProcessedTrace_steps_def
proof (rule lasting.triple_bind)
  let ?seen = "\<lambda>known pf. if known then has_object c (processed_map (pf_storage pf)) else unsampled c pf"
  have "lasting.stable env prof prof (?seen known)" for known by (cases known) simp_all
  then show "lasting.triple env prof prof E anything (storage_reads (\<lambda>s. cm_contains c (processed_map s))) ?seen"
    unfolding storage_reads_def by (intro lasting.triple_observe) (simp_all add: contains_has_object)
  fix known
  let ?push = "\<lambda>p. case p of None \<Rightarrow> Raise (Null_dereference ''addProcessedTrace'')
    | Some a \<Rightarrow> storage_does (\<lambda>s. s\<lparr>processed_lists := heap_update a (cl_push_back r) (processed_lists s)\<rparr>)"
  have at: "lasting.triple env prof prof E (\<lambda>pf. has_object c (processed_map (pf_storage pf)))
      (attempt (on_storage (\<lambda>s. (cm_at c (processed_map s), s)))) (samples_at c)"
    by (rule lasting.triple_attempt [OF stable_samples(2,3)])
      (auto simp: has_object_get keeps_refl [unfolded keeps_def], auto simp: has_object_def fst_cm_get)
  have push: "lasting.triple env prof prof E (samples_at c p) (?push p) (\<lambda>_ pf. r \<in> set (samples pf c))" for p
  proof (cases p)
    case None
    then show ?thesis by (auto intro!: lasting.triple_Raise)
  next
    case (Some a)
    show ?thesis unfolding Some option.case
      by (rule lasting_does) (simp_all add: keeps_operation recording_operations after_file)
  qed
  have new: "lasting.triple env prof prof E (unsampled c) (storage_does (insert_samples c r)) (\<lambda>_ pf. r \<in> set (samples pf c))"
    by (rule lasting_does) (simp_all add: keeps_operation recording_operations after_file)
  show "lasting.triple env prof prof E (?seen known)
      (if known then pbind (attempt (on_storage (\<lambda>s. (cm_at c (processed_map s), s)))) ?push
       else storage_does (insert_samples c r)) (\<lambda>_ pf. r \<in> set (samples pf c))"
    using lasting.triple_bind [OF at push] new by (cases known) simp_all
qed

section \<open>What the handlers leave behind\<close>

lemma lasting_carried:
  assumes "lasting.triple env prof i E anything p (\<lambda>_. anything)" and "\<And>pf pf'. F pf \<Longrightarrow> grows_on pf pf' \<Longrightarrow> F pf'"
  shows "lasting.triple env prof i E F p (\<lambda>_. F)"
  using lasting_carry [OF assms] by simp

lemma lasting_new_child:
  "lasting.triple env prof i E (\<lambda>pf. traced parent pf \<and> known_coroutine c pf)
     (pbind (addChildCoroutine_steps c parent) (\<lambda>_. storage_does (createChildCoroutineStorage c)))
     (\<lambda>_ pf. traced c pf \<and> c \<in> set (children (pf_storage pf) parent) \<and> known_coroutine c pf)"
proof (rule lasting.triple_bind [OF lasting_carry [OF lasting_addChildCoroutine]])
  show "lasting.triple env prof i E (\<lambda>pf. c \<in> set (children (pf_storage pf) parent) \<and> known_coroutine c pf)
      (storage_does (createChildCoroutineStorage c))
      (\<lambda>_ pf. traced c pf \<and> c \<in> set (children (pf_storage pf) parent) \<and> known_coroutine c pf)"
    using lasting_carry [OF lasting_createChild, of "\<lambda>pf. c \<in> set (children (pf_storage pf) parent) \<and> known_coroutine c pf"]
      grows_on_facts by auto
qed (rule grows_on_facts(2))

lemma stable_current: "lasting.stable env prof i (\<lambda>pf. current_coroutine_id pf i = c)"
  unfolding lasting.stable_def by (auto simp: record_rely_def)

lemma lasting_join_parent:
  "lasting.triple env prof i E (\<lambda>pf. known_coroutine c pf \<and> (b \<longrightarrow> seen) \<and> (seen \<longrightarrow> traced parent pf))
     (if seen then pbind (addChildCoroutine_steps c parent) (\<lambda>_. storage_does (createChildCoroutineStorage c))
      else Return ())
     (\<lambda>_ pf. known_coroutine c pf \<and> (b \<longrightarrow> c \<in> set (children (pf_storage pf) parent) \<and> traced c pf))"
proof (cases seen)
  case True
  have "lasting.triple env prof i E (\<lambda>pf. known_coroutine c pf \<and> (b \<longrightarrow> seen) \<and> (seen \<longrightarrow> traced parent pf))
      (pbind (addChildCoroutine_steps c parent) (\<lambda>_. storage_does (createChildCoroutineStorage c)))
      (\<lambda>_ pf. known_coroutine c pf \<and> (b \<longrightarrow> c \<in> set (children (pf_storage pf) parent) \<and> traced c pf))"
    by (rule lasting.triple_pre [OF lasting.triple_post [OF lasting_new_child]]) (use True in auto)
  with True show ?thesis by simp
next
  case False
  have "lasting.stable env prof i
      (\<lambda>pf. known_coroutine c pf \<and> (b \<longrightarrow> c \<in> set (children (pf_storage pf) parent) \<and> traced c pf))"
    by (rule lasting_stable) (use grows_on_facts(1-3) in blast)
  with False show ?thesis by (auto intro!: lasting.triple_Return)
qed

lemma lasting_coroutineCreated:
  "lasting.triple env prof i E (\<lambda>pf. current_coroutine_id pf i = parent \<and> (b \<longrightarrow> traced parent pf))
     (coroutineCreated_steps i t1 t2 c)
     (\<lambda>_ pf. known_coroutine c pf \<and> (b \<longrightarrow> c \<in> set (children (pf_storage pf) parent) \<and> traced c pf))"
  unfolding coroutineCreated_steps_def
proof (rule lasting.triple_bind)
  let ?from = "\<lambda>pf. b \<longrightarrow> traced parent pf"
  have origin: "lasting.stable env prof i (\<lambda>pf. ?from pf \<and> x = parent)"
    "lasting.stable env prof i (\<lambda>pf. current_coroutine_id pf i = parent \<and> ?from pf)" for x
    by (intro lasting.stable_conj lasting.stable_imp lasting_facts stable_current lasting.stable_const)+
  then show "lasting.triple env prof i E (\<lambda>pf. current_coroutine_id pf i = parent \<and> ?from pf)
      (observe (\<lambda>pf. current_coroutine_id pf i)) (\<lambda>x pf. ?from pf \<and> x = parent)"
    by (intro lasting.triple_observe) simp_all
  fix x
  let ?done = "\<lambda>pf. known_coroutine c pf \<and> (b \<longrightarrow> c \<in> set (children (pf_storage pf) parent) \<and> traced c pf)"
  let ?seen = "\<lambda>seen pf. known_coroutine c pf \<and> (b \<longrightarrow> seen) \<and> (seen \<longrightarrow> traced parent pf)"
  have create: "lasting.triple env prof i E ?from (createCoroutineInfo_steps t1 t2 c)
      (\<lambda>_ pf. known_coroutine c pf \<and> ?from pf)"
    using lasting_carry [OF lasting_createCoroutineInfo, of ?from] grows_on_facts(1) by auto
  have "lasting.stable env prof i (\<lambda>pf. known_coroutine c pf \<and> ?from pf)" "lasting.stable env prof i (?seen seen)" for seen
    by (rule lasting_stable; use grows_on_facts(1,2) in blast)+
  then have read: "lasting.triple env prof i E (\<lambda>pf. known_coroutine c pf \<and> ?from pf)
      (storage_reads (containsChildCoroutineStorage parent)) ?seen"
    unfolding storage_reads_def
    by (intro lasting.triple_observe) (auto simp: containsChildCoroutineStorage_def contains_has_object)
  show "lasting.triple env prof i E (\<lambda>pf. ?from pf \<and> x = parent)
      (pbind (createCoroutineInfo_steps t1 t2 c) (\<lambda>_.
       pbind (storage_reads (containsChildCoroutineStorage x)) (\<lambda>seen.
       if seen then pbind (addChildCoroutine_steps c x) (\<lambda>_. storage_does (createChildCoroutineStorage c))
       else Return ()))) (\<lambda>_. ?done)"
    by (rule lasting.triple_given, simp only:, rule lasting.triple_bind [OF create],
        rule lasting.triple_bind [OF read]) (rule lasting_join_parent)
qed

text \<open>A suspension whose methods can be named is recorded with their names.\<close>

lemma lasting_record_suspension:
  assumes "those (map (pure_method_frame env) ms) = None \<Longrightarrow> \<forall>e. E e"
  shows "lasting.triple env prof i E (known_coroutine c) (record_suspension_steps env start ms c)
    (\<lambda>_ pf. \<exists>fs. those (map (pure_method_frame env) ms) = Some fs \<and> suspension_recorded c start fs pf)"
  unfolding record_suspension_steps_def
proof (rule lasting.triple_bind)
  show "lasting.triple env prof i E (known_coroutine c) (process_methods_steps env ms)
      (\<lambda>fs pf. known_coroutine c pf \<and> those (map (pure_method_frame env) ms) = Some fs)"
    using lasting_carry [where F = "known_coroutine c",
        OF lasting_triple [OF triple_process_methods [where E = E, OF assms] steps_lists(1)]] grows_on_facts(2)
    by (simp add: conj_commute)
  fix fs
  show "lasting.triple env prof i E (\<lambda>pf. known_coroutine c pf \<and> those (map (pure_method_frame env) ms) = Some fs)
      (addSuspensionInfo_steps \<lparr>si_coroutine_id = c, si_start = start, si_end = 0, si_stack_trace = fs\<rparr>)
      (\<lambda>_ pf. \<exists>fs. those (map (pure_method_frame env) ms) = Some fs \<and> suspension_recorded c start fs pf)"
    by (rule lasting.triple_given, rule lasting.triple_post [OF lasting_addSuspensionInfo]) simp_all
qed

lemma lasting_coroutineSuspended:
  assumes "those (map (pure_method_frame env) (take suspension_stack_depth ms)) = None \<Longrightarrow> \<forall>e. E e" and "ms \<noteq> []"
  shows "lasting.triple env prof i E (known_coroutine c) (coroutineSuspended_steps env i now r (Some ms) start c)
    (\<lambda>_ pf. \<exists>fs. those (map (pure_method_frame env) (take suspension_stack_depth ms)) = Some fs
      \<and> suspension_recorded c start fs pf)"
  unfolding coroutineSuspended_steps_def
proof (rule lasting.triple_bind)
  show "lasting.triple env prof i E (known_coroutine c) (set_current i NOT_FOUND) (\<lambda>_. known_coroutine c)"
    by (rule lasting_carried [OF lasting_triple [OF triple_changes(2) steps_profiler(8)]]) (rule grows_on_facts(2))
next
  let ?done = "\<lambda>_ pf. \<exists>fs. those (map (pure_method_frame env) (take suspension_stack_depth ms)) = Some fs
      \<and> suspension_recorded c start fs pf"
  have some: "length (take suspension_stack_depth ms) \<ge> 1"
    using assms(2) by (cases ms) (simp_all add: suspension_stack_depth_def)
  have pause: "lasting.triple env prof i E (known_coroutine c) (pause_coroutine_steps i now r a) (\<lambda>_. known_coroutine c)" for a
    by (rule lasting_carried [OF lasting_triple [OF triple_pause]])
      (auto simp: pause_coroutine_steps_def intro!: steps_rules recording_rules dest: grows_on_facts(2))
  show "lasting.triple env prof i E (known_coroutine c)
      (pbind (getCoroutineInfo_steps c) (\<lambda>p. case p of None \<Rightarrow> Return ()
       | Some a \<Rightarrow> pbind (pause_coroutine_steps i now r a) (\<lambda>_. case Some ms of None \<Rightarrow> Return ()
           | Some methods \<Rightarrow> if length (take suspension_stack_depth methods) \<ge> 1
              then record_suspension_steps env start (take suspension_stack_depth methods) c else Return ()))) ?done"
  proof (rule lasting.triple_bind [OF lasting_triple [OF triple_getCoroutineInfo_known steps_storage_programs(2)]])
    fix p
    have "lasting.triple env prof i E (known_coroutine c)
        (pbind (pause_coroutine_steps i now r a) (\<lambda>_. record_suspension_steps env start (take suspension_stack_depth ms) c)) ?done" for a
      using pause lasting_record_suspension [where E = E, OF assms(1)] by (rule lasting.triple_bind)
    with some show "lasting.triple env prof i E (coroutine_at c p) (case p of None \<Rightarrow> Return ()
       | Some a \<Rightarrow> pbind (pause_coroutine_steps i now r a) (\<lambda>_. case Some ms of None \<Rightarrow> Return ()
           | Some methods \<Rightarrow> if length (take suspension_stack_depth methods) \<ge> 1
              then record_suspension_steps env start (take suspension_stack_depth methods) c else Return ())) ?done"
      by (cases p) (auto simp: coroutine_at_def has_object_def lasting.triple_def)
  qed
qed

text \<open>A round of the profiler thread takes the first sample of the queue and files what it stands for.\<close>

abbreviation queue_starts :: "raw_call_trace_record \<Rightarrow> profiler \<Rightarrow> bool" where
  "queue_starts raw pf \<equiv> \<exists>rs. cl_list (raw_list (pf_storage pf)) = raw # rs"

lemma processed_of_same:
  assumes "jvm_grows j j'" and "processed_of env j r = Some pr"
  shows "processed_of env j' r = Some pr"
proof -
  obtain a where "findThread (rr_thread r) j = Some a"
    using assms(2) by (cases "findThread (rr_thread r) j") (auto simp: processed_of_def thread_name_def)
  with assms show ?thesis by (auto simp: jvm_grows_def processed_of_def)
qed

lemma stable_processed_of [simp]: "growing.stable env prof i (\<lambda>pf. processed_of env' (pf_jvm pf) raw = Some pr)"
  by (rule stable_grows) (auto simp: grows_def intro: processed_of_same)

lemma stable_queue [simp]: "growing.stable env prof prof (queue_starts raw)"
  unfolding growing.stable_def by (auto simp: rely_def raw_grows_def)

lemma triple_take_first:
  assumes "processed_of env j raw = Some pr"
  shows "growing.triple env prof prof E (\<lambda>pf. queue_starts raw pf \<and> processed_of env (pf_jvm pf) raw = Some pr)
    removeRawTraceHeader_steps (\<lambda>r pf. processed_of env (pf_jvm pf) raw = Some pr \<and> r = Some raw)"
  unfolding removeRawTraceHeader_steps_def storage_reads_def
proof (rule growing.triple_bind)
  let ?first = "\<lambda>pf. queue_starts raw pf \<and> processed_of env (pf_jvm pf) raw = Some pr"
  let ?rest = "\<lambda>r pf. processed_of env (pf_jvm pf) raw = Some pr \<and> r = Some raw"
  have first: "growing.stable env prof prof ?first" by (rule growing.stable_conj) simp_all
  then show "growing.triple env prof prof E ?first (observe (\<lambda>pf. cl_empty (raw_list (pf_storage pf)))) (\<lambda>empty pf. ?first pf \<and> \<not> empty)"
    by (intro growing.triple_observe [OF first stable_and [OF first]]) (auto simp: cl_empty_def)
  have pop: "growing.triple env prof prof E ?first (attempt (on_storage pop_raw)) (\<lambda>r pf. processed_of env (pf_jvm pf) raw = Some pr \<and> r = raw)"
  proof (rule growing.triple_attempt [OF first])
    fix pf
    assume ok: "conc_ok env pf" and "?first pf"
    then obtain rs where "cl_list (raw_list (pf_storage pf)) = raw # rs" "processed_of env (pf_jvm pf) raw = Some pr" by blast
    with consumer.queue_ok [OF ok] consumer.queue_changes [OF ok, of "(raw_list (pf_storage pf))\<lparr>cl_list := rs\<rparr>" prof]
    show "conc_ok env (snd (on_storage pop_raw pf)) \<and> guar prof prof pf (snd (on_storage pop_raw pf))
      \<and> (case fst (on_storage pop_raw pf) of Inl e \<Rightarrow> E e
         | Inr r \<Rightarrow> processed_of env (pf_jvm (snd (on_storage pop_raw pf))) raw = Some pr \<and> r = raw)"
      by (simp add: pop_raw_def cl_pop_front_locked_def)
  qed simp
  have "growing.triple env prof prof E (\<lambda>pf. processed_of env (pf_jvm pf) raw = Some pr \<and> r = raw) (Return (Some r)) ?rest" for r
    by (rule growing.triple_Return) simp_all
  from growing.triple_bind [OF pop this]
  show "growing.triple env prof prof E (\<lambda>pf. ?first pf \<and> \<not> empty)
      (if empty then Return None else pbind (attempt (on_storage pop_raw)) (\<lambda>r. Return (Some r))) ?rest" for empty
    by (intro growing.triple_given) simp
qed

lemma triple_name_value:
  "growing.triple env prof i E (\<lambda>pf. processed_of env (pf_jvm pf) raw = Some pr)
     (attempt (\<lambda>pf. (thread_name (findThread (rr_thread raw) (pf_jvm pf)) (pf_jvm pf), pf))) (\<lambda>n _. n = pr_thread_name pr)"
  by (rule growing.triple_attempt)
    (auto simp: keeps_refl [unfolded keeps_def], auto simp: processed_of_def split: sum.splits option.splits if_splits)

lemma lasting_process_round:
  assumes "processed_of env j raw = Some pr"
  shows "lasting.triple env prof prof E (\<lambda>pf. queue_starts raw pf \<and> processed_of env (pf_jvm pf) raw = Some pr)
    (process_round_steps env) (\<lambda>_ pf. pr \<in> set (samples pf (rr_coroutine_id raw)))"
  unfolding process_round_steps_def
proof (rule lasting.triple_bind [OF lasting_triple [OF triple_take_first [OF assms] steps_storage_programs(7)]])
  let ?name = "attempt (\<lambda>pf. (thread_name (findThread (rr_thread raw) (pf_jvm pf)) (pf_jvm pf), pf))"
  let ?file = "\<lambda>frames n. pbind (addProcessedTrace_steps (rr_coroutine_id raw)
      \<lparr>pr_stack_trace = frames, pr_thread_name = n, pr_time = rr_time raw\<rparr>) (\<lambda>_. Return True)"
  let ?done = "\<lambda>_ pf. pr \<in> set (samples pf (rr_coroutine_id raw))"
  have pr: "\<lparr>pr_stack_trace = pr_stack_trace pr, pr_thread_name = pr_thread_name pr, pr_time = rr_time raw\<rparr> = pr"
    using assms by (auto simp: processed_of_def split: sum.splits option.splits if_splits)
  have finish: "lasting.triple env prof prof E (\<lambda>pf. pr \<in> set (samples pf (rr_coroutine_id raw))) (Return True) ?done"
    by (rule lasting.triple_Return) simp_all
  have filed: "lasting.triple env prof prof E (\<lambda>_. frames = pr_stack_trace pr) (?file frames (pr_thread_name pr)) ?done" for frames
    by (rule lasting.triple_if, hypsubst, unfold pr, rule lasting.triple_bind [OF lasting_addProcessedTrace finish])
  have named: "lasting.triple env prof prof E (\<lambda>_. n = pr_thread_name pr) (pbind (record_frames_steps env raw) (\<lambda>frames. ?file frames n)) ?done" for n
    by (rule lasting.triple_if, hypsubst, rule lasting.triple_bind,
        rule lasting_triple [OF triple_record_frames [OF assms] steps_record_frames], rule filed)
  have all: "lasting.triple env prof prof E (\<lambda>pf. processed_of env (pf_jvm pf) raw = Some pr)
      (pbind ?name (\<lambda>n. pbind (record_frames_steps env raw) (\<lambda>frames. ?file frames n))) ?done"
    by (rule lasting.triple_bind, rule lasting_triple [OF triple_name_value steps_profiler(11)], rule named)
  show "lasting.triple env prof prof E (\<lambda>pf. processed_of env (pf_jvm pf) raw = Some pr \<and> r = Some raw)
      (case r of None \<Rightarrow> Return False
       | Some raw \<Rightarrow> pbind (attempt (\<lambda>pf. (thread_name (findThread (rr_thread raw) (pf_jvm pf)) (pf_jvm pf), pf))) (\<lambda>n.
           pbind (record_frames_steps env raw) (\<lambda>frames. pbind (addProcessedTrace_steps (rr_coroutine_id raw)
             \<lparr>pr_stack_trace = frames, pr_thread_name = n, pr_time = rr_time raw\<rparr>) (\<lambda>_. Return True)))) ?done" for r
    by (rule lasting.triple_given, hypsubst, unfold option.case, rule all)
qed

lemma lasting_sample:
  "lasting.triple env prof prof E (\<lambda>pf. processed_of env (pf_jvm pf) (sample_record time trace c) \<noteq> None)
     (storage_does (addRawTrace time trace c))
     (\<lambda>_ pf. sample_record time trace c \<in> set (cl_list (raw_list (pf_storage pf))))"
  unfolding storage_does_def
proof (rule lasting.triple_modify)
  let ?r = "sample_record time trace c"
  show "lasting.stable env prof prof (\<lambda>pf. processed_of env (pf_jvm pf) ?r \<noteq> None)"
    by (rule lasting_stable) (auto simp: grows_on_def dest: grows_facts(5))
  show "lasting.stable env prof prof (\<lambda>pf. ?r \<in> set (cl_list (raw_list (pf_storage pf))))"
    unfolding lasting.stable_def by (auto simp: rely_def raw_grows_def)
  fix pf
  assume ok: "conc_ok env pf" and r: "processed_of env (pf_jvm pf) ?r \<noteq> None"
  let ?pf = "pf\<lparr>pf_storage := addRawTrace time trace c (pf_storage pf)\<rparr>"
  have add: "addRawTrace time trace c s = s\<lparr>raw_list := cl_push_back ?r (raw_list s)\<rparr>" for s
    by (simp add: addRawTrace_def sample_record_def Let_def)
  have "conc_ok env ?pf \<and> guar prof prof pf ?pf"
    unfolding add using r consumer.queue_ok [OF ok]
    by (intro consumer.queue_changes [OF ok]) (auto simp: cl_push_back_def)
  moreover have "record_step prof prof pf ?pf" by (rule record_storage [OF recording_fields(3) ok])
  moreover have "?r \<in> set (cl_list (raw_list (pf_storage ?pf)))" by (simp add: add cl_push_back_def)
  ultimately show "conc_ok env ?pf \<and> (guar prof prof pf ?pf \<and> record_step prof prof pf ?pf)
    \<and> ?r \<in> set (cl_list (raw_list (pf_storage ?pf)))"
    by blast
qed

lemma lasting_new_trace:
  assumes "E (Runtime_error (''Found trace that already started: '' @ to_string (sint t)))"
    and F: "\<And>pf pf'. F pf \<Longrightarrow> grows_on pf pf' \<Longrightarrow> F pf'"
  shows "lasting.triple env prof i E F
    (pbind (count_traces 1 a) (\<lambda>_.
     pbind (storage_does (createChildCoroutineStorage t)) (\<lambda>_.
     pbind (atomic (on_storage (addOngoingTraceInfo info))) (\<lambda>added.
     if added then Return ()
     else Raise (Runtime_error (''Found trace that already started: '' @ to_string (sint t)))))))
    (\<lambda>_ pf. traced t pf \<and> F pf)"
proof -
  have both: "traced t pf \<and> F pf \<Longrightarrow> grows_on pf pf' \<Longrightarrow> traced t pf' \<and> F pf'" for pf pf'
    using grows_on_facts(1) F by blast
  have count: "lasting.triple env prof i E F (count_traces 1 a) (\<lambda>_. F)"
    using lasting_triple [OF triple_changes(1) steps_profiler(7)] F by (rule lasting_carried)
  have child: "lasting.triple env prof i E F (storage_does (createChildCoroutineStorage t)) (\<lambda>_ pf. traced t pf \<and> F pf)"
    by (rule lasting.triple_pre [OF lasting_carry [OF lasting_createChild F]]) simp_all
  have add: "lasting.triple env prof i E (\<lambda>pf. traced t pf \<and> F pf) (atomic (on_storage (addOngoingTraceInfo info)))
      (\<lambda>_ pf. traced t pf \<and> F pf)"
    using lasting_triple [OF triple_atomics(1) steps_storage(2) [OF recording_results(3)]] both by (rule lasting_carried)
  have last: "lasting.triple env prof i E (\<lambda>pf. traced t pf \<and> F pf)
      (if added then Return () else Raise (Runtime_error (''Found trace that already started: '' @ to_string (sint t))))
      (\<lambda>_ pf. traced t pf \<and> F pf)" for added
    using assms(1) lasting_stable [OF both] by (auto intro!: lasting.triple_Return lasting.triple_Raise)
  show ?thesis
    by (rule lasting.triple_bind [OF count], rule lasting.triple_bind [OF child], rule lasting.triple_bind [OF add last])
qed

lemma lasting_traceStart:
  assumes "E (Runtime_error (''Found trace that already started: '' @ to_string (sint (trace_id he i c))))"
  shows "lasting.triple env prof i E (registered i) (traceStart_steps he i t1 t2 start c)
    (\<lambda>_ pf. traced (trace_id he i c) pf \<and> (c = -2 \<longrightarrow> known_coroutine (trace_id he i c) pf))"
  unfolding traceStart_steps_def
proof (rule lasting.triple_bind)
  let ?known = "\<lambda>pf. c = -2 \<longrightarrow> known_coroutine (trace_id he i c) pf"
  have known: "?known pf \<Longrightarrow> grows_on pf pf' \<Longrightarrow> ?known pf'" for pf pf'
    using grows_on_facts(2) by blast
  have "lasting.triple env prof i E anything
      (if c = -2 then createCoroutineInfo_steps t1 t2 (hash_thread_id he i) else Return ()) (\<lambda>_. ?known)"
    using lasting_createCoroutineInfo by (auto simp: trace_id_def intro!: lasting.triple_Return)
  from lasting_carry [OF this, of "registered i"]
  show "lasting.triple env prof i E (registered i)
      (if c = -2 then createCoroutineInfo_steps t1 t2 (hash_thread_id he i) else Return ())
      (\<lambda>_ pf. registered i pf \<and> ?known pf)"
    using grows_facts(4) by (force simp: grows_on_def conj_commute)
  have "lasting.triple env prof i E (\<lambda>pf. registered i pf \<and> ?known pf) (find_thread_steps ''traceStart'' i) (\<lambda>_. ?known)"
    by (rule lasting.triple_post [OF lasting_carry [OF lasting_triple [OF consumer.triple_find_thread] known]])
      (auto simp: find_thread_steps_def intro!: steps_rules)
  then show "lasting.triple env prof i E (\<lambda>pf. registered i pf \<and> ?known pf)
      (pbind (find_thread_steps ''traceStart'' i) (\<lambda>a. pbind (count_traces 1 a) (\<lambda>_.
       pbind (storage_does (createChildCoroutineStorage (trace_id he i c))) (\<lambda>_.
       pbind (atomic (on_storage (addOngoingTraceInfo
         \<lparr>ti_coroutine_id = trace_id he i c, ti_start = start, ti_end = 0\<rparr>))) (\<lambda>added.
       if added then Return ()
       else Raise (Runtime_error (''Found trace that already started: '' @ to_string (sint (trace_id he i c)))))))))
      (\<lambda>_ pf. traced (trace_id he i c) pf \<and> ?known pf)"
    by (rule lasting.triple_bind) (rule lasting_new_trace [where E = E and F = ?known, OF assms known])
qed

section \<open>The effect of an event\<close>

text \<open>
  What has to be recorded in \<open>pf'\<close> when the handler of an event has ended that began in \<open>pf\<close>.
\<close>

definition effect :: "hash_env \<Rightarrow> method_env \<Rightarrow> profiler_event \<Rightarrow> profiler \<Rightarrow> profiler \<Rightarrow> bool" where
  "effect he env ev pf pf' =
     (case ev of
        Trace_start self _ _ _ c \<Rightarrow>
          traced (trace_id he self c) pf' \<and> (c = -2 \<longrightarrow> known_coroutine (trace_id he self c) pf')
      | Coroutine_created self _ _ c \<Rightarrow>
          known_coroutine c pf'
          \<and> (traced (current_coroutine_id pf self) pf \<longrightarrow>
               c \<in> set (children (pf_storage pf') (current_coroutine_id pf self)) \<and> traced c pf')
      | Coroutine_suspended _ _ _ frames start c \<Rightarrow>
          (\<forall>ms. frames = Some ms \<and> ms \<noteq> [] \<and> known_coroutine c pf \<longrightarrow>
             (\<exists>fs. those (map (pure_method_frame env) (take suspension_stack_depth ms)) = Some fs
                \<and> suspension_recorded c start fs pf'))
      | Sample time trace c \<Rightarrow> sample_record time trace c \<in> set (cl_list (raw_list (pf_storage pf')))
      | Process_traces \<Rightarrow>
          (\<forall>raw rs. cl_list (raw_list (pf_storage pf)) = raw # rs \<longrightarrow>
             (\<exists>pr. processed_of env (pf_jvm pf) raw = Some pr \<and> pr \<in> set (samples pf' (rr_coroutine_id raw))))
      | _ \<Rightarrow> True)"

lemma effect_stable:
  assumes "may_start env prof i ev pf1"
  shows "lasting.stable env prof i (effect he env ev pf1)"
proof (cases ev)
  case (Sample time trace c)
  with assms have "i = prof" by (simp add: may_start_def)
  with Sample show ?thesis unfolding lasting.stable_def by (auto simp: effect_def rely_def raw_grows_def)
next
  case (Coroutine_suspended self now r frames start c)
  then show ?thesis
    by (intro lasting_stable) (auto simp: effect_def dest: suspension_grows)
next
  case Process_traces
  then show ?thesis
    by (intro lasting_stable) (fastforce simp: effect_def dest: grows_on_facts(4))
qed (auto simp: effect_def intro!: lasting_stable dest: grows_on_facts)

lemma safe_lasting:
  assumes "conc_ok env pf" and "may_start env prof i ev pf"
  shows "safe (conc_ok env) (\<lambda>pf pf'. rely prof i pf pf' \<and> record_rely prof i pf pf')
    (\<lambda>pf pf'. guar prof i pf pf' \<and> record_step prof i pf pf') (conc_error he env ev) (handler_steps he env ev)
    (\<lambda>_. anything) pf"
  using safe_handler [OF assms] steps_handler [OF assms(2)] by (rule safe_strengthen)

abbreviation takes_effect :: "hash_env \<Rightarrow> method_env \<Rightarrow> pthread_t \<Rightarrow> pthread_t \<Rightarrow> profiler_event \<Rightarrow> profiler \<Rightarrow> bool" where
  "takes_effect he env prof i ev pf \<equiv>
     safe (conc_ok env) (\<lambda>pf pf'. rely prof i pf pf' \<and> record_rely prof i pf pf')
       (\<lambda>pf pf'. guar prof i pf pf' \<and> record_step prof i pf pf') (conc_error he env ev) (handler_steps he env ev)
       (\<lambda>_. effect he env ev pf) pf"

lemma takes_effect_triple:
  assumes "lasting.triple env prof i (conc_error he env ev) P (handler_steps he env ev) (\<lambda>_. Q)"
    and "conc_ok env pf" and "P pf" and "\<And>pf'. Q pf' \<Longrightarrow> effect he env ev pf pf'"
  shows "takes_effect he env prof i ev pf"
proof -
  have "safe (conc_ok env) (\<lambda>pf pf'. rely prof i pf pf' \<and> record_rely prof i pf pf')
      (\<lambda>pf pf'. guar prof i pf pf' \<and> record_step prof i pf pf') (conc_error he env ev) (handler_steps he env ev) (\<lambda>_. Q) pf"
    using assms(1-3) unfolding lasting.triple_def by blast
  then show ?thesis by (rule safe_weaken) (rule assms(4))
qed

lemma takes_effect_trivial:
  assumes "conc_ok env pf" and "may_start env prof i ev pf" and "\<And>pf'. effect he env ev pf pf'"
  shows "takes_effect he env prof i ev pf"
  using safe_lasting [OF assms(1,2)] by (rule safe_weaken) (rule assms(3))

lemma effect_traceStart:
  assumes "conc_ok env pf" and "registered i pf"
  shows "takes_effect he env prof i (Trace_start i t1 t2 start c) pf"
proof (rule takes_effect_triple)
  let ?E = "conc_error he env (Trace_start i t1 t2 start c)"
  have "?E (Runtime_error (''Found trace that already started: '' @ to_string (sint (trace_id he i c))))"
    by (simp add: conc_error_def)
  from lasting_traceStart [where E = ?E, OF this]
  show "lasting.triple env prof i ?E (registered i) (handler_steps he env (Trace_start i t1 t2 start c))
      (\<lambda>_ pf. traced (trace_id he i c) pf \<and> (c = -2 \<longrightarrow> known_coroutine (trace_id he i c) pf))"
    unfolding handler_steps.simps .
qed (use assms in \<open>simp_all add: effect_def\<close>)

lemma effect_coroutineCreated:
  assumes "conc_ok env pf"
  shows "takes_effect he env prof i (Coroutine_created i t1 t2 c) pf"
proof (rule takes_effect_triple)
  let ?p = "current_coroutine_id pf i"
  show "lasting.triple env prof i (conc_error he env (Coroutine_created i t1 t2 c))
      (\<lambda>q. current_coroutine_id q i = ?p \<and> (traced ?p pf \<longrightarrow> traced ?p q))
      (handler_steps he env (Coroutine_created i t1 t2 c))
      (\<lambda>_ q. known_coroutine c q \<and> (traced ?p pf \<longrightarrow> c \<in> set (children (pf_storage q) ?p) \<and> traced c q))"
    unfolding handler_steps.simps by (rule lasting_coroutineCreated)
qed (use assms in \<open>simp_all add: effect_def\<close>)

lemma effect_coroutineSuspended:
  assumes "conc_ok env pf"
  shows "takes_effect he env prof i (Coroutine_suspended i now r frames start c) pf"
proof (cases "frames = None \<or> frames = Some [] \<or> \<not> known_coroutine c pf")
  case True
  then show ?thesis by (intro takes_effect_trivial [OF assms]) (auto simp: effect_def may_start_def)
next
  case False
  then obtain ms where ms: "frames = Some ms" "ms \<noteq> []" "known_coroutine c pf" by auto
  let ?E = "conc_error he env (Coroutine_suspended i now r frames start c)"
  have failed: "\<forall>e. ?E e" if "those (map (pure_method_frame env) (take suspension_stack_depth ms)) = None"
    using that by (simp add: ms(1) conc_error_def)
  show ?thesis
  proof (rule takes_effect_triple)
    show "lasting.triple env prof i ?E (known_coroutine c)
        (handler_steps he env (Coroutine_suspended i now r frames start c))
        (\<lambda>_ pf'. \<exists>fs. those (map (pure_method_frame env) (take suspension_stack_depth ms)) = Some fs
           \<and> suspension_recorded c start fs pf')"
      using lasting_coroutineSuspended [where E = ?E, OF failed ms(2)] unfolding handler_steps.simps ms(1) .
  qed (use assms ms in \<open>simp_all add: effect_def\<close>)
qed

lemma effect_sample:
  assumes "conc_ok env pf" and "processed_of env (pf_jvm pf) (sample_record time trace c) \<noteq> None"
  shows "takes_effect he env prof prof (Sample time trace c) pf"
proof (rule takes_effect_triple)
  show "lasting.triple env prof prof (conc_error he env (Sample time trace c))
      (\<lambda>pf. processed_of env (pf_jvm pf) (sample_record time trace c) \<noteq> None) (handler_steps he env (Sample time trace c))
      (\<lambda>_ pf. sample_record time trace c \<in> set (cl_list (raw_list (pf_storage pf))))"
    unfolding handler_steps.simps by (rule lasting_sample)
qed (use assms in \<open>simp_all add: effect_def\<close>)

lemma effect_process:
  assumes "conc_ok env pf"
  shows "takes_effect he env prof prof Process_traces pf"
proof (cases "cl_list (raw_list (pf_storage pf))")
  case Nil
  then show ?thesis by (intro takes_effect_trivial [OF assms]) (simp_all add: effect_def may_start_def)
next
  case (Cons raw rs)
  then obtain pr where pr: "processed_of env (pf_jvm pf) raw = Some pr" using conc_okD(4) [OF assms, of raw] by auto
  let ?E = "conc_error he env Process_traces" and ?filed = "\<lambda>pf. pr \<in> set (samples pf (rr_coroutine_id raw))"
  show ?thesis
  proof (rule takes_effect_triple)
    have "lasting.triple env prof prof ?E ?filed (Return ()) (\<lambda>_. ?filed)"
      by (rule lasting.triple_Return) simp_all
    with lasting_process_round [OF pr]
    show "lasting.triple env prof prof ?E (\<lambda>q. queue_starts raw q \<and> processed_of env (pf_jvm q) raw = Some pr)
        (handler_steps he env Process_traces) (\<lambda>_. ?filed)"
      unfolding handler_steps.simps by (rule lasting.triple_bind)
  qed (use assms Cons pr in \<open>simp_all add: effect_def\<close>)
qed

lemma effect_safe:
  assumes "conc_ok env pf" and "may_start env prof i ev pf"
  shows "takes_effect he env prof i ev pf"
proof (cases ev)
  case (Trace_start self t1 t2 start c)
  with effect_traceStart [OF assms(1)] assms(2) show ?thesis by (auto simp: may_start_def)
next
  case (Coroutine_created self t1 t2 c)
  with effect_coroutineCreated [OF assms(1)] assms(2) show ?thesis by (auto simp: may_start_def)
next
  case (Coroutine_suspended self now r frames start c)
  with effect_coroutineSuspended [OF assms(1)] assms(2) show ?thesis by (auto simp: may_start_def)
next
  case (Sample time trace c)
  with effect_sample [OF assms(1)] assms(2) show ?thesis by (auto simp: may_start_def)
next
  case Process_traces
  with effect_process [OF assms(1)] assms(2) show ?thesis by (auto simp: may_start_def)
qed (rule takes_effect_trivial [OF assms], simp add: effect_def)+

section \<open>Properties\<close>

lemma registers_lasting:
  assumes "conc_ok env pf" and "registers pf pf'"
  shows "conc_ok env pf' \<and> (rely prof i pf pf' \<and> record_rely prof i pf pf')"
  using registers_grows [OF assms] assms(2) by (auto simp: registers_def record_rely_def)

lemma grows_on_refl: "grows_on pf pf"
  by (simp add: grows_on_def)

lemma grows_on_trans: "grows_on pf pf' \<Longrightarrow> grows_on pf' pf'' \<Longrightarrow> grows_on pf pf''"
  unfolding grows_on_def using grows_trans records_grow_trans by blast

lemma run_of_effect:
  assumes "lasting.pool_safe env prof (\<lambda>_. conc_error he env) (ps1, pf1)" and "ps1 i = None" and "may_start env prof i ev pf1"
    and "(pool_step (handler_steps he env) (\<lambda>j ev pf. j \<noteq> i \<and> may_start env prof j ev pf) registers)\<^sup>*\<^sup>*
      (ps1(i \<mapsto> (ev, handler_steps he env ev)), pf1) (ps2, pf2)"
  shows "lasting.follows env prof (\<lambda>_. conc_error he env) i ev (effect he env ev pf1) (ps2, pf2) \<and> grows_on pf1 pf2"
proof -
  let ?E = "\<lambda>_. conc_error he env" and ?x = "(ps1(i \<mapsto> (ev, handler_steps he env ev)), pf1)"
  have ok: "conc_ok env pf1" using lasting.pool_safeD(1) [OF assms(1)] by simp
  have "pool_step (handler_steps he env) (may_start env prof) registers (ps1, pf1) ?x"
    using assms(2,3) by (rule pool_step.Begin)
  then have x: "lasting.pool_safe env prof ?E ?x"
    using assms(1) safe_lasting registers_lasting by (rule lasting.pool_safe_step)
  then have "lasting.follows env prof ?E i ev (effect he env ev pf1) ?x"
    using effect_safe [OF ok assms(3)] by (simp add: lasting.follows_def)
  then have "lasting.follows env prof ?E i ev (effect he env ev pf1) (ps2, pf2)"
    by (rule lasting.follows_steps [OF assms(4) _ effect_stable [OF assms(3)] safe_lasting registers_lasting])
  moreover have "grows_on (snd ?x) (snd (ps2, pf2))"
    by (rule conjunct2 [OF lasting.pool_steps_within [OF assms(4) x grows_on_refl grows_on_trans]])
      (use lasting_rely registers_lasting safe_lasting in blast)+
  ultimately show ?thesis by simp
qed

text \<open>
  C4. A handler does its work although others run at the same time. A thread begins a handler in a
  state that a schedule has reached, and the handlers of other threads are interleaved with it in
  any way. When it has ended, and as long as the thread begins nothing else, its effect is there:
  the started trace has a list of children; the created coroutine is known and, when the coroutine
  of its thread was traced, it is among its children and traced itself; the suspension is recorded
  with its start and the names of its methods; the first sample of the queue has been filed under
  its coroutine with the frames and the thread name it stands for. Nothing the other threads have
  recorded is lost or reordered.
\<close>

theorem handlers_take_effect:
  assumes "conc_ok env pf0"
    and "(pool_step (handler_steps he env) (may_start env prof) registers)\<^sup>*\<^sup>* (\<lambda>_. None, pf0) (ps1, pf1)"
    and "ps1 i = None" and "may_start env prof i ev pf1"
    and "(pool_step (handler_steps he env) (\<lambda>j ev pf. j \<noteq> i \<and> may_start env prof j ev pf) registers)\<^sup>*\<^sup>*
      (ps1(i \<mapsto> (ev, handler_steps he env ev)), pf1) (ps2, pf2)"
    and "ps2 i = None"
  shows "effect he env ev pf1 pf2
    \<and> (\<forall>c. prefix (children (pf_storage pf1) c) (children (pf_storage pf2) c) \<and> prefix (samples pf1 c) (samples pf2 c))"
proof -
  have "lasting.pool_safe env prof (\<lambda>_. conc_error he env) (ps1, pf1)"
    using assms(2,1) safe_lasting registers_lasting by (rule lasting.pool_safe_steps)
  from run_of_effect [OF this assms(3-5)] assms(6) children_grow samples_grow
  show ?thesis by (simp add: lasting.follows_def)
qed

text \<open>
  The instance: thread 3 has started the trace of coroutine 7, which threads 4 and 5 run. Both create
  a coroutine, one critical section of the one after one of the other, until thread 4 has ended.
\<close>

definition example_before :: "(pthread_t, profiler_event) decision list" where
  "example_before =
     Start 3 (Trace_start 3 10 11 12 7) # replicate 5 (Go 3)
     @ Start 4 (Coroutine_resumed 4 (Linux_rusage None) 13 14 7) # replicate 3 (Go 4)
     @ Start 5 (Coroutine_resumed 5 (Linux_rusage None) 15 16 7) # replicate 3 (Go 5)"

definition example_between :: "(pthread_t, profiler_event) decision list" where
  "example_between = Start 5 (Coroutine_created 5 17 18 9) # concat (replicate 7 [Go 4, Go 5]) @ [Go 4]"

lemma example_runs:
  "(case schedule (handler_steps example_hash example_env) (may_start example_env 1) example_before (\<lambda>_. None, example_profiler) of
      None \<Rightarrow> False
    | Some (ps, pf) \<Rightarrow>
        Option.is_none (ps 4) \<and> current_coroutine_id pf 4 = 7
        \<and> cm_find 7 (child_coroutines_map (pf_storage pf)) = Some (Some 0)
        \<and> (case schedule (handler_steps example_hash example_env) (\<lambda>j ev pf. j \<noteq> 4 \<and> may_start example_env 1 j ev pf)
                  example_between
                  (ps(4 \<mapsto> (Coroutine_created 4 19 20 8, handler_steps example_hash example_env (Coroutine_created 4 19 20 8))), pf) of
             None \<Rightarrow> False
           | Some (ps', pf') \<Rightarrow> Option.is_none (ps' 4)))"
  by code_simp

theorem handlers_take_effect_witness:
  "\<exists>ps1 pf1 ps2 pf2.
     (pool_step (handler_steps example_hash example_env) (may_start example_env 1) registers)\<^sup>*\<^sup>*
       (\<lambda>_. None, example_profiler) (ps1, pf1)
     \<and> (pool_step (handler_steps example_hash example_env) (\<lambda>j ev pf. j \<noteq> 4 \<and> may_start example_env 1 j ev pf) registers)\<^sup>*\<^sup>*
         (ps1(4 \<mapsto> (Coroutine_created 4 19 20 8, handler_steps example_hash example_env (Coroutine_created 4 19 20 8))), pf1)
         (ps2, pf2)
     \<and> ps2 4 = None \<and> 8 \<in> set (children (pf_storage pf2) 7) \<and> traced 8 pf2 \<and> known_coroutine 8 pf2"
proof -
  let ?ran = "\<lambda>ps pf. schedule (handler_steps example_hash example_env) (\<lambda>j ev pf. j \<noteq> 4 \<and> may_start example_env 1 j ev pf)
    example_between (ps(4 \<mapsto> (Coroutine_created 4 19 20 8, handler_steps example_hash example_env (Coroutine_created 4 19 20 8))), pf)"
  from example_runs obtain ps1 pf1 where
    s1: "schedule (handler_steps example_hash example_env) (may_start example_env 1) example_before
      (\<lambda>_. None, example_profiler) = Some (ps1, pf1)"
    and r: "Option.is_none (ps1 4) \<and> current_coroutine_id pf1 4 = 7
      \<and> cm_find 7 (child_coroutines_map (pf_storage pf1)) = Some (Some 0)
      \<and> (case ?ran ps1 pf1 of None \<Rightarrow> False | Some (ps', pf') \<Rightarrow> Option.is_none (ps' 4))"
    by (rule outcomeE)
  then have 1: "ps1 4 = None" "current_coroutine_id pf1 4 = 7" "cm_find 7 (child_coroutines_map (pf_storage pf1)) = Some (Some 0)"
    and "case ?ran ps1 pf1 of None \<Rightarrow> False | Some (ps', pf') \<Rightarrow> Option.is_none (ps' 4)"
    by (simp_all only: Option.is_none_def)
  from this(4) obtain ps2 pf2 where s2: "?ran ps1 pf1 = Some (ps2, pf2)" and "Option.is_none (ps2 4)" by (rule outcomeE)
  then have 2: "ps2 4 = None" by (simp add: Option.is_none_def)
  note runs = schedule_steps [OF s1, of registers] schedule_steps [OF s2, of registers]
  have "may_start example_env 1 4 (Coroutine_created 4 19 20 8) pf1" by (simp add: may_start_def)
  from handlers_take_effect [OF example_conc_ok runs(1) 1(1) this runs(2) 2] 1(2,3)
  have "8 \<in> set (children (pf_storage pf2) 7)" "traced 8 pf2" "known_coroutine 8 pf2"
    by (auto simp: effect_def has_object_def)
  with runs 2 show ?thesis by blast
qed

end
