(* ===== verification/Spec2Isabelle.thy ===== *)
theory Spec2Isabelle
  imports Trace_Time Concurrent_List Concurrent_Map Concurrent_Vector Args_Parser Object_Map
    Storage_Lifecycle Jvm_Threads Resource_Usage Sampling_Safety Agent_Lifecycle Cleaner_Races Handler_Progress Handler_Effects
begin

text \<open>
  \<^bold>\<open>The program.\<close> Kotlin-tracer is a native agent for the JVM. It is loaded with a string of options
  that names one method. Through a Java part it rewrites the class of that method, so that the start
  and the end of every call are reported, and the class of the coroutine probes, so that the
  creation, suspension, resumption and completion of coroutines are reported. A profiler thread
  interrupts the threads on which a traced call runs and unwinds their stacks. When a traced call
  lasts longer than a threshold, the agent writes a Perfetto trace with the coroutines below the
  call, their running times, suspensions, samples and garbage collections. The development covers
  the code under \<open>src/src/main/cpp\<close>; line numbers are given in the manifest.

  \<^bold>\<open>Conventions.\<close> A class or struct is a record with the fields of the source; an object that is
  reached through several shared pointers lives in a cell of a store (\<open>heap\<close> in \<open>Tracer_Prelude\<close>), so
  that aliasing is visible. An operation that may throw returns \<open>error + 'a\<close>; a handler that may throw
  after it has changed something is an \<open>action\<close>, which returns the state also when it throws. Reads of
  unmapped memory, null pointers and other undefined behaviour are values of \<open>error\<close>. Integers are
  words of their width, \<open>sint\<close> and \<open>unat\<close> read them. Clock readings, resource readings and whatever
  JVMTI, JNI, libunwind, the kernel, the symbol library and the Java part answer are arguments. The
  release build is modelled: \<open>logDebug\<close> is empty there.

  \<^bold>\<open>Theories.\<close>
  \<^item> \<open>Tracer_Prelude\<close>: machine integers, errors and results, stores, association lists, decimals.
  \<^item> \<open>Container_Interfaces\<close>: the locales \<open>fifo_queue\<close>, \<open>keyed_store\<close> and \<open>two_phase_clean\<close>, with what
    their clients rely on. \<open>Concurrent_List\<close>, \<open>Concurrent_Map\<close> and \<open>Concurrent_Vector\<close> model the three
    containers of \<open>concurrentCollections\<close>, each critical section as one step, and interpret the locales.
    For the list, the two critical sections of \<open>pop_front\<close> are also interleaved with other threads:
    elements are delivered once and in order, one consumer is safe, two are not.
  \<^item> \<open>Trace_Time\<close>: \<open>trace/traceTime\<close>, the operators and clocks on 64-bit words.
  \<^item> \<open>Args_Parser\<close>: \<open>utils/argsParser\<close> with the positions and wrap-around of \<open>std::string\<close> and
    \<open>std::stoi\<close>; it agrees with a reading as a list of pairs and inverts printing.
  \<^item> \<open>Trace_Model\<close>, \<open>Object_Map\<close>, \<open>Trace_Storage\<close>: \<open>profiler/model\<close> and \<open>trace/traceStorage\<close>.
    \<open>Storage_Refinement\<close> has the abstract storage, the invariant and the simulation;
    \<open>Storage_Lifecycle\<close> the failures, the cleaner thread as a step relation, and the garbage
    collection events.
  \<^item> \<open>Jvm_Threads\<close>, \<open>Resource_Usage\<close>, \<open>Method_Tables\<close>, \<open>Profiler\<close>: the registry of threads of
    \<open>vm/jvm.cpp\<close> and \<open>profiler/profiler.cpp\<close>: resource accounting, names of frames with their caches,
    and every event handler. \<open>Profiler_Invariant\<close> shows the invariant for all histories of events and
    exactly when a handler throws; \<open>Trace_Lifecycle\<close> that a trace is written exactly when it is slow,
    and what unmatched starts and ends leave behind; \<open>Coroutine_Accounting\<close> running times,
    suspensions and the tree of coroutines; \<open>Sample_Processing\<close> that samples are delivered once and
    in order.
  \<^item> \<open>Interleaving\<close>, \<open>Atomic_Handlers\<close>, \<open>Profiler_Threads\<close>, \<open>Handler_Concurrency\<close>, \<open>Cleaner_Races\<close>,
    \<open>Handler_Progress\<close>, \<open>Handler_Effects\<close>: the handlers of \<open>profiler.cpp\<close> and the operations of \<open>traceStorage.cpp\<close> once
    more as programs with one step per critical section. \<open>Interleaving\<close> has programs, pools of threads as a step relation,
    schedules that can be executed, and the locale \<open>rely_guarantee\<close>. \<open>Atomic_Handlers\<close> has the programs
    and shows that alone they are the handlers. \<open>Profiler_Threads\<close> extends the locale to readers of the
    registry of threads and to the profiler thread. \<open>Handler_Concurrency\<close> interprets the locales for
    threads that only add to the maps: any number of handlers, the profiler thread, the collector and
    the marking half of the cleaner do not break each other. \<open>Cleaner_Races\<close> interprets them again with
    a cleaner that removes entries, bounds the errors each handler can meet then, and gives the
    schedules in which they occur. \<open>Handler_Progress\<close> bounds the number of steps of each handler.
    \<open>Handler_Effects\<close> interprets the locale a third time, with records that only grow, and shows that
    a handler has done its work when it ends, whatever ran in between.
  \<^item> \<open>Suspension_Plot\<close>, \<open>Plot_Structure\<close>: \<open>utils/suspensionPlot.cpp\<close>, the packets of the trace file.
    The loop over the coroutines ends by a multiset order on the coroutines that are not drawn yet;
    the file draws exactly the coroutines reachable from the traced one.
  \<^item> \<open>Process_Memory\<close>, \<open>Code_Cache\<close>, \<open>Method_Lookup\<close>: raw memory as a partial map from addresses to
    bytes, \<open>utils/pointerValidation.cpp\<close> and \<open>vm/jvmCodeCache.cpp\<close>: how an instruction is attributed to
    a Java method. \<open>Vm_Structs\<close>: \<open>vm/vmStructs.cpp\<close>, the tables of the JVM in \<open>vm/jvm.cpp\<close> and the
    constructor of the code cache. \<open>Vm_Image\<close>: an image of such tables in memory, on which the
    constructor succeeds.
  \<^item> \<open>Unwind\<close>, \<open>Unwind_Spec\<close>: the four unwinders of \<open>profiler/unwind\<close>, the locale \<open>stack_unwinder\<close> with
    its four interpretations, and the equality of the ARM and the Linux x86-64 unwinder with reference
    definitions.
  \<^item> \<open>Sampling\<close>, \<open>Sampling_Safety\<close>: the profiler thread of \<open>startProfiler\<close> and the signal handler,
    interleaved with the events of the application, threads that start and end, and \<open>stop\<close>. The
    invariant is proved inside the locale \<open>stack_unwinder\<close> and used through its interpretations.
  \<^item> \<open>Instrumentation\<close>: \<open>profiler/instrumentation.cpp\<close> and \<open>utils/jarLoader.cpp\<close>, with every check of
    an answer of the JVM as a branch.
  \<^item> \<open>Agent\<close>, \<open>Agent_Lifecycle\<close>: \<open>agent.cpp\<close>, \<open>agent.hpp\<close>, \<open>jni/jni_instrumentator.cpp\<close> and the
    constructor of the JVM wrapper; loading, unloading and the callbacks, composed with the option
    parser, the tables of the JVM, the instrumentation and the profiler.

  \<^bold>\<open>Termination.\<close> No definition uses fuel. Loops that end are total functions: the option parser by the
  position, \<open>processTraces\<close> by the length of the queue, the plot by a multiset order, the unwinders by
  the free places of the array. Loops that need not end are partial functions into \<open>option\<close>, where
  \<open>None\<close> is no answer: the walk over the segment map, strings without an end, the tables of the JVM,
  and the search for the interrupted frame. Where a property says that such a loop returns, the
  hypotheses name what the JVM guarantees (segment maps that lead back, tables with an end), and a
  witness shows an instance.

  \<^bold>\<open>Concurrency.\<close> Critical sections are atomic steps and atomic variables are sequentially consistent.
  The exact properties of the handlers are about histories in which they run one after the other;
  that no interleaving of their critical sections breaks the invariant or makes a pointer null, as
  long as nothing is removed, is \<open>Handler_Concurrency\<close>, and that what a handler records is there when
  it ends and stays there, is \<open>Handler_Effects\<close>. Running times, ends of suspensions and the list of
  running traces are left out of it: another thread may overwrite them. There a handler also yields between two calls on
  the containers and between accesses to an object through a pointer; a value that is copied from the
  reference a container returns belongs to the step of that call, and drawing the trace file is one
  step. The loop of \<open>processTraces\<close> is a sequence of its rounds. Registering a thread is a step of the
  environment. A schedule need not be fair: the properties of \<open>Handler_Concurrency\<close> are about every
  state that can be reached. The handshake of sampling has its own step relation in \<open>Sampling\<close>.

  \<^bold>\<open>Not modelled.\<close> The message classes under \<open>src/src/main/protos\<close> are generated, and writing the
  packets to a file is I/O: the file is the list of its packets. Installing the signal handler,
  looking up \<open>AsyncGetCallTrace\<close>, and attaching the profiler thread to the JVM are system calls
  without an effect on the state of the tracer. The Java part and the symbol library are submodules
  that are not in the repository. \<open>utils/log.h\<close> prints. Functions that only return a field or forward to
  JVMTI and JNI (\<open>getInstance\<close>, \<open>getJvmTi\<close>, \<open>getJNIEnv\<close>, \<open>attachThread\<close>, \<open>dettachThread\<close>) and the empty
  callbacks are not definitions of their own; what is left of the sources besides them are
  declarations, includes and comments.
\<close>

end
